(* ===== verification/Kairon_Prelude.thy ===== *)
theory Kairon_Prelude
  imports Main "HOL-Library.Multiset" "HOL-Library.Char_ord" "HOL-Library.List_Lexorder"
begin

text \<open>
  The vocabulary every component theory shares: Go's strings as byte strings with the
  functions of the packages \<open>strings\<close>, \<open>strconv\<close> and \<open>fmt\<close> that the sources call,
  Go's string maps as association lists, results that are a value or an error, and the
  stable sort behind \<open>sort.SliceStable\<close>.

  Strings are lists of bytes, as Go's are. Case mapping and white space are those of
  ASCII: the names, labels, phases and quantities the sources compare are ASCII tokens.
\<close>

named_theorems go_defs \<open>definitions of the Go library functions, for evaluation\<close>
named_theorems sort_laws \<open>what a stable sort keeps and establishes\<close>

section \<open>Results\<close>

type_synonym err = string
type_synonym 'a res = "err + 'a"

abbreviation Err :: "err \<Rightarrow> 'a res" where "Err \<equiv> Inl"
abbreviation Ok :: "'a \<Rightarrow> 'a res" where "Ok \<equiv> Inr"

definition is_ok :: "'a res \<Rightarrow> bool" where
  "is_ok r = (case r of Inl _ \<Rightarrow> False | Inr _ \<Rightarrow> True)"

definition res_val :: "'a \<Rightarrow> 'a res \<Rightarrow> 'a" where
  \<comment> \<open>the value of a call whose error is dropped: Go returns the zero value with the error\<close>
  "res_val z r = (case r of Inl _ \<Rightarrow> z | Inr v \<Rightarrow> v)"

lemma is_ok_simps [simp]: "is_ok (Inr v)" "\<not> is_ok (Inl e)"
  by (simp_all add: is_ok_def)

lemma res_val_simps [simp]: "res_val z (Inr v) = v" "res_val z (Inl e) = z"
  by (simp_all add: res_val_def)

section \<open>Maps from strings\<close>

definition quot :: "int \<Rightarrow> int \<Rightarrow> int" where
  \<comment> \<open>Go's integer division, towards zero\<close>
  "quot a b = sgn a * sgn b * (\<bar>a\<bar> div \<bar>b\<bar>)"

text \<open>
  A Go \<open>map[string]T\<close> is an association list. A lookup reads the first entry of its key;
  a \<open>range\<close> loop runs over the entries in list order, and since a statement about every
  association list covers every order of the entries, it covers every order in which Go may
  iterate. A nil map is the empty list.
\<close>

type_synonym 'v gomap = "(string \<times> 'v) list"
type_synonym smap = "string gomap"

definition mget :: "smap \<Rightarrow> string \<Rightarrow> string" where
  \<comment> \<open>\<open>m[k]\<close> of a \<open>map[string]string\<close>: the empty string when the key is absent\<close>
  "mget m k = (case map_of m k of None \<Rightarrow> '''' | Some v \<Rightarrow> v)"

fun mput :: "'v gomap \<Rightarrow> string \<Rightarrow> 'v \<Rightarrow> 'v gomap" where
  \<comment> \<open>\<open>m[k] = v\<close>\<close>
  "mput [] k v = [(k, v)]"
| "mput ((k', v') # m) k v = (if k' = k then (k, v) # m else (k', v') # mput m k v)"

lemma map_of_mput [simp]: "map_of (mput m k v) k' = (if k' = k then Some v else map_of m k')"
  by (induction m k v rule: mput.induct) auto

lemma keys_mput: "set (map fst (mput m k v)) = insert k (set (map fst m))"
  by (induction m k v rule: mput.induct) auto

lemma distinct_mput: "distinct (map fst m) \<Longrightarrow> distinct (map fst (mput m k v))"
proof (induction m k v rule: mput.induct)
  case (2 k' v' m k v)
  then show ?case using keys_mput [of m k v] by (auto simp del: map_of_mput)
qed simp

section \<open>Stable sorting\<close>

text \<open>
  \<open>sort.SliceStable\<close> gives the one permutation that is ordered and keeps equal elements
  in their order; an insertion sort that puts an element before the first one that is
  not less computes it.
\<close>

fun ins_by :: "('a \<Rightarrow> 'a \<Rightarrow> bool) \<Rightarrow> 'a \<Rightarrow> 'a list \<Rightarrow> 'a list" where
  "ins_by lt x [] = [x]"
| "ins_by lt x (y # ys) = (if lt y x then y # ins_by lt x ys else x # y # ys)"

fun sort_by :: "('a \<Rightarrow> 'a \<Rightarrow> bool) \<Rightarrow> 'a list \<Rightarrow> 'a list" where
  "sort_by lt [] = []"
| "sort_by lt (x # xs) = ins_by lt x (sort_by lt xs)"

lemma mset_ins_by: "mset (ins_by lt x xs) = add_mset x (mset xs)"
  by (induction xs) auto

lemma mset_sort_by [simp, sort_laws]: "mset (sort_by lt xs) = mset xs"
  by (induction xs) (auto simp: mset_ins_by)

lemma set_sort_by [simp, sort_laws]: "set (sort_by lt xs) = set xs"
  by (metis mset_sort_by set_mset_mset)

lemma length_sort_by [simp, sort_laws]: "length (sort_by lt xs) = length xs"
  by (metis mset_sort_by size_mset)

lemma distinct_sort_by [simp, sort_laws]: "distinct (sort_by lt xs) = distinct xs"
  by (metis mset_sort_by mset_eq_imp_distinct_iff)

lemma sort_by_Nil_iff [simp]: "sort_by lt xs = [] \<longleftrightarrow> xs = []"
  by (metis length_sort_by length_0_conv)

text \<open>
  What a comparison function must satisfy for the sort to be determined: the strict part
  of a total preorder.
\<close>

locale weak_order =
  fixes lt :: "'a \<Rightarrow> 'a \<Rightarrow> bool"
  assumes lt_irrefl: "\<not> lt x x"
    and lt_trans: "lt x y \<Longrightarrow> lt y z \<Longrightarrow> lt x z"
    and lt_split: "lt x z \<Longrightarrow> lt x y \<or> lt y z"
begin

lemma lt_asym: "lt x y \<Longrightarrow> \<not> lt y x"
  using lt_irrefl lt_trans by blast

lemma sorted_ins_by:
  "sorted_wrt (\<lambda>a b. \<not> lt b a) ys \<Longrightarrow> sorted_wrt (\<lambda>a b. \<not> lt b a) (ins_by lt x ys)"
proof (induction ys)
  case Nil
  then show ?case by simp
next
  case (Cons y ys)
  have set: "set (ins_by lt x ys) = insert x (set ys)"
    by (metis mset_ins_by set_mset_add_mset_insert set_mset_mset)
  show ?case
  proof (cases "lt y x")
    case True
    with Cons set show ?thesis using lt_asym by auto
  next
    case False
    have "\<not> lt z x" if "z \<in> set ys" for z
      using Cons.prems that False lt_split [of z x y] by auto
    with Cons False show ?thesis by auto
  qed
qed

lemma sorted_sort_by: "sorted_wrt (\<lambda>a b. \<not> lt b a) (sort_by lt xs)"
  by (induction xs) (auto intro: sorted_ins_by)

lemma filter_ins_by:
  "(\<And>y. P y \<Longrightarrow> P x \<Longrightarrow> \<not> lt y x) \<Longrightarrow>
   filter P (ins_by lt x ys) = (if P x then x # filter P ys else filter P ys)"
  by (induction ys) auto

text \<open>Elements that are equal for the order keep their relative positions.\<close>

lemma sort_by_stable:
  "filter (\<lambda>y. \<not> lt x y \<and> \<not> lt y x) (sort_by lt ys) = filter (\<lambda>y. \<not> lt x y \<and> \<not> lt y x) ys"
proof (induction ys)
  case (Cons y ys)
  have "\<not> lt z y" if "\<not> lt x z \<and> \<not> lt z x" "\<not> lt x y \<and> \<not> lt y x" for z
    using that lt_split [of z y x] by blast
  then have "filter (\<lambda>z. \<not> lt x z \<and> \<not> lt z x) (ins_by lt y (sort_by lt ys)) =
    (if \<not> lt x y \<and> \<not> lt y x then y # filter (\<lambda>z. \<not> lt x z \<and> \<not> lt z x) (sort_by lt ys)
     else filter (\<lambda>z. \<not> lt x z \<and> \<not> lt z x) (sort_by lt ys))"
    by (rule filter_ins_by)
  with Cons show ?case by simp
qed simp

lemma hd_sort_by_least: "xs \<noteq> [] \<Longrightarrow> y \<in> set xs \<Longrightarrow> \<not> lt y (hd (sort_by lt xs))"
proof -
  assume "xs \<noteq> []" and y: "y \<in> set xs"
  then obtain z zs where zs: "sort_by lt xs = z # zs"
    by (metis neq_Nil_conv sort_by_Nil_iff)
  with y have "y = z \<or> y \<in> set zs" by (metis set_ConsD set_sort_by)
  with sorted_sort_by [of xs] zs show ?thesis using lt_irrefl by auto
qed

end

text \<open>A comparison of keys in a linear order is such an order.\<close>

locale key_order =
  fixes key :: "'a \<Rightarrow> 'k :: linorder"

sublocale key_order \<subseteq> weak_order "\<lambda>a b. key a < key b"
  by unfold_locales auto

end
