(* ===== verification/Go_Strings.thy ===== *)
theory Go_Strings
  imports Kairon_Prelude "HOL-Library.Word"
begin

text \<open>
  The functions of Go's \<open>strings\<close>, \<open>strconv\<close> and \<open>fmt\<close> packages that the sources call,
  on byte strings, with the decimal printing and parsing of integers and their round trip.
\<close>

section \<open>Package strings\<close>

definition is_space :: "char \<Rightarrow> bool" where
  "is_space c = ((of_char c :: nat) \<in> {9, 10, 11, 12, 13, 32})"

definition TrimSpace :: "string \<Rightarrow> string" where
  "TrimSpace s = rev (dropWhile is_space (rev (dropWhile is_space s)))"

definition lower_char :: "char \<Rightarrow> char" where
  "lower_char c = (let n = (of_char c :: nat) in if 65 \<le> n \<and> n \<le> 90 then char_of (n + 32) else c)"

definition ToLower :: "string \<Rightarrow> string" where
  "ToLower s = map lower_char s"

definition EqualFold :: "string \<Rightarrow> string \<Rightarrow> bool" where
  "EqualFold a b = (ToLower a = ToLower b)"

definition HasPrefix :: "string \<Rightarrow> string \<Rightarrow> bool" where
  "HasPrefix s p = (take (length p) s = p)"

definition HasSuffix :: "string \<Rightarrow> string \<Rightarrow> bool" where
  "HasSuffix s p = (length p \<le> length s \<and> drop (length s - length p) s = p)"

definition TrimPrefix :: "string \<Rightarrow> string \<Rightarrow> string" where
  "TrimPrefix s p = (if HasPrefix s p then drop (length p) s else s)"

definition TrimSuffix :: "string \<Rightarrow> string \<Rightarrow> string" where
  "TrimSuffix s p = (if HasSuffix s p then take (length s - length p) s else s)"

definition CutSuffix :: "string \<Rightarrow> string \<Rightarrow> string option" where
  "CutSuffix s p = (if HasSuffix s p then Some (take (length s - length p) s) else None)"

fun Cut :: "string \<Rightarrow> char \<Rightarrow> (string \<times> string) option" where
  \<comment> \<open>\<open>strings.Cut\<close> at a one-byte separator: what stands before and after its first occurrence\<close>
  "Cut [] sep = None"
| "Cut (c # s) sep = (if c = sep then Some ([], s) else map_option (\<lambda>(a, b). (c # a, b)) (Cut s sep))"

fun fields_go :: "(char \<Rightarrow> bool) \<Rightarrow> string \<Rightarrow> string \<Rightarrow> string list" where
  "fields_go f cur [] = (if cur = [] then [] else [cur])"
| "fields_go f cur (c # s) =
     (if f c then (if cur = [] then fields_go f [] s else cur # fields_go f [] s)
      else fields_go f (cur @ [c]) s)"

definition FieldsFunc :: "(char \<Rightarrow> bool) \<Rightarrow> string \<Rightarrow> string list" where
  "FieldsFunc f s = fields_go f [] s"

fun Join :: "string list \<Rightarrow> string \<Rightarrow> string" where
  "Join [] sep = []"
| "Join [x] sep = x"
| "Join (x # y # xs) sep = x @ sep @ Join (y # xs) sep"

lemmas go_string_defs [go_defs] = is_space_def TrimSpace_def lower_char_def ToLower_def EqualFold_def
  HasPrefix_def HasSuffix_def TrimPrefix_def TrimSuffix_def CutSuffix_def FieldsFunc_def

lemma TrimSpace_id: "(\<And>c. c \<in> set s \<Longrightarrow> \<not> is_space c) \<Longrightarrow> TrimSpace s = s"
proof -
  assume "\<And>c. c \<in> set s \<Longrightarrow> \<not> is_space c"
  then have "dropWhile is_space s = s" and "dropWhile is_space (rev s) = rev s"
    by (auto simp: dropWhile_eq_self_iff hd_rev)
  then show ?thesis by (simp add: TrimSpace_def)
qed

lemma EqualFold_refl [simp]: "EqualFold s s"
  by (simp add: EqualFold_def)

lemma HasSuffix_append [simp]: "HasSuffix (s @ p) p"
  by (simp add: HasSuffix_def)

lemma TrimSuffix_append [simp]: "TrimSuffix (s @ p) p = s"
  by (simp add: TrimSuffix_def)

lemma CutSuffix_append [simp]: "CutSuffix (s @ p) p = Some s"
  by (simp add: CutSuffix_def)

lemma HasSuffix_last: "HasSuffix s [c] \<longleftrightarrow> s \<noteq> [] \<and> last s = c"
  by (cases s rule: rev_cases) (auto simp: HasSuffix_def)

lemma Cut_none: "sep \<notin> set s \<Longrightarrow> Cut s sep = None"
  by (induction s) auto

lemma Cut_append: "sep \<notin> set a \<Longrightarrow> Cut (a @ sep # b) sep = Some (a, b)"
  by (induction a) auto

section \<open>Decimal numbers\<close>

definition digit_char :: "nat \<Rightarrow> char" where
  "digit_char d = char_of (48 + d)"

definition in_class :: "(char \<times> char) list \<Rightarrow> char \<Rightarrow> bool" where
  \<comment> \<open>a character class of a regular expression, as its ranges\<close>
  "in_class ranges c = list_ex (\<lambda>(lo, hi). (of_char lo :: nat) \<le> of_char c \<and> (of_char c :: nat) \<le> of_char hi) ranges"

definition is_digit :: "char \<Rightarrow> bool" where
  "is_digit c = (48 \<le> (of_char c :: nat) \<and> (of_char c :: nat) \<le> 57)"

definition digit_val :: "char \<Rightarrow> nat" where
  "digit_val c = of_char c - 48"

fun show_nat :: "nat \<Rightarrow> string" where
  \<comment> \<open>\<open>strconv.FormatUint(n, 10)\<close> and \<open>%d\<close>\<close>
  "show_nat n = (if n < 10 then [digit_char n] else show_nat (n div 10) @ [digit_char (n mod 10)])"

declare show_nat.simps [simp del]

definition show_int :: "int \<Rightarrow> string" where
  "show_int i = (if i < 0 then ''-'' @ show_nat (nat (- i)) else show_nat (nat i))"

definition horner :: "string \<Rightarrow> nat" where
  "horner s = foldl (\<lambda>n c. 10 * n + digit_val c) 0 s"

definition ParseUint :: "nat \<Rightarrow> string \<Rightarrow> nat option" where
  \<comment> \<open>\<open>strconv.ParseUint(s, 10, bits)\<close>\<close>
  "ParseUint bits s =
     (if s \<noteq> [] \<and> list_all is_digit s \<and> horner s < 2 ^ bits then Some (horner s) else None)"

definition Atoi :: "string \<Rightarrow> int option" where
  \<comment> \<open>\<open>strconv.Atoi\<close>: an optional sign and decimal digits in the range of a 64-bit int\<close>
  "Atoi s =
     (let neg = HasPrefix s ''-''; ds = (if neg \<or> HasPrefix s ''+'' then tl s else s)
      in if ds = [] \<or> \<not> list_all is_digit ds then None
         else let n = (if neg then - int (horner ds) else int (horner ds))
              in if - (2 ^ 63) \<le> n \<and> n < 2 ^ 63 then Some n else None)"

lemmas go_number_defs [go_defs] = digit_char_def is_digit_def digit_val_def horner_def
  ParseUint_def Atoi_def show_int_def

lemma digit_char_eval [simp]:
  "digit_char 0 = CHR ''0''"
  "digit_char (Suc 0) = CHR ''1''"
  "digit_char 1 = CHR ''1''"
  "digit_char 2 = CHR ''2''"
  "digit_char 3 = CHR ''3''"
  "digit_char 4 = CHR ''4''"
  "digit_char 5 = CHR ''5''"
  "digit_char 6 = CHR ''6''"
  "digit_char 7 = CHR ''7''"
  "digit_char 8 = CHR ''8''"
  "digit_char 9 = CHR ''9''"
  by (simp_all add: digit_char_def char_of_def bit_Suc_0_iff)

lemma of_char_digit_char: "d < 10 \<Longrightarrow> (of_char (digit_char d) :: nat) = 48 + d"
  by (simp add: digit_char_def of_char_of)

lemma digit_val_digit_char [simp]: "d < 10 \<Longrightarrow> digit_val (digit_char d) = d"
  by (simp add: digit_val_def of_char_digit_char)

lemma is_digit_digit_char [simp]: "d < 10 \<Longrightarrow> is_digit (digit_char d)"
  by (simp add: is_digit_def of_char_digit_char)

lemma show_nat_digits: "list_all is_digit (show_nat n)"
proof (induction n rule: show_nat.induct)
  case (1 n)
  then show ?case by (subst show_nat.simps) auto
qed

lemma show_nat_nonempty [simp]: "show_nat n \<noteq> []"
  by (subst show_nat.simps) simp

lemma horner_snoc: "horner (s @ [c]) = 10 * horner s + digit_val c"
  by (simp add: horner_def)

lemma horner_show_nat [simp]: "horner (show_nat n) = n"
proof (induction n rule: show_nat.induct)
  case (1 n)
  show ?case
  proof (cases "n < 10")
    case True
    then show ?thesis by (subst show_nat.simps) (simp add: horner_def)
  next
    case False
    then have "horner (show_nat n) = 10 * horner (show_nat (n div 10)) + n mod 10"
      by (subst show_nat.simps) (simp add: horner_snoc)
    with 1 False show ?thesis by simp
  qed
qed

lemma ParseUint_show_nat: "n < 2 ^ bits \<Longrightarrow> ParseUint bits (show_nat n) = Some n"
  by (simp add: ParseUint_def show_nat_digits)

lemma is_digit_not_space: "is_digit c \<Longrightarrow> \<not> is_space c"
  by (auto simp: is_digit_def is_space_def)

lemma show_nat_char: "c \<in> set (show_nat n) \<Longrightarrow> is_digit c"
  using show_nat_digits [of n] by (simp add: list_all_iff)

lemma TrimSpace_show_nat [simp]: "TrimSpace (show_nat n) = show_nat n"
  by (rule TrimSpace_id) (auto dest: show_nat_char is_digit_not_space)

lemma Atoi_show_nat: "n < 2 ^ 63 \<Longrightarrow> Atoi (show_nat n) = Some (int n)"
proof -
  assume n: "n < 2 ^ 63"
  obtain c s where s: "show_nat n = c # s" by (cases "show_nat n") auto
  then have "is_digit c" using show_nat_char [of c n] by simp
  then have "c \<noteq> CHR ''-''" and "c \<noteq> CHR ''+''" by (auto simp: is_digit_def)
  with s have "\<not> HasPrefix (show_nat n) ''-''" and "\<not> HasPrefix (show_nat n) ''+''"
    by (simp_all add: HasPrefix_def)
  moreover have "int n < 2 ^ 63" using n by simp
  ultimately show ?thesis by (simp add: Atoi_def show_nat_digits)
qed

section \<open>Splitting and joining\<close>

lemma fields_go_word:
  "(\<forall>c \<in> set w. \<not> f c) \<Longrightarrow> fields_go f cur (w @ s) = fields_go f (cur @ w) s"
  by (induction w arbitrary: cur) auto

lemma FieldsFunc_Join:
  assumes "\<forall>w \<in> set ws. w \<noteq> [] \<and> (\<forall>c \<in> set w. \<not> f c)" and "f sep"
  shows "FieldsFunc f (Join ws [sep]) = ws"
  using assms
proof (induction ws "[sep]" rule: Join.induct)
  case (2 w)
  then show ?case using fields_go_word [of w f "[]" "[]"] by (simp add: FieldsFunc_def)
next
  case (3 w v ws)
  have "fields_go f [] (w @ sep # Join (v # ws) [sep]) = fields_go f w (sep # Join (v # ws) [sep])"
    using 3 fields_go_word [of w f "[]"] by simp
  with 3 show ?case by (simp add: FieldsFunc_def)
qed (simp add: FieldsFunc_def)

section \<open>Package fmt\<close>

definition hex_char :: "nat \<Rightarrow> char" where
  "hex_char d = (if d < 10 then char_of (48 + d) else char_of (87 + d))"

definition quote_char :: "char \<Rightarrow> string" where
  "quote_char c = (let n = (of_char c :: nat) in
     if n = 34 then [CHR 0x5C, CHR 0x22] else if n = 92 then [CHR 0x5C, CHR 0x5C]
     else if n = 7 then [CHR 0x5C, CHR ''a''] else if n = 8 then [CHR 0x5C, CHR ''b'']
     else if n = 12 then [CHR 0x5C, CHR ''f''] else if n = 10 then [CHR 0x5C, CHR ''n'']
     else if n = 13 then [CHR 0x5C, CHR ''r''] else if n = 9 then [CHR 0x5C, CHR ''t'']
     else if n = 11 then [CHR 0x5C, CHR ''v'']
     else if n < 32 \<or> n \<ge> 127 then [CHR 0x5C, CHR ''x'', hex_char (n div 16), hex_char (n mod 16)]
     else [c])"

definition Quote :: "string \<Rightarrow> string" where
  \<comment> \<open>\<open>%q\<close>\<close>
  "Quote s = [CHR 0x22] @ concat (map quote_char s) @ [CHR 0x22]"

definition ParseUint_err :: "string \<Rightarrow> string" where
  \<comment> \<open>the message of the \<open>*NumError\<close> that \<open>strconv.ParseUint\<close> returns\<close>
  "ParseUint_err s = ''strconv.ParseUint: parsing '' @ Quote s @ '': ''
     @ (if s \<noteq> [] \<and> list_all is_digit s then ''value out of range'' else ''invalid syntax'')"

section \<open>Hashing\<close>

definition fnv32a :: "string \<Rightarrow> 32 word" where
  \<comment> \<open>the 32-bit FNV-1a hash of \<open>hash/fnv\<close>\<close>
  "fnv32a s = foldl (\<lambda>h c. (Bit_Operations.xor h (word_of_nat (of_char c))) * 16777619) 2166136261 s"

end
