(* ===== verification/Go_Float.thy ===== *)
theory Go_Float
  imports Complex_Main Go_Strings "HOL-Library.Word"
begin

text \<open>
  Go's \<open>float64\<close>: the finite values as rationals, with every operation rounded to the
  nearest value of binary64, ties to even; the conversions to integers; and
  \<open>strconv.ParseFloat\<close>. Quantities are parsed and scaled in \<open>float64\<close>, so their rounding
  is part of what the sources compute. A conversion of a value out of the integer type's
  range is left to the implementation by the Go specification; the model takes what the
  amd64 compiler emits.
\<close>

section \<open>Rounding to binary64\<close>

definition pow2 :: "int \<Rightarrow> rat" where
  "pow2 e = (if 0 \<le> e then 2 ^ nat e else 1 / 2 ^ nat (- e))"

function bitlen :: "int \<Rightarrow> int" where
  "bitlen n = (if n \<le> 0 then 0 else 1 + bitlen (n div 2))"
  by pat_completeness auto
termination by (relation "measure nat") auto

declare bitlen.simps [simp del]

text \<open>Powers of two are the library's integer powers, and \<open>bitlen\<close> brackets a positive integer.\<close>

lemma pow2_powi: "pow2 e = 2 powi e"
  by (auto simp: pow2_def power_int_def field_simps)

lemma pow2_pos [simp]: "0 < pow2 e"
  by (simp add: pow2_powi)

lemma pow2_nonzero [simp]: "pow2 e \<noteq> 0"
  by (simp add: pow2_powi)

lemma pow2_abs [simp]: "\<bar>pow2 e\<bar> = pow2 e"
  using pow2_pos [of e] by (rule abs_of_pos)

lemma pow2_add: "pow2 (a + b) = pow2 a * pow2 b"
  by (simp add: pow2_powi power_int_add)

lemma pow2_Suc: "pow2 (1 + b) = 2 * pow2 b"
  by (simp add: pow2_add) (simp add: pow2_def)

lemma pow2_diff: "pow2 (a - b) = pow2 a / pow2 b"
  by (simp add: pow2_powi power_int_diff)

lemma pow2_less: "a < b \<Longrightarrow> pow2 a < pow2 b"
  by (simp add: pow2_powi power_int_strict_increasing)

lemma pow2_less_iff: "pow2 a < pow2 b \<longleftrightarrow> a < b"
  using pow2_less [of a b] pow2_less [of b a] by (cases a b rule: linorder_cases) auto

lemma pow2_le_iff: "pow2 a \<le> pow2 b \<longleftrightarrow> a \<le> b"
  by (simp add: pow2_less_iff flip: not_less)

lemma bitlen_nonneg: "0 \<le> bitlen n"
proof (induction n rule: bitlen.induct)
  case (1 n)
  then show ?case by (subst bitlen.simps) auto
qed

lemma bitlen_bounds: "0 < n \<Longrightarrow> pow2 (bitlen n - 1) \<le> of_int n \<and> of_int n < pow2 (bitlen n)"
proof (induction n rule: bitlen.induct)
  case (1 n)
  show ?case
  proof (cases "n = 1")
    case True
    then show ?thesis by (simp add: bitlen.simps [of 1] bitlen.simps [of 0] pow2_def)
  next
    case False
    with 1 have IH: "pow2 (bitlen (n div 2) - 1) \<le> of_int (n div 2)" "of_int (n div 2) < pow2 (bitlen (n div 2))"
      by auto
    have b: "bitlen n = 1 + bitlen (n div 2)" using 1 by (subst bitlen.simps) simp
    have "2 * (n div 2) \<le> n" "n < 2 * (n div 2 + 1)" by auto
    then have "of_int (2 * (n div 2)) \<le> (of_int n :: rat)" "of_int n < (of_int (2 * (n div 2 + 1)) :: rat)"
      by (simp_all only: of_int_le_iff of_int_less_iff)
    then have q: "2 * of_int (n div 2) \<le> (of_int n :: rat)" "of_int n < 2 * (of_int (n div 2) + 1 :: rat)"
      by simp_all
    have int: "pow2 (bitlen (n div 2)) = of_int (2 ^ nat (bitlen (n div 2)))" by (simp add: pow2_def bitlen_nonneg)
    with IH(2) have "of_int (n div 2) < (of_int (2 ^ nat (bitlen (n div 2))) :: rat)" by (simp only:)
    then have "n div 2 + 1 \<le> 2 ^ nat (bitlen (n div 2))" by (simp only: of_int_less_iff)
    then have "of_int (n div 2 + 1) \<le> (of_int (2 ^ nat (bitlen (n div 2))) :: rat)" by (simp only: of_int_le_iff)
    then have up: "of_int (n div 2) + 1 \<le> pow2 (bitlen (n div 2))" unfolding int by simp
    have "pow2 (bitlen n - 1) = 2 * pow2 (bitlen (n div 2) - 1)" using b pow2_Suc [of "bitlen (n div 2) - 1"] by simp
    moreover have "pow2 (bitlen n) = 2 * pow2 (bitlen (n div 2))" using b by (simp add: pow2_Suc)
    ultimately show ?thesis using IH(1) q up by linarith
  qed
qed

definition ilog2 :: "rat \<Rightarrow> int" where
  \<comment> \<open>the exponent of the leading bit of a positive rational\<close>
  "ilog2 q = (let (a, b) = quotient_of q; e = bitlen a - bitlen b
              in if q < pow2 e then e - 1 else e)"

definition round_even :: "rat \<Rightarrow> int" where
  "round_even m = (let f = \<lfloor>m\<rfloor>; d = m - of_int f
     in if d < 1 / 2 then f else if 1 / 2 < d then f + 1 else if even f then f else f + 1)"

definition ulp_exp :: "rat \<Rightarrow> int" where
  "ulp_exp q = max (ilog2 \<bar>q\<bar> - 52) (- 1074)"

definition fl :: "rat \<Rightarrow> rat" where
  "fl q = (if q = 0 then 0
     else let u = ulp_exp q in sgn q * of_int (round_even (\<bar>q\<bar> / pow2 u)) * pow2 u)"

datatype f64 = NaN | Inf bool | Fin rat

definition to_f64 :: "rat \<Rightarrow> f64" where
  "to_f64 q = (let r = fl q in if 2 ^ 1024 \<le> \<bar>r\<bar> then Inf (0 < r) else Fin r)"

text \<open>
  \<open>fl\<close> is the identity on the values of binary64 and moves every other rational by at
  most half a unit in the last place.
\<close>

lemma ilog2_bounds:
  assumes "0 < q"
  shows "pow2 (ilog2 q) \<le> q" and "q < pow2 (ilog2 q + 1)"
proof -
  obtain a b where ab: "quotient_of q = (a, b)" by fastforce
  then have b: "0 < b" and q: "q = of_int a / of_int b"
    by (simp_all add: quotient_of_denom_pos quotient_of_div)
  with assms have a: "0 < a" by (simp add: zero_less_divide_iff)
  let ?e = "bitlen a - bitlen b"
  note A = bitlen_bounds [OF a] and B = bitlen_bounds [OF b]
  have "pow2 (bitlen a - 1) / pow2 (bitlen b) \<le> q"
    unfolding q using A B a b by (intro frac_le) auto
  then have lo: "pow2 (?e - 1) \<le> q" by (simp add: pow2_diff mult.commute)
  have "q < pow2 (bitlen a) / pow2 (bitlen b - 1)"
    unfolding q using A B a b by (intro frac_less) auto
  then have hi: "q < pow2 (?e + 1)" by (simp add: pow2_diff pow2_add)
  show "pow2 (ilog2 q) \<le> q" "q < pow2 (ilog2 q + 1)"
    using lo hi by (auto simp: ilog2_def ab not_less Let_def)
qed

lemma round_even_of_int [simp]: "round_even (of_int n) = n"
  by (simp add: round_even_def)

lemma round_even_error: "\<bar>of_int (round_even m) - m\<bar> \<le> 1 / 2"
  using floor_correct [of m] by (auto simp: round_even_def Let_def)

lemma fl_zero [simp]: "fl 0 = 0"
  by (simp add: fl_def)

lemma fl_error:
  assumes "q \<noteq> 0"
  shows "\<bar>fl q - q\<bar> \<le> pow2 (ulp_exp q) / 2"
proof -
  let ?u = "ulp_exp q"
  let ?m = "\<bar>q\<bar> / pow2 ?u"
  have "fl q - q = sgn q * (of_int (round_even ?m) - ?m) * pow2 ?u"
    using assms by (simp add: fl_def Let_def algebra_simps abs_mult_sgn)
  then have "\<bar>fl q - q\<bar> = \<bar>of_int (round_even ?m) - ?m\<bar> * pow2 ?u"
    using assms by (simp add: abs_mult abs_sgn_eq)
  also have "\<dots> \<le> 1 / 2 * pow2 ?u"
    by (intro mult_right_mono round_even_error) (simp add: less_imp_le)
  finally show ?thesis by simp
qed

lemma fl_exact_int_multiple:
  assumes "\<bar>q\<bar> / pow2 (ulp_exp q) = of_int k"
  shows "fl q = q"
proof (cases "q = 0")
  case False
  then have "fl q = sgn q * (\<bar>q\<bar> / pow2 (ulp_exp q)) * pow2 (ulp_exp q)"
    unfolding fl_def Let_def assms by simp
  then show ?thesis by (simp add: sgn_mult_abs)
qed simp

lemma ilog2_eqI:
  assumes "pow2 l \<le> q" "q < pow2 (l + 1)"
  shows "ilog2 q = l"
proof -
  have "0 < q" using assms(1) pow2_pos [of l] by linarith
  then have "pow2 l < pow2 (ilog2 q + 1)" "pow2 (ilog2 q) < pow2 (l + 1)"
    using ilog2_bounds [of q] assms by linarith+
  then show ?thesis by (simp add: pow2_less_iff)
qed

lemma round_even_eqI: "\<bar>m - of_int k\<bar> < 1 / 2 \<Longrightarrow> round_even m = k"
proof -
  assume "\<bar>m - of_int k\<bar> < 1 / 2"
  then have "\<bar>of_int (round_even m) - of_int k\<bar> < (1 :: rat)" using round_even_error [of m] by linarith
  then have "\<bar>of_int (round_even m - k)\<bar> < (1 :: rat)" by simp
  then show ?thesis by linarith
qed

text \<open>The value of a rounding from the binade of its argument and the nearest mantissa.\<close>

lemma fl_eqI:
  assumes "pow2 l \<le> q" "q < pow2 (l + 1)" "- 1022 \<le> l"
    and "\<bar>q / pow2 (l - 52) - of_int k\<bar> < 1 / 2" and r: "r = of_int k * pow2 (l - 52)"
  shows "fl q = r"
proof -
  have q: "0 < q" using assms(1) pow2_pos [of l] by linarith
  then have "ulp_exp q = l - 52" using ilog2_eqI [OF assms(1,2)] assms(3) by (simp add: ulp_exp_def)
  then show ?thesis using q r round_even_eqI [OF assms(4)] by (simp add: fl_def)
qed

lemma pow2_nat: "0 \<le> e \<Longrightarrow> pow2 e = of_int (2 ^ nat e)"
  by (simp add: pow2_def)

lemma fl_exact:
  assumes m: "\<bar>m\<bar> \<le> 2 ^ 53" and e: "- 1074 \<le> e" and q: "q = of_int m * pow2 e"
  shows "fl q = q"
proof (cases "m = 0")
  case False
  have aq: "\<bar>q\<bar> = of_int \<bar>m\<bar> * pow2 e" by (simp add: q abs_mult)
  with False have "0 < \<bar>q\<bar>" by simp
  note L = ilog2_bounds [OF this]
  show ?thesis
  proof (cases "ulp_exp q \<le> e")
    case True
    then have "\<bar>q\<bar> / pow2 (ulp_exp q) = of_int \<bar>m\<bar> * pow2 (e - ulp_exp q)"
      by (simp add: aq pow2_diff)
    also have "\<dots> = of_int (\<bar>m\<bar> * 2 ^ nat (e - ulp_exp q))"
      using True by (simp add: pow2_nat)
    finally show ?thesis by (rule fl_exact_int_multiple)
  next
    case False
    with e have u: "ulp_exp q = ilog2 \<bar>q\<bar> - 52" and le: "e + 53 \<le> ilog2 \<bar>q\<bar>"
      by (auto simp: ulp_exp_def)
    have "(of_int \<bar>m\<bar> :: rat) \<le> of_int (2 ^ 53)" using m by (simp only: of_int_le_iff)
    then have up: "\<bar>q\<bar> \<le> pow2 (e + 53)"
      by (simp add: aq pow2_add [of e 53]) (simp add: pow2_def)
    then have "ilog2 \<bar>q\<bar> \<le> e + 53" using L(1) by (metis order_trans pow2_le_iff)
    with le have l: "ilog2 \<bar>q\<bar> = e + 53" by simp
    have "ulp_exp q = e + 1" by (simp add: u l)
    moreover have "\<bar>q\<bar> = pow2 (e + 53)" using L(1) up by (simp add: l)
    ultimately have "\<bar>q\<bar> / pow2 (ulp_exp q) = pow2 52" by (simp flip: pow2_diff)
    also have "\<dots> = of_int (2 ^ 52)" by (simp add: pow2_def)
    finally show ?thesis by (rule fl_exact_int_multiple)
  qed
qed (simp add: q)

lemma to_f64_of_int:
  assumes "\<bar>m\<bar> \<le> 2 ^ 53"
  shows "to_f64 (of_int m) = Fin (of_int m)"
proof -
  have "fl (of_int m) = of_int m"
    using fl_exact [OF assms, of 0] by (simp add: pow2_def)
  moreover have "\<bar>of_int m :: rat\<bar> < 2 ^ 1024"
  proof -
    have "\<bar>of_int m :: rat\<bar> \<le> of_int (2 ^ 53)" using assms by (simp only: of_int_le_iff flip: of_int_abs)
    also have "\<dots> < (2 :: rat) ^ 1024" by simp
    finally show ?thesis .
  qed
  ultimately show ?thesis by (simp add: to_f64_def)
qed

fun fmul :: "f64 \<Rightarrow> f64 \<Rightarrow> f64" where
  "fmul (Fin a) (Fin b) = to_f64 (a * b)"
| "fmul NaN _ = NaN"
| "fmul _ NaN = NaN"
| "fmul (Inf s) (Inf t) = Inf (s = t)"
| "fmul (Inf s) (Fin b) = (if b = 0 then NaN else Inf (s = (0 < b)))"
| "fmul (Fin a) (Inf t) = (if a = 0 then NaN else Inf ((0 < a) = t))"

fun fdiv :: "f64 \<Rightarrow> f64 \<Rightarrow> f64" where
  "fdiv (Fin a) (Fin b) = (if b = 0 then (if a = 0 then NaN else Inf (0 < a)) else to_f64 (a / b))"
| "fdiv NaN _ = NaN"
| "fdiv _ NaN = NaN"
| "fdiv (Inf s) (Inf t) = NaN"
| "fdiv (Inf s) (Fin b) = Inf (s = (0 \<le> b))"
| "fdiv (Fin a) (Inf t) = Fin 0"

fun Ceil :: "f64 \<Rightarrow> f64" where
  "Ceil (Fin q) = Fin (of_int \<lceil>q\<rceil>)"
| "Ceil x = x"

fun f_le :: "f64 \<Rightarrow> f64 \<Rightarrow> bool" where
  "f_le (Fin a) (Fin b) = (a \<le> b)"
| "f_le NaN _ = False"
| "f_le _ NaN = False"
| "f_le (Inf s) (Inf t) = (s \<longrightarrow> t)"
| "f_le (Inf s) (Fin _) = (\<not> s)"
| "f_le (Fin _) (Inf t) = t"

section \<open>Conversions to integers\<close>

definition rtrunc :: "rat \<Rightarrow> int" where
  "rtrunc q = (if 0 \<le> q then \<lfloor>q\<rfloor> else \<lceil>q\<rceil>)"

fun f2i64 :: "f64 \<Rightarrow> int" where
  "f2i64 (Fin q) = (let i = rtrunc q in if - (2 ^ 63) \<le> i \<and> i < 2 ^ 63 then i else - (2 ^ 63))"
| "f2i64 _ = - (2 ^ 63)"

definition f2u32 :: "f64 \<Rightarrow> 32 word" where
  "f2u32 x = word_of_int (f2i64 x)"

fun f2u64 :: "f64 \<Rightarrow> 64 word" where
  "f2u64 (Fin q) = (let i = rtrunc q in if - (2 ^ 63) \<le> i \<and> i < 2 ^ 64 then word_of_int i else 2 ^ 63)"
| "f2u64 _ = 2 ^ 63"

section \<open>strconv.ParseFloat\<close>

definition is_hex_digit :: "char \<Rightarrow> bool" where
  "is_hex_digit c = (is_digit c \<or> (97 \<le> (of_char (lower_char c) :: nat) \<and> (of_char (lower_char c) :: nat) \<le> 102))"

definition hex_val :: "char \<Rightarrow> nat" where
  "hex_val c = (if is_digit c then digit_val c else of_char (lower_char c) - 87)"

definition base_digit :: "nat \<Rightarrow> char \<Rightarrow> bool" where
  "base_digit b c = (if b = 16 then is_hex_digit c else is_digit c)"

fun underscores_go :: "bool \<Rightarrow> char \<Rightarrow> string \<Rightarrow> bool" where
  "underscores_go hex saw [] = (saw \<noteq> CHR ''_'')"
| "underscores_go hex saw (c # s) =
     (if is_digit c \<or> (hex \<and> is_hex_digit c) then underscores_go hex (CHR ''0'') s
      else if c = CHR ''_'' then saw = CHR ''0'' \<and> underscores_go hex (CHR ''_'') s
      else saw \<noteq> CHR ''_'' \<and> underscores_go hex (CHR ''!'') s)"

definition strip_sign :: "string \<Rightarrow> string" where
  "strip_sign s = (if HasPrefix s ''-'' \<or> HasPrefix s ''+'' then tl s else s)"

definition underscoreOK :: "string \<Rightarrow> bool" where
  "underscoreOK s = (let s = strip_sign s; p = ToLower (take 2 s)
     in if p \<in> {''0b'', ''0o'', ''0x''} then underscores_go (p = ''0x'') (CHR ''0'') (drop 2 s)
        else underscores_go False (CHR ''^'') s)"

fun read_mant :: "nat \<Rightarrow> bool \<Rightarrow> int \<Rightarrow> nat \<Rightarrow> nat \<Rightarrow> string \<Rightarrow> int \<times> nat \<times> nat \<times> string" where
  \<comment> \<open>mantissa, digits read, digits after the point, rest\<close>
  "read_mant b dot m nd fr [] = (m, nd, fr, [])"
| "read_mant b dot m nd fr (c # s) =
     (if c = CHR ''_'' then read_mant b dot m nd fr s
      else if c = CHR ''.'' then (if dot then (m, nd, fr, c # s) else read_mant b True m nd fr s)
      else if base_digit b c
        then read_mant b dot (int b * m + int (hex_val c)) (Suc nd) (if dot then Suc fr else fr) s
      else (m, nd, fr, c # s))"

definition read_exp :: "string \<Rightarrow> int option" where
  \<comment> \<open>the exponent after \<open>e\<close> or \<open>p\<close>: a sign, a digit, then digits and underscores; it saturates\<close>
  "read_exp s = (let ds = strip_sign s in
     if ds = [] \<or> \<not> is_digit (hd ds) \<or> \<not> list_all (\<lambda>c. is_digit c \<or> c = CHR ''_'') ds then None
     else let e = foldl (\<lambda>e c. if c = CHR ''_'' then e else if e < 10000 then 10 * e + int (digit_val c) else e) 0 ds
          in Some (if HasPrefix s ''-'' then - e else e))"

definition rpow :: "nat \<Rightarrow> int \<Rightarrow> rat" where
  "rpow b e = (if 0 \<le> e then of_nat b ^ nat e else 1 / of_nat b ^ nat (- e))"

definition read_float :: "string \<Rightarrow> rat option" where
  "read_float s = (let ds = strip_sign s; hex = (ToLower (take 2 ds) = ''0x'' \<and> 2 < length ds);
       b = (if hex then 16 else 10 :: nat);
       (m, nd, fr, rest) = read_mant b False 0 0 0 (if hex then drop 2 ds else ds);
       e = (case rest of [] \<Rightarrow> (if hex then None else Some 0)
              | c # r \<Rightarrow> (if lower_char c = (if hex then CHR ''p'' else CHR ''e'') then read_exp r else None))
     in if nd = 0 \<or> (CHR ''_'' \<in> set s \<and> \<not> underscoreOK s) then None
        else map_option (\<lambda>e. (if HasPrefix s ''-'' then - 1 else 1) * of_int m * rpow b (- int fr)
               * rpow (if hex then 2 else 10) e) e)"

definition ParseFloat :: "string \<Rightarrow> f64 option" where
  "ParseFloat s =
     (if ToLower s = ''nan'' then Some NaN
      else if ToLower (strip_sign s) \<in> {''inf'', ''infinity''} then Some (Inf (\<not> HasPrefix s ''-''))
      else case read_float s of None \<Rightarrow> None
           | Some q \<Rightarrow> (case to_f64 q of Fin r \<Rightarrow> Some (Fin r) | _ \<Rightarrow> None))"

text \<open>A decimal integer of at most 53 bits is read exactly.\<close>

lemma lower_char_digit: "is_digit c \<Longrightarrow> lower_char c = c"
  by (auto simp: is_digit_def lower_char_def Let_def)

lemma ToLower_digits: "list_all is_digit s \<Longrightarrow> ToLower s = s"
  by (auto simp: ToLower_def list_all_iff lower_char_digit intro: map_idI)

lemma read_mant_digits:
  "list_all is_digit s \<Longrightarrow>
   read_mant 10 False m nd 0 s = (foldl (\<lambda>n c. 10 * n + int (digit_val c)) m s, nd + length s, 0, [])"
proof (induction s arbitrary: m nd)
  case (Cons c s)
  then have "is_digit c" by simp
  then have "c \<noteq> CHR ''_''" and "c \<noteq> CHR ''.''" by (auto simp: is_digit_def)
  with Cons show ?case by (simp add: base_digit_def hex_val_def)
qed simp

lemma foldl_digits_horner: "foldl (\<lambda>n c. 10 * n + int (digit_val c)) (int m) s
    = int (foldl (\<lambda>n c. 10 * n + digit_val c) m s)"
proof (induction s arbitrary: m)
  case (Cons c s)
  show ?case using Cons.IH [of "10 * m + digit_val c"] by simp
qed simp

lemma digits_no_prefix:
  assumes "list_all is_digit s" "\<not> is_digit c"
  shows "\<not> HasPrefix s (c # p)"
  using assms by (cases s) (auto simp: HasPrefix_def)

lemma read_float_digits:
  assumes d: "list_all is_digit s" and ne: "s \<noteq> []"
  shows "read_float s = Some (of_nat (horner s))"
proof -
  have sign: "\<not> HasPrefix s ''-''" "\<not> HasPrefix s ''+''"
    by (rule digits_no_prefix [OF d], simp add: is_digit_def)+
  then have st: "strip_sign s = s" by (simp add: strip_sign_def)
  have "list_all is_digit (take 2 s)" using d by (auto simp: list_all_iff dest: in_set_takeD)
  then have "ToLower (take 2 s) = take 2 s" "take 2 s \<noteq> ''0x''" by (auto simp: ToLower_digits is_digit_def)
  then have hex: "ToLower (take 2 s) \<noteq> ''0x''" by simp
  have us: "CHR ''_'' \<notin> set s" using d by (auto simp: list_all_iff is_digit_def)
  have "foldl (\<lambda>n c. 10 * n + int (digit_val c)) 0 s = int (horner s)"
    using foldl_digits_horner [of 0 s] by (simp add: horner_def)
  then show ?thesis
    using ne sign by (simp add: read_float_def st hex us read_mant_digits [OF d] rpow_def)
qed

lemma ParseFloat_digits:
  assumes d: "list_all is_digit s" and ne: "s \<noteq> []" and b: "horner s \<le> 2 ^ 53"
  shows "ParseFloat s = Some (Fin (of_nat (horner s)))"
proof -
  have st: "strip_sign s = s"
    using digits_no_prefix [OF d, of "CHR ''-''"] digits_no_prefix [OF d, of "CHR ''+''"]
    by (simp add: strip_sign_def is_digit_def)
  have "s \<notin> {''nan'', ''inf'', ''infinity''}" using d by (auto simp: is_digit_def)
  moreover have "int (horner s) \<le> 2 ^ 53" using b by simp
  then have "to_f64 (of_nat (horner s)) = Fin (of_nat (horner s))"
    using to_f64_of_int [of "int (horner s)"] by simp
  ultimately show ?thesis
    by (simp add: ParseFloat_def st ToLower_digits [OF d] read_float_digits [OF d ne])
qed

lemma ParseFloat_show_nat: "n \<le> 2 ^ 53 \<Longrightarrow> ParseFloat (show_nat n) = Some (Fin (of_nat n))"
  by (simp add: ParseFloat_digits show_nat_digits)

text \<open>
  A quotient by a denominator \<open>d\<close> below \<open>2 ^ 19\<close> whose value is below \<open>2 ^ 32\<close> keeps its
  ceiling under rounding: the distance of a non-integral quotient to the nearest integers
  is more than the rounding error.
\<close>

lemma ceil_fl_quotient:
  fixes n d :: nat
  assumes d: "0 < d" "d < 2 ^ 19" and n: "0 < n" "n < d * 2 ^ 32"
  shows "\<lceil>fl (of_nat n / of_nat d)\<rceil> = \<lceil>of_nat n / of_nat d :: rat\<rceil>"
proof (cases "d dvd n")
  case True
  then obtain k where k: "n = d * k" ..
  with d n have "int k \<le> 2 ^ 53" by auto
  then have "fl (of_nat k) = of_nat k" using fl_exact [of "int k" 0] by (simp add: pow2_def)
  then show ?thesis using d by (simp add: k)
next
  case False
  let ?q = "of_nat n / of_nat d :: rat"
  let ?k = "int (n div d)"
  have pos: "0 < ?q" using d n by simp
  have "1 \<le> n mod d" using False by (simp add: dvd_eq_mod_eq_0 Suc_le_eq)
  moreover have "n mod d + 1 \<le> d" using mod_less_divisor [OF d(1), of n] by simp
  ultimately have "(of_nat 1 :: rat) \<le> of_nat (n mod d)" "(of_nat (n mod d + 1) :: rat) \<le> of_nat d"
    by (simp_all only: of_nat_le_iff)
  then have m: "(1 :: rat) \<le> of_nat (n mod d)" "of_nat (n mod d) + (1 :: rat) \<le> of_nat d"
    by simp_all
  have "of_nat n = (of_nat (n div d) * of_nat d + of_nat (n mod d) :: rat)"
    by (simp flip: of_nat_mult of_nat_add)
  then have q: "?q = of_int ?k + of_nat (n mod d) / of_nat d" using d by (simp add: field_simps)
  have "(of_nat d :: rat) < of_nat (2 ^ 19)" using d by (simp only: of_nat_less_iff)
  then have dd: "1 / 2 ^ 19 < (1 :: rat) / of_nat d"
    using d by (intro divide_strict_left_mono) simp_all
  have lo: "of_int ?k + 1 / of_nat d \<le> ?q" and hi: "?q \<le> of_int ?k + 1 - 1 / of_nat d"
    using divide_right_mono [OF m(1), of "of_nat d"] divide_right_mono [OF m(2), of "of_nat d"] d
    by (simp_all add: q add_divide_distrib)
  have "(of_nat n :: rat) < of_nat (d * 2 ^ 32)" using n by (simp only: of_nat_less_iff)
  then have "?q < pow2 32" using d by (simp add: pow2_def field_simps)
  with pos ilog2_bounds(1) [OF pos] have "ilog2 ?q < 32" by (metis order_le_less_trans pow2_less_iff)
  then have "ulp_exp ?q \<le> - 20" using pos by (simp add: ulp_exp_def)
  then have "pow2 (ulp_exp ?q) \<le> pow2 (- 20)" by (simp add: pow2_le_iff)
  moreover have "?q \<noteq> 0" using pos by linarith
  note fl_error [OF this]
  ultimately have "\<bar>fl ?q - ?q\<bar> \<le> pow2 (- 20) / 2" by linarith
  also have "\<dots> < 1 / 2 ^ 19" by (simp add: pow2_def)
  finally have "of_int ?k < fl ?q" "fl ?q < of_int ?k + 1" using lo hi dd by linarith+
  then have "\<lceil>fl ?q\<rceil> = ?k + 1" by linarith
  moreover have "0 < 1 / (of_nat d :: rat)" using d by simp
  then have "of_int ?k < ?q" "?q \<le> of_int ?k + 1" using lo hi by linarith+
  then have "\<lceil>?q\<rceil> = ?k + 1" by (intro ceiling_unique) simp_all
  ultimately show ?thesis by simp
qed

end
