(* ===== verification/Quantity.thy ===== *)
theory Quantity
  imports Go_Float
begin

text \<open>
  Quantities of Machine specs and node capacities: \<open>internal/model/quantity.go\<close> (CPU,
  memory, disk and storage sizes), \<open>ParseIntOrPercent\<close> of \<open>internal/model/disruption.go\<close>,
  and the CPU lists of \<open>internal/model/cpupinning.go\<close>.
\<close>

section \<open>CPU and memory\<close>

definition ParseVCPUs :: "string \<Rightarrow> 32 word res" where
  "ParseVCPUs v = (let v = TrimSpace v in
     if v = '''' then Err ''cpu quantity is empty''
     else if HasSuffix v ''m'' then
       (case ParseFloat (TrimSuffix v ''m'') of
          None \<Rightarrow> Err (''invalid cpu quantity '' @ Quote v)
        | Some milli \<Rightarrow> if f_le milli (Fin 0) then Err (''invalid cpu quantity '' @ Quote v)
                        else Ok (f2u32 (Ceil (fdiv milli (Fin 1000)))))
     else (case ParseFloat v of
          None \<Rightarrow> Err (''invalid cpu quantity '' @ Quote v)
        | Some n \<Rightarrow> if f_le n (Fin 0) then Err (''invalid cpu quantity '' @ Quote v)
                    else Ok (f2u32 (Ceil n))))"

definition byte_units :: "(string \<times> rat) list" where
  "byte_units = [(''Ti'', 2 ^ 40), (''Gi'', 2 ^ 30), (''Mi'', 2 ^ 20), (''Ki'', 2 ^ 10),
     (''T'', 10 ^ 12), (''G'', 10 ^ 9), (''M'', 10 ^ 6), (''K'', 10 ^ 3), (''k'', 10 ^ 3)]"

fun find_unit :: "(string \<times> rat) list \<Rightarrow> string \<Rightarrow> (string \<times> rat) option" where
  "find_unit [] v = None"
| "find_unit ((suf, b) # us) v = (if HasSuffix v suf then Some (suf, b) else find_unit us v)"

definition ParseBytes :: "string \<Rightarrow> int res" where
  "ParseBytes v = (let v = TrimSpace v in
     if v = '''' then Err ''size quantity is empty''
     else let (num, mult) = (case find_unit byte_units v of
                None \<Rightarrow> (v, 1) | Some (suf, b) \<Rightarrow> (TrimSpace (TrimSuffix v suf), b))
          in case ParseFloat num of
               None \<Rightarrow> Err (''invalid size quantity '' @ Quote v)
             | Some n \<Rightarrow>
                 if f_le n (Fin 0) \<or> f_le (Fin (2 ^ 63)) (fmul n (Fin mult))
                 then Err (''invalid size quantity '' @ Quote v)
                 else Ok (f2i64 (Ceil (fmul n (Fin mult)))))"

definition memory_units :: "(string \<times> rat) list" where
  "memory_units = [(''Ti'', 1024 * 1024 * 1024 * 1024), (''Gi'', 1024 * 1024 * 1024),
     (''Mi'', 1024 * 1024), (''Ki'', 1024), (''T'', 1000 * 1000 * 1000 * 1000),
     (''G'', 1000 * 1000 * 1000), (''M'', 1000 * 1000), (''K'', 1000)]"

definition ParseMemoryMiB :: "string \<Rightarrow> 64 word res" where
  "ParseMemoryMiB v = (let v = TrimSpace v in
     if v = '''' then Err ''memory quantity is empty''
     else case find_unit memory_units v of
       Some (suf, b) \<Rightarrow>
         (case ParseFloat (TrimSpace (TrimSuffix v suf)) of
            None \<Rightarrow> Err (''invalid memory quantity '' @ Quote v)
          | Some n \<Rightarrow> if f_le n (Fin 0) then Err (''invalid memory quantity '' @ Quote v)
                      else Ok (f2u64 (Ceil (fdiv (fmul n (Fin b)) (Fin (1024 * 1024))))))
     | None \<Rightarrow>
         (case ParseFloat v of
            None \<Rightarrow> Err (''invalid memory quantity '' @ Quote v)
          | Some bytes \<Rightarrow> if f_le bytes (Fin 0) then Err (''invalid memory quantity '' @ Quote v)
                          else Ok (f2u64 (Ceil (fdiv bytes (Fin (1024 * 1024)))))))"

definition ParseDiskSizeGiB :: "string \<Rightarrow> 64 word res" where
  "ParseDiskSizeGiB v = (case ParseMemoryMiB v of
     Inl _ \<Rightarrow> Err (''invalid disk size '' @ Quote (TrimSpace v))
   | Inr mib \<Rightarrow> Ok ((mib + 1023) div 1024))"

definition ParseIntOrPercent :: "string \<Rightarrow> int \<Rightarrow> int res" where
  "ParseIntOrPercent v tot = (let v = TrimSpace v in
     if v = '''' then Err ''value is empty''
     else case CutSuffix v ''%'' of
       Some digits \<Rightarrow>
         (case Atoi digits of
            None \<Rightarrow> Err (''invalid percentage '' @ Quote v)
          | Some pct \<Rightarrow>
              if pct < 0 \<or> 100 < pct then Err (''invalid percentage '' @ Quote v)
              else Ok (f2i64 (Ceil (fmul (fdiv (Fin (of_int pct)) (Fin 100)) (to_f64 (of_int tot))))))
     | None \<Rightarrow>
         (case Atoi v of
            None \<Rightarrow> Err (''invalid integer '' @ Quote v)
          | Some n \<Rightarrow> if n < 0 then Err (''invalid integer '' @ Quote v) else Ok n))"

section \<open>CPU lists\<close>

definition list_sep :: "char \<Rightarrow> bool" where
  "list_sep r = (r = CHR '','' \<or> r = CHR ''_'')"

definition cpu_part :: "string \<Rightarrow> nat list res" where
  \<comment> \<open>the CPUs one entry of the list adds to \<open>seen\<close>\<close>
  "cpu_part part0 = (let part = TrimSpace part0 in
     if part = '''' then Ok []
     else case Cut part (CHR ''-'') of
       Some (lo, hi) \<Rightarrow>
         (case ParseUint 32 lo of
            None \<Rightarrow> Err (''invalid CPU range '' @ Quote part @ '': '' @ ParseUint_err lo)
          | Some start \<Rightarrow>
              (case ParseUint 32 hi of
                 None \<Rightarrow> Err (''invalid CPU range '' @ Quote part @ '': '' @ ParseUint_err hi)
               | Some stop \<Rightarrow>
                   if stop < start then Err (''invalid CPU range '' @ Quote part @ '': end before start'')
                   else Ok [start..<Suc stop]))
     | None \<Rightarrow>
         (case ParseUint 32 part of
            None \<Rightarrow> Err (''invalid CPU number '' @ Quote part @ '': '' @ ParseUint_err part)
          | Some v \<Rightarrow> Ok [v]))"

fun cpu_parts :: "string list \<Rightarrow> nat list \<Rightarrow> nat list res" where
  "cpu_parts [] seen = Ok seen"
| "cpu_parts (p # ps) seen =
     (case cpu_part p of Inl e \<Rightarrow> Err e | Inr vs \<Rightarrow> cpu_parts ps (seen @ vs))"

definition ParseCPUList :: "string \<Rightarrow> nat list res" where
  "ParseCPUList raw0 = (let raw = TrimSpace raw0 in
     if raw = '''' then Ok []
     else case cpu_parts (FieldsFunc list_sep raw) [] of
       Inl e \<Rightarrow> Err e
     | Inr seen \<Rightarrow> Ok (sort (remdups seen)))"

definition range_str :: "nat \<Rightarrow> nat \<Rightarrow> string" where
  \<comment> \<open>what \<open>flush\<close> appends\<close>
  "range_str start prev = (if start = prev then show_nat start else show_nat start @ ''-'' @ show_nat prev)"

fun cpu_ranges :: "nat \<Rightarrow> nat \<Rightarrow> nat list \<Rightarrow> string list" where
  "cpu_ranges start prev [] = [range_str start prev]"
| "cpu_ranges start prev (cpu # cpus) =
     (if cpu = prev + 1 then cpu_ranges start cpu cpus
      else range_str start prev # cpu_ranges cpu cpu cpus)"

definition FormatCPULabel :: "nat list \<Rightarrow> string res" where
  "FormatCPULabel cpus = (case cpus of [] \<Rightarrow> Ok ''''
     | c # cs \<Rightarrow> let out = Join (cpu_ranges c c cs) ''_''
                 in if 63 < length out
                    then Err (''cpu list '' @ Quote out @ '' exceeds the 63-character label limit'')
                    else Ok out)"

lemma ParseCPUList_sorted: "ParseCPUList s = Ok cpus \<Longrightarrow> sorted_wrt (<) cpus"
  by (auto simp: ParseCPUList_def Let_def strict_sorted_iff split: if_splits sum.splits)

text \<open>An entry of the label reads back as the range it was printed from.\<close>

lemma range_str_ok:
  "range_str a b \<noteq> []" "c \<in> set (range_str a b) \<Longrightarrow> is_digit c \<or> c = CHR ''-''"
  by (auto simp: range_str_def dest: show_nat_char split: if_splits)

lemma range_str_trim: "TrimSpace (range_str a b) = range_str a b"
  by (rule TrimSpace_id) (auto dest!: range_str_ok(2) is_digit_not_space simp: is_space_def)

lemma show_nat_no_dash: "CHR ''-'' \<notin> set (show_nat n)"
  by (auto dest: show_nat_char simp: is_digit_def)

lemma cpu_part_range_str:
  assumes "a \<le> b" "b < 2 ^ 32"
  shows "cpu_part (range_str a b) = Ok [a..<Suc b]"
proof (cases "a = b")
  case True
  with assms show ?thesis
    by (simp add: cpu_part_def range_str_def Cut_none show_nat_no_dash ParseUint_show_nat)
next
  case False
  then have "Cut (range_str a b) (CHR ''-'') = Some (show_nat a, show_nat b)"
    by (simp add: range_str_def Cut_append show_nat_no_dash)
  moreover have "TrimSpace (range_str a b) = range_str a b" "range_str a b \<noteq> []"
    by (simp_all add: range_str_trim range_str_ok)
  ultimately show ?thesis
    using assms by (simp add: cpu_part_def ParseUint_show_nat)
qed

lemma cpu_ranges_parse:
  assumes "a \<le> b" "sorted_wrt (<) (b # cpus)" "\<forall>c \<in> set (b # cpus). c < 2 ^ 32"
  shows "cpu_parts (cpu_ranges a b cpus) seen = Ok (seen @ [a..<b] @ b # cpus)"
  using assms
proof (induction a b cpus arbitrary: seen rule: cpu_ranges.induct)
  case (1 a b)
  then show ?case by (simp add: cpu_part_range_str)
next
  case (2 a b c cpus)
  show ?case
  proof (cases "c = b + 1")
    case True
    with 2 have "cpu_parts (cpu_ranges a c cpus) seen = Ok (seen @ [a..<c] @ c # cpus)" by auto
    with True 2 show ?thesis by simp
  next
    case False
    with 2 have "cpu_parts (cpu_ranges c c cpus) (seen @ [a..<Suc b]) = Ok ((seen @ [a..<Suc b]) @ [c..<c] @ c # cpus)"
      by auto
    with False 2 show ?thesis by (simp add: cpu_part_range_str)
  qed
qed

lemma cpu_ranges_words:
  "w \<in> set (cpu_ranges a b cpus) \<Longrightarrow> w \<noteq> [] \<and> (\<forall>c \<in> set w. is_digit c \<or> c = CHR ''-'')"
  by (induction a b cpus rule: cpu_ranges.induct)
     (auto dest: range_str_ok(2) simp: range_str_ok(1) split: if_splits)

lemma cpu_ranges_nonempty: "cpu_ranges a b cpus \<noteq> []"
  by (induction a b cpus rule: cpu_ranges.induct) auto

lemma Join_set: "c \<in> set (Join ws sep) \<Longrightarrow> c \<in> set sep \<or> (\<exists>w \<in> set ws. c \<in> set w)"
  by (induction ws sep rule: Join.induct) auto

lemma Join_nonempty: "ws \<noteq> [] \<Longrightarrow> \<forall>w \<in> set ws. w \<noteq> [] \<Longrightarrow> Join ws sep \<noteq> []"
  by (induction ws sep rule: Join.induct) auto

lemma FormatCPULabel_parse:
  assumes s: "sorted_wrt (<) cpus" and b: "\<forall>c \<in> set cpus. c < 2 ^ 32" and f: "FormatCPULabel cpus = Ok out"
  shows "ParseCPUList out = Ok cpus"
proof (cases cpus)
  case Nil
  with f show ?thesis by (simp add: FormatCPULabel_def ParseCPUList_def TrimSpace_def)
next
  case (Cons c cs)
  let ?ws = "cpu_ranges c c cs"
  have out: "out = Join ?ws ''_''" using f Cons by (simp add: FormatCPULabel_def Let_def split: if_splits)
  have w: "\<forall>w \<in> set ?ws. w \<noteq> [] \<and> (\<forall>x \<in> set w. \<not> list_sep x)"
    using cpu_ranges_words [of _ c c cs] by (fastforce simp: list_sep_def is_digit_def)
  have "?ws \<noteq> []" by (rule cpu_ranges_nonempty)
  with w have "out \<noteq> []" unfolding out by (intro Join_nonempty) auto
  moreover have "TrimSpace out = out" unfolding out
    using cpu_ranges_words [of _ c c cs]
    by (intro TrimSpace_id) (fastforce dest!: Join_set simp: is_space_def is_digit_def)
  moreover have "FieldsFunc list_sep out = ?ws" unfolding out
    by (rule FieldsFunc_Join [OF w]) (simp add: list_sep_def)
  moreover have "cpu_parts ?ws [] = Ok cpus" using cpu_ranges_parse [of c c cs "[]"] s b Cons by simp
  moreover have "sort (remdups cpus) = cpus"
    using s by (simp add: strict_sorted_iff sorted_sort_id distinct_remdups_id)
  ultimately show ?thesis by (simp add: ParseCPUList_def)
qed

section \<open>What the quantities parse to\<close>

lemma to_f64_scaled:
  assumes m: "m \<le> 2 ^ 53" and e: "e \<le> 64"
  shows "to_f64 (of_nat m * 2 ^ e) = Fin (of_nat m * 2 ^ e)"
proof -
  have "\<bar>int m\<bar> \<le> 2 ^ 53" using m by simp
  then have "fl (of_nat m * 2 ^ e) = of_nat m * 2 ^ e"
    using fl_exact [of "int m" "int e"] by (simp add: pow2_def)
  moreover have "m * 2 ^ e \<le> 2 ^ 53 * 2 ^ 64" using m e by (intro mult_mono power_increasing) simp_all
  then have "(of_nat (m * 2 ^ e) :: rat) \<le> of_nat (2 ^ 53 * 2 ^ 64)" by (simp only: of_nat_le_iff)
  then have "of_nat m * 2 ^ e < (2 ^ 1024 :: rat)" by simp
  ultimately show ?thesis by (simp add: to_f64_def)
qed

lemma to_f64_milli:
  assumes "0 < n" "n < 1000 * 2 ^ 32"
  shows "\<exists>r. to_f64 (of_nat n / 1000) = Fin r \<and> \<lceil>r\<rceil> = int ((n + 999) div 1000)"
proof -
  let ?q = "of_nat n / 1000 :: rat"
  have up: "\<lceil>?q\<rceil> = int ((n + 999) div 1000)"
  proof (rule ceiling_unique)
    have "n + 999 < 1000 * ((n + 999) div 1000 + 1)" "1000 * ((n + 999) div 1000) \<le> n + 999" by auto
    then have "n \<le> 1000 * ((n + 999) div 1000)" "1000 * ((n + 999) div 1000) < n + 1000" by linarith+
    then have "(of_nat n :: rat) \<le> of_nat (1000 * ((n + 999) div 1000))"
      "(of_nat (1000 * ((n + 999) div 1000)) :: rat) < of_nat (n + 1000)"
      by (simp_all only: of_nat_le_iff of_nat_less_iff)
    then show "?q \<le> of_int (int ((n + 999) div 1000))" "of_int (int ((n + 999) div 1000)) - 1 < ?q"
      by simp_all
  qed
  have c: "\<lceil>fl ?q\<rceil> = \<lceil>?q\<rceil>" using ceil_fl_quotient [of 1000 n] assms by simp
  have "(n + 999) div 1000 \<le> 2 ^ 32" using assms by simp
  then have "int ((n + 999) div 1000) \<le> int (2 ^ 32)" by (simp only: of_nat_le_iff)
  then have "int ((n + 999) div 1000) \<le> 2 ^ 32" by simp
  moreover have "0 < int ((n + 999) div 1000)" using assms by simp
  ultimately have "fl ?q \<le> of_int (2 ^ 32)" "0 < fl ?q" using c up by linarith+
  then have "\<bar>fl ?q\<bar> < 2 ^ 1024" by (simp add: abs_of_pos)
  then have "to_f64 ?q = Fin (fl ?q)" by (simp add: to_f64_def)
  with c up show ?thesis by auto
qed

lemma show_nat_suffix_trim: "\<not> is_space c \<Longrightarrow> TrimSpace (show_nat n @ [c]) = show_nat n @ [c]"
  "\<not> is_space c \<Longrightarrow> \<not> is_space d \<Longrightarrow> TrimSpace (show_nat n @ [c, d]) = show_nat n @ [c, d]"
  by (rule TrimSpace_id; auto dest: show_nat_char is_digit_not_space)+

lemma show_nat_no_suffix: "\<not> is_digit c \<Longrightarrow> \<not> HasSuffix (show_nat n) [c]"
  using show_nat_char [of "last (show_nat n)" n] by (auto simp: HasSuffix_last)

lemma ParseVCPUs_units:
  assumes "0 < n" "n < 2 ^ 32"
  shows "ParseVCPUs (show_nat n) = Ok (of_nat n)"
    and "ParseVCPUs (show_nat n @ ''m'') = Ok (of_nat ((n + 999) div 1000))"
proof -
  have p: "ParseFloat (show_nat n) = Some (Fin (of_nat n))" using assms by (simp add: ParseFloat_show_nat)
  have i: "int n < 2 ^ 63" using assms by simp
  have m: "\<not> HasSuffix (show_nat n) ''m''" by (rule show_nat_no_suffix) (simp add: is_digit_def)
  have c: "\<lceil>of_nat n :: rat\<rceil> = int n" by (metis ceiling_of_int of_int_of_nat_eq)
  show "ParseVCPUs (show_nat n) = Ok (of_nat n)"
    using assms i by (simp add: ParseVCPUs_def p m f2u32_def rtrunc_def c)
  obtain r where r: "to_f64 (of_nat n / 1000) = Fin r" "\<lceil>r\<rceil> = int ((n + 999) div 1000)"
    using to_f64_milli [of n] assms by auto
  have "int ((n + 999) div 1000) < 2 ^ 63" using i by simp
  moreover have "TrimSpace (show_nat n @ ''m'') = show_nat n @ ''m''"
    by (rule show_nat_suffix_trim) (simp add: is_space_def)
  ultimately show "ParseVCPUs (show_nat n @ ''m'') = Ok (of_nat ((n + 999) div 1000))"
    using assms by (simp add: ParseVCPUs_def p r f2u32_def rtrunc_def)
qed

lemma mib_units:
  assumes "0 < n" "n < 2 ^ 32" and e: "e \<in> {20, 30, 40}"
  shows "f2u64 (Ceil (fdiv (fmul (Fin (of_nat n)) (Fin (2 ^ e))) (Fin (1024 * 1024)))) = of_nat (n * 2 ^ (e - 20))"
proof -
  have "fmul (Fin (of_nat n)) (Fin (2 ^ e)) = Fin (of_nat n * 2 ^ e)"
    using assms to_f64_scaled [of n e] by auto
  moreover have "of_nat n * 2 ^ e / (1024 * 1024) = (of_nat n * 2 ^ (e - 20) :: rat)" using e by auto
  moreover have "to_f64 (of_nat n * 2 ^ (e - 20)) = Fin (of_nat n * 2 ^ (e - 20))"
    using assms to_f64_scaled [of n "e - 20"] by auto
  moreover have "of_nat n * 2 ^ (e - 20) = (of_int (int (n * 2 ^ (e - 20))) :: rat)" by simp
  moreover have "int (n * 2 ^ (e - 20)) < 2 ^ 64"
  proof -
    have "n * 2 ^ (e - 20) \<le> 2 ^ 32 * 2 ^ 20" using assms by (intro mult_mono power_increasing) auto
    then have "int (n * 2 ^ (e - 20)) \<le> int (2 ^ 32 * 2 ^ 20)" by (simp only: of_nat_le_iff)
    then show ?thesis by simp
  qed
  moreover have "(word_of_int (int k) :: 64 word) = of_nat k" for k by simp
  ultimately show ?thesis by (simp add: rtrunc_def del: of_int_of_nat_eq of_nat_mult of_nat_power)
qed

lemma ParseMemoryMiB_units:
  assumes "0 < n" "n < 2 ^ 32"
  shows "ParseMemoryMiB (show_nat n @ ''Mi'') = Ok (of_nat n)"
    and "ParseMemoryMiB (show_nat n @ ''Gi'') = Ok (of_nat (n * 1024))"
    and "ParseMemoryMiB (show_nat n @ ''Ti'') = Ok (of_nat (n * 1024 * 1024))"
proof -
  have p: "ParseFloat (show_nat n) = Some (Fin (of_nat n))" using assms by (simp add: ParseFloat_show_nat)
  note u = mib_units [OF assms, of 20] mib_units [OF assms, of 30] mib_units [OF assms, of 40]
  have t: "TrimSpace (show_nat n @ [c, CHR ''i'']) = show_nat n @ [c, CHR ''i'']" if "\<not> is_space c" for c
    using that by (rule show_nat_suffix_trim) (simp add: is_space_def)
  have f: "find_unit memory_units (show_nat n @ ''Mi'') = Some (''Mi'', 2 ^ 20)"
    "find_unit memory_units (show_nat n @ ''Gi'') = Some (''Gi'', 2 ^ 30)"
    "find_unit memory_units (show_nat n @ ''Ti'') = Some (''Ti'', 2 ^ 40)"
    by (simp_all add: memory_units_def HasSuffix_def)
  show "ParseMemoryMiB (show_nat n @ ''Mi'') = Ok (of_nat n)"
    "ParseMemoryMiB (show_nat n @ ''Gi'') = Ok (of_nat (n * 1024))"
    "ParseMemoryMiB (show_nat n @ ''Ti'') = Ok (of_nat (n * 1024 * 1024))"
    using assms u by (simp_all add: ParseMemoryMiB_def t f p is_space_def del: fmul.simps fdiv.simps)
qed

section \<open>Percentages\<close>

lemma fl_near:
  assumes "\<bar>q\<bar> < pow2 k" "- 1021 \<le> k"
  shows "\<bar>fl q - q\<bar> \<le> pow2 (k - 54)"
proof (cases "q = 0")
  case False
  then have "0 < \<bar>q\<bar>" by simp
  from ilog2_bounds(1) [OF this] assms(1) have "ilog2 \<bar>q\<bar> < k" by (metis order_le_less_trans pow2_less_iff)
  with assms(2) have "ulp_exp q \<le> k - 53" by (simp add: ulp_exp_def)
  then have "pow2 (ulp_exp q) \<le> pow2 (k - 53)" by (simp add: pow2_le_iff)
  moreover have "pow2 (k - 53) = 2 * pow2 (k - 54)" using pow2_Suc [of "k - 54"] by simp
  ultimately show ?thesis using fl_error [OF False] by linarith
qed (simp add: less_imp_le)

text \<open>
  The two roundings of \<open>float64(pct) / 100 * float64(total)\<close> move the exact product by less
  than a hundredth, so its ceiling is that of the exact product, or one more when the
  exact product is an integer.
\<close>

lemma percent_product_near:
  fixes p t :: nat
  assumes p: "p \<le> 100" and t: "t < 2 ^ 31"
  shows "\<bar>fl (fl (of_nat p / 100) * of_nat t) - of_nat (p * t) / 100\<bar> < 1 / 100"
proof -
  let ?x = "fl (of_nat p / 100)"
  have "(of_nat p :: rat) \<le> of_nat 100" using p by (simp only: of_nat_le_iff)
  then have p1: "of_nat p / 100 \<le> (1 :: rat)" "0 \<le> (of_nat p / 100 :: rat)" by simp_all
  then have "\<bar>of_nat p / 100\<bar> < pow2 1" by (simp add: pow2_def)
  from fl_near [OF this] have x: "\<bar>?x - of_nat p / 100\<bar> \<le> pow2 (- 53)" by simp
  have "(of_nat t :: rat) < of_nat (2 ^ 31)" using t by (simp only: of_nat_less_iff)
  then have t1: "0 \<le> (of_nat t :: rat)" "of_nat t < (2 ^ 31 :: rat)" by simp_all
  have e1: "\<bar>?x * of_nat t - of_nat (p * t) / 100\<bar> \<le> pow2 (- 53) * 2 ^ 31"
  proof -
    have "?x * of_nat t - of_nat (p * t) / 100 = (?x - of_nat p / 100) * of_nat t"
      by (simp add: algebra_simps)
    moreover have "\<bar>(?x - of_nat p / 100) * of_nat t\<bar> \<le> pow2 (- 53) * 2 ^ 31"
      using x t1 unfolding abs_mult by (intro mult_mono) (auto simp: less_imp_le)
    ultimately show ?thesis by (simp only:)
  qed
  have "of_nat (p * t) / 100 \<le> (of_nat t :: rat)"
    using mult_right_mono [OF p1(1) t1(1)] by simp
  moreover have "(0 :: rat) \<le> of_nat (p * t) / 100" by simp
  moreover have "pow2 (- 53) * 2 ^ 31 \<le> 1" by (simp add: pow2_def)
  ultimately have "\<bar>?x * of_nat t\<bar> < 2 ^ 31 + 1" using e1 t1 by linarith
  then have "\<bar>?x * of_nat t\<bar> < pow2 32" by (simp add: pow2_def)
  from fl_near [OF this] have e2: "\<bar>fl (?x * of_nat t) - ?x * of_nat t\<bar> \<le> pow2 (- 22)" by simp
  have "pow2 (- 53) * 2 ^ 31 + pow2 (- 22) < 1 / 100" by (simp add: pow2_def)
  with e1 e2 show ?thesis by linarith
qed

lemma ceil_near_hundredths:
  fixes n :: nat and y :: rat
  assumes y: "\<bar>y - of_nat n / 100\<bar> < 1 / 100"
  shows "\<lceil>y\<rceil> = int ((n + 99) div 100) \<or> (100 dvd n \<and> \<lceil>y\<rceil> = int ((n + 99) div 100) + 1)"
proof -
  have "of_nat n = (of_nat (100 * (n div 100) + n mod 100) :: rat)" by simp
  then have n: "of_nat n = (100 * of_nat (n div 100) + of_nat (n mod 100) :: rat)" by (simp only: of_nat_add of_nat_mult of_nat_numeral)
  show ?thesis
  proof (cases "n mod 100 = 0")
    case True
    then have c: "(n + 99) div 100 = n div 100" and d: "100 dvd n" by auto
    have "of_nat n / 100 = (of_int (int (n div 100)) :: rat)" using n True by simp
    then have lo: "of_int (int (n div 100)) - 1 < y" and hi: "y < of_int (int (n div 100)) + 1"
      using y by linarith+
    show ?thesis
    proof (cases "y \<le> of_int (int (n div 100))")
      case True
      with lo c have "\<lceil>y\<rceil> = int ((n + 99) div 100)" by (intro ceiling_unique) simp_all
      then show ?thesis ..
    next
      case False
      with hi c have "\<lceil>y\<rceil> = int ((n + 99) div 100) + 1" by (intro ceiling_unique) simp_all
      with d show ?thesis by blast
    qed
  next
    case False
    have r: "1 \<le> n mod 100" "n mod 100 \<le> 99" using False by auto
    have "(100 * k + m + 99) div 100 = k + 1" if "1 \<le> m" "m \<le> 99" for k m :: nat
      using that by (intro div_nat_eqI) simp_all
    from this [OF r, of "n div 100"] have c: "(n + 99) div 100 = n div 100 + 1" by simp
    from r have "(of_nat 1 :: rat) \<le> of_nat (n mod 100)" "(of_nat (n mod 100) :: rat) \<le> of_nat 99"
      by (simp_all only: of_nat_le_iff)
    then have "of_int (int (n div 100)) < y" "y \<le> of_int (int (n div 100)) + 1"
      using y n unfolding of_int_of_nat_eq by linarith+
    with c have "\<lceil>y\<rceil> = int ((n + 99) div 100)" by (intro ceiling_unique) simp_all
    then show ?thesis ..
  qed
qed

definition ceil_percent :: "nat \<Rightarrow> nat \<Rightarrow> int" where
  \<comment> \<open>the exact ceiling of \<open>p\<close> percent of \<open>t\<close>\<close>
  "ceil_percent p t = int ((p * t + 99) div 100)"

lemma small_finite: "\<bar>x\<bar> \<le> (1099511627776 :: rat) \<Longrightarrow> \<bar>x\<bar> < 2 ^ 1024"
  by (erule order_le_less_trans) simp

lemma f2i64_int: "0 \<le> k \<Longrightarrow> k < 2 ^ 63 \<Longrightarrow> f2i64 (Fin (of_int k)) = k"
  by (simp add: rtrunc_def)

lemma percent_f64:
  assumes p: "p \<le> 100" and t: "t < 2 ^ 31"
  shows "\<exists>y. fmul (fdiv (Fin (of_nat p)) (Fin 100)) (to_f64 (of_nat t)) = Fin y
            \<and> \<bar>y - of_nat (p * t) / 100\<bar> < 1 / 100"
proof -
  have "(of_nat p :: rat) \<le> of_nat 100" using p by (simp only: of_nat_le_iff)
  then have "\<bar>of_nat p / 100\<bar> < pow2 1" by (simp add: pow2_def)
  from fl_near [OF this] have "\<bar>fl (of_nat p / 100) - of_nat p / 100\<bar> \<le> 1" by (simp add: pow2_def)
  moreover have "\<bar>of_nat p / 100 :: rat\<bar> \<le> 1" using \<open>of_nat p \<le> of_nat 100\<close> by simp
  ultimately have "\<bar>fl (of_nat p / 100)\<bar> < 2 ^ 1024" by (intro small_finite) linarith
  then have f1: "to_f64 (of_nat p / 100) = Fin (fl (of_nat p / 100))" by (simp add: to_f64_def)
  have f2: "to_f64 (of_nat t) = Fin (of_nat t)" using to_f64_scaled [of t 0] t by simp
  note near = percent_product_near [OF p t]
  have "(of_nat (p * t) :: rat) \<le> of_nat (100 * 2 ^ 31)"
    using p t by (intro of_nat_mono mult_mono) simp_all
  then have "(of_nat (p * t) / 100 :: rat) \<le> 2147483648" by simp
  moreover have "(0 :: rat) \<le> of_nat (p * t) / 100" by simp
  ultimately have "\<bar>fl (fl (of_nat p / 100) * of_nat t)\<bar> < 2 ^ 1024"
    using near by (intro small_finite) linarith
  then have f3: "to_f64 (fl (of_nat p / 100) * of_nat t) = Fin (fl (fl (of_nat p / 100) * of_nat t))"
    by (simp add: to_f64_def)
  show ?thesis using near by (auto simp: f1 f2 f3)
qed

lemma parse_one: "ParseIntOrPercent ''1'' t = Ok 1"
proof -
  have "TrimSpace ''1'' = ''1''" "CutSuffix ''1'' ''%'' = None" "Atoi ''1'' = Some 1" by code_simp+
  then show ?thesis by (simp add: ParseIntOrPercent_def)
qed

lemma ParseIntOrPercent_percent:
  assumes p: "p \<le> 100" and t: "t < 2 ^ 31"
  shows "ParseIntOrPercent (show_nat p @ ''%'') (int t) = Ok (ceil_percent p t)
       \<or> (100 dvd p * t \<and> ParseIntOrPercent (show_nat p @ ''%'') (int t) = Ok (ceil_percent p t + 1))"
proof -
  obtain y where y: "fmul (fdiv (Fin (of_nat p)) (Fin 100)) (to_f64 (of_nat t)) = Fin y"
    "\<bar>y - of_nat (p * t) / 100\<bar> < 1 / 100" using percent_f64 [OF p t] by blast
  have tr: "TrimSpace (show_nat p @ ''%'') = show_nat p @ ''%''"
    by (rule show_nat_suffix_trim) (simp add: is_space_def)
  have c: "\<lceil>y\<rceil> = ceil_percent p t \<or> (100 dvd p * t \<and> \<lceil>y\<rceil> = ceil_percent p t + 1)"
    using ceil_near_hundredths [OF y(2)] by (simp add: ceil_percent_def)
  have "(p * t + 99) div 100 \<le> 2 ^ 31"
  proof -
    have "p * t \<le> 100 * (2 ^ 31 - 1)" using p t by (intro mult_mono) auto
    then show ?thesis by simp
  qed
  then have "int ((p * t + 99) div 100) \<le> int (2 ^ 31)" by (simp only: of_nat_le_iff)
  then have "int ((p * t + 99) div 100) \<le> 2147483648" by simp
  with c have b: "0 \<le> \<lceil>y\<rceil>" "\<lceil>y\<rceil> \<le> 2147483649" unfolding ceil_percent_def by linarith+
  from b(2) have "\<lceil>y\<rceil> < 2 ^ 63" by (rule order_le_less_trans) simp
  with b(1) have "f2i64 (Ceil (Fin y)) = \<lceil>y\<rceil>" unfolding Ceil.simps by (rule f2i64_int)
  moreover have "Atoi (show_nat p) = Some (int p)" using p by (simp add: Atoi_show_nat)
  ultimately have "ParseIntOrPercent (show_nat p @ ''%'') (int t) = Ok \<lceil>y\<rceil>"
    using p y(1) by (simp add: ParseIntOrPercent_def tr del: fmul.simps fdiv.simps f2i64.simps Ceil.simps)
  with c show ?thesis by auto
qed

lemma seven_percent: "ParseIntOrPercent ''7%'' 100 = Ok 8"
proof -
  let ?x = "5044031582654956 / 2 ^ 56 :: rat" and ?y = "7881299347898369 / 2 ^ 50 :: rat"
  have x: "fl (7 / 100) = ?x"
    by (rule fl_eqI [where l = "- 4" and k = 5044031582654956]) (simp_all add: pow2_def)
  have y: "fl (?x * 100) = ?y"
    by (rule fl_eqI [where l = 2 and k = 7881299347898369]) (simp_all add: pow2_def)
  have "to_f64 (7 / 100) = Fin ?x" "to_f64 (?x * 100) = Fin ?y"
    using small_finite [of ?x] small_finite [of ?y] by (simp_all only: to_f64_def x y Let_def) simp_all
  moreover have "to_f64 100 = Fin 100" using to_f64_scaled [of 100 0] by simp
  ultimately have "fmul (fdiv (Fin 7) (Fin 100)) (to_f64 100) = Fin ?y" by simp
  moreover have "f2i64 (Ceil (Fin ?y)) = 8"
  proof -
    have "\<lceil>?y\<rceil> = 8" by (rule ceiling_unique) simp_all
    then show ?thesis using f2i64_int [of 8] by (simp del: f2i64.simps)
  qed
  moreover have "Atoi ''7'' = Some 7" "TrimSpace ''7%'' = ''7%''" "CutSuffix ''7%'' ''%'' = Some ''7''"
    by code_simp+
  ultimately show ?thesis
    by (simp add: ParseIntOrPercent_def del: fmul.simps fdiv.simps f2i64.simps Ceil.simps)
qed

section \<open>Properties\<close>

text \<open>
  C33. Whole quantities keep their value and fractional cores round up: for every \<open>n\<close> from 1 below
  \<open>2 ^ 32\<close>, \<open>n\<close> CPUs parse to \<open>n\<close>, \<open>n\<close> millicores to the least number of whole CPUs that
  holds them, and \<open>n\<close> Mi, Gi or Ti of memory to that many MiB, although every one of them
  passes through \<open>float64\<close>.
\<close>

theorem quantities_exact:
  assumes "0 < n" "n < 2 ^ 32"
  shows "ParseVCPUs (show_nat n) = Ok (of_nat n)
    \<and> ParseVCPUs (show_nat n @ ''m'') = Ok (of_nat ((n + 999) div 1000))
    \<and> ParseMemoryMiB (show_nat n @ ''Mi'') = Ok (of_nat n)
    \<and> ParseMemoryMiB (show_nat n @ ''Gi'') = Ok (of_nat (n * 1024))
    \<and> ParseMemoryMiB (show_nat n @ ''Ti'') = Ok (of_nat (n * 1024 * 1024))"
  using ParseVCPUs_units [OF assms] ParseMemoryMiB_units [OF assms] by blast

lemma show_nat_1500: "show_nat 1500 = ''1500''"
  by (simp add: show_nat.simps)

theorem quantities_exact_witness:
  "ParseVCPUs ''1500m'' = Ok 2 \<and> ParseMemoryMiB ''1500Gi'' = Ok 1536000"
  using quantities_exact [of 1500] by (simp add: show_nat_1500)

text \<open>
  C34. A percentage of a count is rounded up to the exact ceiling of \<open>p * t / 100\<close>, except that
  when \<open>p * t / 100\<close> is a whole number the rounding of \<open>float64(pct) / 100\<close> may push the
  result one above it: 7\<open>%\<close> of 100 gives 8.
\<close>

theorem percent_rounds_up_or_one_more:
  assumes "p \<le> 100" "t < 2 ^ 31"
  shows "(ParseIntOrPercent (show_nat p @ ''%'') (int t) = Ok (ceil_percent p t)
        \<or> (100 dvd p * t \<and> ParseIntOrPercent (show_nat p @ ''%'') (int t) = Ok (ceil_percent p t + 1)))
      \<and> (ceil_percent 7 100 = 7 \<and> ParseIntOrPercent ''7%'' 100 = Ok 8)"
proof
  show "ceil_percent 7 100 = 7 \<and> ParseIntOrPercent ''7%'' 100 = Ok 8" by (simp add: seven_percent ceil_percent_def)
qed (rule ParseIntOrPercent_percent [OF assms])

theorem percent_rounds_up_or_one_more_witness:
  "ParseIntOrPercent ''7%'' 30 = Ok 3"
  using percent_rounds_up_or_one_more [of 7 30] by (simp add: show_nat.simps ceil_percent_def)

text \<open>
  C35. A CPU list written as a node label reads back as the same list: whenever
  \<open>FormatCPULabel\<close> accepts an ascending list of 32-bit CPU numbers, \<open>ParseCPUList\<close> of the
  label gives that list.
\<close>

theorem cpu_label_roundtrip:
  assumes "sorted_wrt (<) cpus" and "\<forall>c \<in> set cpus. c < 2 ^ 32" and "FormatCPULabel cpus = Ok out"
  shows "ParseCPUList out = Ok cpus"
  using assms by (rule FormatCPULabel_parse)

theorem cpu_label_roundtrip_witness:
  "FormatCPULabel [2, 3, 6, 7, 8, 11] = Ok ''2-3_6-8_11'' \<and> ParseCPUList ''2-3_6-8_11'' = Ok [2, 3, 6, 7, 8, 11]"
proof -
  have f: "FormatCPULabel [2, 3, 6, 7, 8, 11] = Ok ''2-3_6-8_11''"
    by (simp add: FormatCPULabel_def range_str_def show_nat.simps)
  then show ?thesis using cpu_label_roundtrip [OF _ _ f] by simp
qed

end
