(* ===== verification/Machine_Types.thy ===== *)
theory Machine_Types
  imports Quantity
begin

text \<open>
  The parts of a Machine's specification and status, \<open>internal/model/types.go\<close> and
  \<open>internal/model/network.go\<close>: one record per struct with the source's fields in their order.
  A pointer field is an option, a slice a list, and the unsigned integers keep their width;
  the constants that end in 0 are the zero values of the structs.
\<close>

section \<open>Images and disks\<close>

record ImageSource =
  src_HTTPURL :: string
  src_OCI :: string
  src_Format :: string
  src_Repair :: bool
  src_InsecureSkipTLSVerify :: bool

record ImageSpec =
  img_Path :: string
  img_Digest :: string
  img_Source :: "ImageSource option"
  img_CatalogName :: string
  img_ImageRef :: string
  img_Blank :: bool
  img_DiskSize :: string
  img_Storage :: string

definition ImageSpec0 :: ImageSpec where
  "ImageSpec0 = \<lparr>img_Path = '''', img_Digest = '''', img_Source = None, img_CatalogName = '''',
     img_ImageRef = '''', img_Blank = False, img_DiskSize = '''', img_Storage = ''''\<rparr>"

lemma ImageSpec0_simps [simp]:
  "img_Path ImageSpec0 = ''''"
  "img_Digest ImageSpec0 = ''''"
  "img_Source ImageSpec0 = None"
  "img_CatalogName ImageSpec0 = ''''"
  "img_ImageRef ImageSpec0 = ''''"
  "img_Blank ImageSpec0 = False"
  "img_DiskSize ImageSpec0 = ''''"
  "img_Storage ImageSpec0 = ''''"
  by (simp_all add: ImageSpec0_def)

record MachineDisk =
  disk_Name :: string
  disk_ClaimName :: string

record MachineCdrom =
  cd_Name :: string
  cd_ImageRef :: string
  cd_Source :: "ImageSource option"
  cd_Digest :: string
  cd_Path :: string

record AtlasVolumeSource =
  atlas_Size :: string
  atlas_Mode :: string
  atlas_Policy :: string
  atlas_StorageClass :: string
  atlas_BackendID :: string
  atlas_Pool :: string
  atlas_Retain :: bool

record MachineVolume =
  vol_Name :: string
  vol_ClaimName :: string
  vol_GuestPath :: string
  vol_ReadOnly :: bool
  vol_Atlas :: "AtlasVolumeSource option"

section \<open>Resources, runtime and guest\<close>

record ResourceLimits =
  lim_CPUQuotaPercent :: "32 word option"
  lim_MemoryMaxBytes :: "64 word option"
  lim_IOWeight :: "32 word option"
  lim_PIDsMax :: "64 word option"
  lim_CPUSetCPUs :: "nat list"

record ResourceSpec =
  res_CPU :: string
  res_Memory :: string
  res_MaxCPU :: string
  res_MaxMemory :: string
  res_Hugepages :: bool
  res_NUMANode :: "int option"
  res_CPUSet :: string
  res_CPUPinning :: bool
  res_AllocatedCPUSet :: "nat list"
  res_Limits :: "ResourceLimits option"

definition ResourceSpec0 :: ResourceSpec where
  "ResourceSpec0 = \<lparr>res_CPU = '''', res_Memory = '''', res_MaxCPU = '''', res_MaxMemory = '''',
     res_Hugepages = False, res_NUMANode = None, res_CPUSet = '''', res_CPUPinning = False,
     res_AllocatedCPUSet = [], res_Limits = None\<rparr>"

lemma ResourceSpec0_simps [simp]:
  "res_CPU ResourceSpec0 = ''''"
  "res_Memory ResourceSpec0 = ''''"
  "res_MaxCPU ResourceSpec0 = ''''"
  "res_MaxMemory ResourceSpec0 = ''''"
  "res_Hugepages ResourceSpec0 = False"
  "res_NUMANode ResourceSpec0 = None"
  "res_CPUSet ResourceSpec0 = ''''"
  "res_CPUPinning ResourceSpec0 = False"
  "res_AllocatedCPUSet ResourceSpec0 = []"
  "res_Limits ResourceSpec0 = None"
  by (simp_all add: ResourceSpec0_def)

record RuntimeSpec =
  rt_Backend :: string
  rt_Kernel :: string

definition RuntimeSpec0 :: RuntimeSpec where
  "RuntimeSpec0 = \<lparr>rt_Backend = '''', rt_Kernel = ''''\<rparr>"

lemma RuntimeSpec0_simps [simp]:
  "rt_Backend RuntimeSpec0 = ''''"
  "rt_Kernel RuntimeSpec0 = ''''"
  by (simp_all add: RuntimeSpec0_def)

record CloudInitFile =
  cif_Path :: string
  cif_Content :: string
  cif_Permissions :: string

record CloudInitSpec =
  ci_Hostname :: string
  ci_User :: string
  ci_SSHAuthorizedKeys :: "string list"
  ci_Packages :: "string list"
  ci_RunCmd :: "string list"
  ci_WriteFiles :: "CloudInitFile list"

definition CloudInitSpec0 :: CloudInitSpec where
  "CloudInitSpec0 = \<lparr>ci_Hostname = '''', ci_User = '''', ci_SSHAuthorizedKeys = [], ci_Packages = [],
     ci_RunCmd = [], ci_WriteFiles = []\<rparr>"

lemma CloudInitSpec0_simps [simp]:
  "ci_Hostname CloudInitSpec0 = ''''"
  "ci_User CloudInitSpec0 = ''''"
  "ci_SSHAuthorizedKeys CloudInitSpec0 = []"
  "ci_Packages CloudInitSpec0 = []"
  "ci_RunCmd CloudInitSpec0 = []"
  "ci_WriteFiles CloudInitSpec0 = []"
  by (simp_all add: CloudInitSpec0_def)

record SecuritySpec =
  sec_SecureBoot :: bool
  sec_TPM :: bool

definition SecuritySpec0 :: SecuritySpec where
  "SecuritySpec0 = \<lparr>sec_SecureBoot = False, sec_TPM = False\<rparr>"

lemma SecuritySpec0_simps [simp]:
  "sec_SecureBoot SecuritySpec0 = False"
  "sec_TPM SecuritySpec0 = False"
  by (simp_all add: SecuritySpec0_def)

record GuestAgentSpec =
  ga_Enabled :: bool
  ga_Console :: bool

definition GuestAgentSpec0 :: GuestAgentSpec where
  "GuestAgentSpec0 = \<lparr>ga_Enabled = False, ga_Console = False\<rparr>"

lemma GuestAgentSpec0_simps [simp]:
  "ga_Enabled GuestAgentSpec0 = False"
  "ga_Console GuestAgentSpec0 = False"
  by (simp_all add: GuestAgentSpec0_def)

record SandboxSpec =
  sbx_TemplateName :: string
  sbx_HTTPProxyPorts :: "16 word list"

section \<open>Network\<close>

record PortForward =
  fwd_HostPort :: "16 word"
  fwd_GuestPort :: "16 word"
  fwd_Protocol :: string

record NetworkQoS =
  qos_IngressMbps :: "32 word option"
  qos_EgressMbps :: "32 word option"
  qos_IngressPps :: "32 word option"
  qos_EgressPps :: "32 word option"

record ExtraInterface =
  ei_Name :: string
  ei_Bridge :: string
  ei_MAC :: string

record NetworkSpec =
  net_Mode :: string
  net_NetNS :: bool
  net_Bridge :: string
  net_Parent :: string
  net_MAC :: string
  net_TapName :: string
  net_MacvtapMode :: string
  net_Forwards :: "PortForward list"
  net_StaticNetwork :: bool
  net_PodUID :: string
  net_DataplaneRequired :: bool
  net_DataplaneMode :: string
  net_CiliumAttach :: bool
  net_CiliumNamespace :: string
  net_CiliumLabels :: smap
  net_AntiSpoof :: bool
  net_LearnIP :: bool
  net_QoS :: "NetworkQoS option"
  net_ExtraInterfaces :: "ExtraInterface list"

definition NetworkSpec0 :: NetworkSpec where
  "NetworkSpec0 = \<lparr>net_Mode = '''', net_NetNS = False, net_Bridge = '''', net_Parent = '''', net_MAC = '''',
     net_TapName = '''', net_MacvtapMode = '''', net_Forwards = [], net_StaticNetwork = False,
     net_PodUID = '''', net_DataplaneRequired = False, net_DataplaneMode = '''',
     net_CiliumAttach = False, net_CiliumNamespace = '''', net_CiliumLabels = [],
     net_AntiSpoof = False, net_LearnIP = False, net_QoS = None, net_ExtraInterfaces = []\<rparr>"

lemma NetworkSpec0_simps [simp]:
  "net_Mode NetworkSpec0 = ''''"
  "net_NetNS NetworkSpec0 = False"
  "net_Bridge NetworkSpec0 = ''''"
  "net_Parent NetworkSpec0 = ''''"
  "net_MAC NetworkSpec0 = ''''"
  "net_TapName NetworkSpec0 = ''''"
  "net_MacvtapMode NetworkSpec0 = ''''"
  "net_Forwards NetworkSpec0 = []"
  "net_StaticNetwork NetworkSpec0 = False"
  "net_PodUID NetworkSpec0 = ''''"
  "net_DataplaneRequired NetworkSpec0 = False"
  "net_DataplaneMode NetworkSpec0 = ''''"
  "net_CiliumAttach NetworkSpec0 = False"
  "net_CiliumNamespace NetworkSpec0 = ''''"
  "net_CiliumLabels NetworkSpec0 = []"
  "net_AntiSpoof NetworkSpec0 = False"
  "net_LearnIP NetworkSpec0 = False"
  "net_QoS NetworkSpec0 = None"
  "net_ExtraInterfaces NetworkSpec0 = []"
  by (simp_all add: NetworkSpec0_def)

record ServiceFabricMembership =
  sf_Name :: string
  sf_Port :: "16 word"
  sf_Weight :: "16 word"

section \<open>Status\<close>

record MachineDataplaneStatus =
  dp_Attached :: bool
  dp_Mode :: string
  dp_SchemaVersion :: "32 word option"
  dp_Identity :: "32 word"
  dp_PolicyFingerprint :: string
  dp_PolicySynced :: bool
  dp_Interface :: string

record MachineCiliumStatus =
  cil_ExternalWorkload :: string
  cil_ExternalWorkloadUID :: string
  cil_Identity :: "32 word"
  cil_IPv4 :: string
  cil_Message :: string

record MachineEdgeStatus =
  edge_Identity :: "32 word"
  edge_GuestIPSource :: string
  edge_AntiSpoof :: bool
  edge_PolicyName :: string
  edge_ConntrackRestored :: int
  edge_BlackholeWindowMs :: int

record MachineNetworkStatus =
  mns_GuestIP :: string
  mns_GuestIPs :: "string list"
  mns_TapName :: string
  mns_Dataplane :: "MachineDataplaneStatus option"
  mns_Cilium :: "MachineCiliumStatus option"
  mns_Edge :: "MachineEdgeStatus option"

record AppliedServiceFabricMembership =
  asf_Name :: string
  asf_Port :: "16 word"
  asf_GuestIP :: string

record ResourceUsage =
  ru_CPUPercent :: f64
  ru_MemoryBytes :: "64 word"
  ru_DiskReadBytes :: "64 word"
  ru_DiskWriteBytes :: "64 word"

record DiskVolume =
  dv_Name :: string
  dv_Node :: string
  dv_Driver :: string
  dv_VolumeHandle :: string
  dv_StagingPath :: string
  dv_PublishPath :: string
  dv_Block :: bool

record AttachedInterface =
  ai_Name :: string
  ai_Bridge :: string
  ai_MAC :: string

end
