(* ===== verification/Model_Types.thy ===== *)
theory Model_Types
  imports Machine_Types
begin

text \<open>
  The API objects of \<open>internal/model/types.go\<close> the components read and write, one record
  per struct with the source's fields, and the small functions of the model
  package on them: namespaces, power states, finalizers, label matching and conditions.

  A \<open>*time.Time\<close> is an optional instant and a \<open>time.Time\<close> an instant, in nanoseconds; 0 is
  the zero value, so \<open>IsZero\<close> is equality with 0. A label or annotation map that is nil and
  one that is empty are the same association list: the API server drops empty maps.
\<close>

type_synonym time = int

section \<open>Metadata, conditions and nodes\<close>

record ObjectMeta =
  meta_Name :: string
  meta_Namespace :: string
  meta_UID :: string
  meta_Generation :: int
  meta_CreationTimestamp :: time
  meta_ResourceVersion :: string
  meta_Labels :: smap
  meta_Annotations :: smap
  meta_Finalizers :: "string list"
  meta_DeletionTimestamp :: "time option"

definition ObjectMeta0 :: ObjectMeta where
  \<comment> \<open>the zero value of the struct\<close>
  "ObjectMeta0 = \<lparr>meta_Name = '''', meta_Namespace = '''', meta_UID = '''', meta_Generation = 0,
     meta_CreationTimestamp = 0, meta_ResourceVersion = '''', meta_Labels = [], meta_Annotations = [],
     meta_Finalizers = [], meta_DeletionTimestamp = None\<rparr>"

lemma ObjectMeta0_simps [simp]:
  "meta_Name ObjectMeta0 = ''''"
  "meta_Namespace ObjectMeta0 = ''''"
  "meta_UID ObjectMeta0 = ''''"
  "meta_Generation ObjectMeta0 = 0"
  "meta_CreationTimestamp ObjectMeta0 = 0"
  "meta_ResourceVersion ObjectMeta0 = ''''"
  "meta_Labels ObjectMeta0 = []"
  "meta_Annotations ObjectMeta0 = []"
  "meta_Finalizers ObjectMeta0 = []"
  "meta_DeletionTimestamp ObjectMeta0 = None"
  by (simp_all add: ObjectMeta0_def)

record Condition =
  cond_Type :: string
  cond_Status :: string
  cond_Reason :: string
  cond_Message :: string
  cond_LastTransitionTime :: time

record Taint =
  taint_Key :: string
  taint_Value :: string
  taint_Effect :: string

record NodeCondition =
  ncond_Type :: string
  ncond_Status :: string

record NodeAddress =
  addr_Type :: string
  addr_Address :: string

record NodeStatus =
  nst_Conditions :: "NodeCondition list"
  nst_Addresses :: "NodeAddress list"
  nst_Allocatable :: smap

record Node =
  node_Metadata :: ObjectMeta
  node_Unschedulable :: bool
  node_Taints :: "Taint list"
  node_Status :: NodeStatus

abbreviation node_name :: "Node \<Rightarrow> string" where "node_name n \<equiv> meta_Name (node_Metadata n)"
abbreviation node_labels :: "Node \<Rightarrow> smap" where "node_labels n \<equiv> meta_Labels (node_Metadata n)"

definition Node0 :: Node where
  "Node0 = \<lparr>node_Metadata = ObjectMeta0, node_Unschedulable = False, node_Taints = [],
     node_Status = \<lparr>nst_Conditions = [], nst_Addresses = [], nst_Allocatable = []\<rparr>\<rparr>"

section \<open>Machines\<close>

record MachineAffinityTerm =
  aff_LabelSelector :: smap
  aff_TopologyKey :: string

record WeightedAffinityTerm =
  waff_Weight :: int
  waff_Term :: MachineAffinityTerm

record TopologySpreadConstraint =
  tsc_TopologyKey :: string
  tsc_LabelSelector :: smap
  tsc_MaxSkew :: int
  tsc_WhenUnsatisfiable :: string

record Toleration =
  tol_Key :: string
  tol_Operator :: string
  tol_Value :: string
  tol_Effect :: string

record PlacementSpec =
  place_Architecture :: string
  place_NodeSelector :: smap
  place_Affinity :: "MachineAffinityTerm list"
  place_AntiAffinity :: "MachineAffinityTerm list"
  place_PreferredAffinity :: "WeightedAffinityTerm list"
  place_PreferredAntiAffinity :: "WeightedAffinityTerm list"
  place_TopologySpreadConstraints :: "TopologySpreadConstraint list"
  place_Tolerations :: "Toleration list"

definition PlacementSpec0 :: PlacementSpec where
  "PlacementSpec0 = \<lparr>place_Architecture = '''', place_NodeSelector = [], place_Affinity = [],
     place_AntiAffinity = [], place_PreferredAffinity = [], place_PreferredAntiAffinity = [],
     place_TopologySpreadConstraints = [], place_Tolerations = []\<rparr>"

lemma PlacementSpec0_simps [simp]:
  "place_Architecture PlacementSpec0 = ''''"
  "place_NodeSelector PlacementSpec0 = []"
  "place_Affinity PlacementSpec0 = []"
  "place_AntiAffinity PlacementSpec0 = []"
  "place_PreferredAffinity PlacementSpec0 = []"
  "place_PreferredAntiAffinity PlacementSpec0 = []"
  "place_TopologySpreadConstraints PlacementSpec0 = []"
  "place_Tolerations PlacementSpec0 = []"
  by (simp_all add: PlacementSpec0_def)

record MachineSpec =
  spec_NodeName :: string
  spec_InstanceTypeName :: string
  spec_Image :: ImageSpec
  spec_Resources :: ResourceSpec
  spec_Runtime :: RuntimeSpec
  spec_Network :: NetworkSpec
  spec_CloudInit :: CloudInitSpec
  spec_ServiceFabric :: "ServiceFabricMembership list"
  spec_PowerState :: string
  spec_Tenant :: string
  spec_TTLSeconds :: int
  spec_Priority :: int
  spec_Placement :: PlacementSpec
  spec_Security :: SecuritySpec
  spec_Volumes :: "MachineVolume list"
  spec_Disks :: "MachineDisk list"
  spec_Cdroms :: "MachineCdrom list"
  spec_DeviceClaims :: "string list"
  spec_GuestAgent :: GuestAgentSpec
  spec_Sandbox :: "SandboxSpec option"

definition MachineSpec0 :: MachineSpec where
  "MachineSpec0 = \<lparr>spec_NodeName = '''', spec_InstanceTypeName = '''', spec_Image = ImageSpec0,
     spec_Resources = ResourceSpec0, spec_Runtime = RuntimeSpec0, spec_Network = NetworkSpec0,
     spec_CloudInit = CloudInitSpec0, spec_ServiceFabric = [], spec_PowerState = '''',
     spec_Tenant = '''', spec_TTLSeconds = 0, spec_Priority = 0, spec_Placement = PlacementSpec0,
     spec_Security = SecuritySpec0, spec_Volumes = [], spec_Disks = [], spec_Cdroms = [],
     spec_DeviceClaims = [], spec_GuestAgent = GuestAgentSpec0, spec_Sandbox = None\<rparr>"

lemma MachineSpec0_simps [simp]:
  "spec_NodeName MachineSpec0 = ''''"
  "spec_InstanceTypeName MachineSpec0 = ''''"
  "spec_Image MachineSpec0 = ImageSpec0"
  "spec_Resources MachineSpec0 = ResourceSpec0"
  "spec_Runtime MachineSpec0 = RuntimeSpec0"
  "spec_Network MachineSpec0 = NetworkSpec0"
  "spec_CloudInit MachineSpec0 = CloudInitSpec0"
  "spec_ServiceFabric MachineSpec0 = []"
  "spec_PowerState MachineSpec0 = ''''"
  "spec_Tenant MachineSpec0 = ''''"
  "spec_TTLSeconds MachineSpec0 = 0"
  "spec_Priority MachineSpec0 = 0"
  "spec_Placement MachineSpec0 = PlacementSpec0"
  "spec_Security MachineSpec0 = SecuritySpec0"
  "spec_Volumes MachineSpec0 = []"
  "spec_Disks MachineSpec0 = []"
  "spec_Cdroms MachineSpec0 = []"
  "spec_DeviceClaims MachineSpec0 = []"
  "spec_GuestAgent MachineSpec0 = GuestAgentSpec0"
  "spec_Sandbox MachineSpec0 = None"
  by (simp_all add: MachineSpec0_def)

record MachineStatus =
  st_Phase :: string
  st_NodeName :: string
  st_RuntimeID :: string
  st_GuestIP :: string
  st_GuestIPs :: "string list"
  st_Network :: "MachineNetworkStatus option"
  st_ObservedGeneration :: int
  st_Message :: string
  st_Conditions :: "Condition list"
  st_AppliedVCPUs :: "32 word"
  st_AppliedMemoryMiB :: "64 word"
  st_AppliedResourceLimits :: "ResourceLimits option"
  st_ResourceUsage :: "ResourceUsage option"
  st_VolumeStagingPath :: string
  st_VolumePublishPath :: string
  st_VolumeHandle :: string
  st_VolumeDriver :: string
  st_AppliedServiceFabricMemberships :: "AppliedServiceFabricMembership list"
  st_AttachedDisks :: "string list"
  st_DiskVolumes :: "DiskVolume list"
  st_AttachedInterfaces :: "AttachedInterface list"

definition MachineStatus0 :: MachineStatus where
  "MachineStatus0 = \<lparr>st_Phase = '''', st_NodeName = '''', st_RuntimeID = '''', st_GuestIP = '''',
     st_GuestIPs = [], st_Network = None, st_ObservedGeneration = 0, st_Message = '''',
     st_Conditions = [], st_AppliedVCPUs = 0, st_AppliedMemoryMiB = 0,
     st_AppliedResourceLimits = None, st_ResourceUsage = None, st_VolumeStagingPath = '''',
     st_VolumePublishPath = '''', st_VolumeHandle = '''', st_VolumeDriver = '''',
     st_AppliedServiceFabricMemberships = [], st_AttachedDisks = [], st_DiskVolumes = [],
     st_AttachedInterfaces = []\<rparr>"

lemma MachineStatus0_simps [simp]:
  "st_Phase MachineStatus0 = ''''"
  "st_NodeName MachineStatus0 = ''''"
  "st_RuntimeID MachineStatus0 = ''''"
  "st_GuestIP MachineStatus0 = ''''"
  "st_GuestIPs MachineStatus0 = []"
  "st_Network MachineStatus0 = None"
  "st_ObservedGeneration MachineStatus0 = 0"
  "st_Message MachineStatus0 = ''''"
  "st_Conditions MachineStatus0 = []"
  "st_AppliedVCPUs MachineStatus0 = 0"
  "st_AppliedMemoryMiB MachineStatus0 = 0"
  "st_AppliedResourceLimits MachineStatus0 = None"
  "st_ResourceUsage MachineStatus0 = None"
  "st_VolumeStagingPath MachineStatus0 = ''''"
  "st_VolumePublishPath MachineStatus0 = ''''"
  "st_VolumeHandle MachineStatus0 = ''''"
  "st_VolumeDriver MachineStatus0 = ''''"
  "st_AppliedServiceFabricMemberships MachineStatus0 = []"
  "st_AttachedDisks MachineStatus0 = []"
  "st_DiskVolumes MachineStatus0 = []"
  "st_AttachedInterfaces MachineStatus0 = []"
  by (simp_all add: MachineStatus0_def)

record Machine =
  mach_Metadata :: ObjectMeta
  mach_Spec :: MachineSpec
  mach_Status :: MachineStatus

abbreviation m_name :: "Machine \<Rightarrow> string" where "m_name m \<equiv> meta_Name (mach_Metadata m)"
abbreviation m_labels :: "Machine \<Rightarrow> smap" where "m_labels m \<equiv> meta_Labels (mach_Metadata m)"
abbreviation m_annotations :: "Machine \<Rightarrow> smap" where "m_annotations m \<equiv> meta_Annotations (mach_Metadata m)"
abbreviation m_deleted :: "Machine \<Rightarrow> bool" where "m_deleted m \<equiv> meta_DeletionTimestamp (mach_Metadata m) \<noteq> None"
abbreviation m_node :: "Machine \<Rightarrow> string" where "m_node m \<equiv> spec_NodeName (mach_Spec m)"
abbreviation m_place :: "Machine \<Rightarrow> PlacementSpec" where "m_place m \<equiv> spec_Placement (mach_Spec m)"
abbreviation m_res :: "Machine \<Rightarrow> ResourceSpec" where "m_res m \<equiv> spec_Resources (mach_Spec m)"
abbreviation m_priority :: "Machine \<Rightarrow> int" where "m_priority m \<equiv> spec_Priority (mach_Spec m)"
abbreviation m_phase :: "Machine \<Rightarrow> string" where "m_phase m \<equiv> st_Phase (mach_Status m)"

definition Machine0 :: Machine where
  "Machine0 = \<lparr>mach_Metadata = ObjectMeta0, mach_Spec = MachineSpec0, mach_Status = MachineStatus0\<rparr>"

lemma Machine0_simps [simp]:
  "mach_Metadata Machine0 = ObjectMeta0"
  "mach_Spec Machine0 = MachineSpec0"
  "mach_Status Machine0 = MachineStatus0"
  by (simp_all add: Machine0_def)

definition DefaultNamespace :: string where "DefaultNamespace = ''default''"

definition meta_ns :: "ObjectMeta \<Rightarrow> string" where
  "meta_ns md = (if meta_Namespace md = '''' then DefaultNamespace else meta_Namespace md)"

definition Namespace :: "Machine \<Rightarrow> string" where
  "Namespace m = meta_ns (mach_Metadata m)"

definition RuntimeName :: "Machine \<Rightarrow> string" where
  "RuntimeName m = ''kairon-'' @ Namespace m @ ''-'' @ m_name m"

definition DesiredPowerState :: "Machine \<Rightarrow> string" where
  "DesiredPowerState m = (if spec_PowerState (mach_Spec m) = '''' then ''Running'' else spec_PowerState (mach_Spec m))"

definition m_key :: "Machine \<Rightarrow> string" where
  \<comment> \<open>\<open>m.Namespace() + "/" + m.Metadata.Name\<close>\<close>
  "m_key m = Namespace m @ ''/'' @ m_name m"

definition HasFinalizerList :: "string list \<Rightarrow> string \<Rightarrow> bool" where
  "HasFinalizerList finalizers name = list_ex (\<lambda>f. f = name) finalizers"

definition RemoveFinalizer :: "string list \<Rightarrow> string \<Rightarrow> string list" where
  "RemoveFinalizer finalizers name = filter (\<lambda>f. f \<noteq> name) finalizers"

definition AnnotationTrue :: "ObjectMeta \<Rightarrow> string \<Rightarrow> bool" where
  "AnnotationTrue md key = (meta_Annotations md \<noteq> [] \<and> mget (meta_Annotations md) key = ''true'')"

definition LabelsMatch :: "smap \<Rightarrow> smap \<Rightarrow> bool" where
  "LabelsMatch labels selector = (selector \<noteq> [] \<and> list_all (\<lambda>(k, v). labels \<noteq> [] \<and> mget labels k = v) selector)"

section \<open>Migrations\<close>

record MachineMigrationRecoverySpec =
  rs_Action :: string
  rs_AcknowledgedDiagnosis :: string
  rs_Reason :: string

record MachineMigrationSpec =
  mig_MachineName :: string
  mig_Strategy :: string
  mig_TargetNode :: string
  mig_Mode :: string
  mig_BandwidthMbps :: nat
  mig_MaxDowntimeMs :: nat
  mig_MultifdChannels :: nat
  mig_MigrationNetwork :: string
  mig_Recovery :: "MachineMigrationRecoverySpec option"
  mig_Cancel :: bool

record MachineMigrationRecoveryStatus =
  rec_SourceRuntimeStatus :: string
  rec_DestinationSessionPhase :: string
  rec_DestinationRuntimeStatus :: string
  rec_DestinationRuntimeFound :: bool
  rec_DiagnosedAt :: "time option"
  rec_AppliedAction :: string
  rec_AppliedReason :: string
  rec_AppliedAcknowledgedDiagnosis :: string
  rec_AppliedAt :: "time option"

record MachineMigrationStatus =
  ms_Phase :: string
  ms_Message :: string
  ms_SourceNode :: string
  ms_TargetNode :: string
  ms_EffectiveStrategy :: string
  ms_RuntimeID :: string
  ms_SessionID :: string
  ms_TransferID :: string
  ms_TransferPhase :: string
  ms_Backend :: string
  ms_RAMTransferred :: nat
  ms_RAMRemaining :: nat
  ms_RAMTotal :: nat
  ms_TotalTimeMs :: nat
  ms_DowntimeMs :: nat
  ms_DataPlaneEncrypted :: bool
  ms_Recovery :: "MachineMigrationRecoveryStatus option"

record MachineMigration =
  mm_Metadata :: ObjectMeta
  mm_Spec :: MachineMigrationSpec
  mm_Status :: MachineMigrationStatus

definition mm_ns :: "MachineMigration \<Rightarrow> string" where
  \<comment> \<open>\<open>MachineMigration.Namespace\<close>\<close>
  "mm_ns mm = meta_ns (mm_Metadata mm)"

abbreviation mm_name :: "MachineMigration \<Rightarrow> string" where "mm_name mm \<equiv> meta_Name (mm_Metadata mm)"
abbreviation mm_phase :: "MachineMigration \<Rightarrow> string" where "mm_phase mm \<equiv> ms_Phase (mm_Status mm)"

definition MachineMigration0 :: MachineMigration where
  "MachineMigration0 = \<lparr>mm_Metadata = ObjectMeta0,
     mm_Spec = \<lparr>mig_MachineName = '''', mig_Strategy = '''', mig_TargetNode = '''', mig_Mode = '''',
       mig_BandwidthMbps = 0, mig_MaxDowntimeMs = 0, mig_MultifdChannels = 0, mig_MigrationNetwork = '''',
       mig_Recovery = None, mig_Cancel = False\<rparr>,
     mm_Status = \<lparr>ms_Phase = '''', ms_Message = '''', ms_SourceNode = '''', ms_TargetNode = '''',
       ms_EffectiveStrategy = '''', ms_RuntimeID = '''', ms_SessionID = '''', ms_TransferID = '''',
       ms_TransferPhase = '''', ms_Backend = '''', ms_RAMTransferred = 0, ms_RAMRemaining = 0, ms_RAMTotal = 0,
       ms_TotalTimeMs = 0, ms_DowntimeMs = 0, ms_DataPlaneEncrypted = False, ms_Recovery = None\<rparr>\<rparr>"

section \<open>Conditions\<close>

fun FindCondition :: "Condition list \<Rightarrow> string \<Rightarrow> Condition option" where
  "FindCondition [] condType = None"
| "FindCondition (c # cs) condType = (if cond_Type c = condType then Some c else FindCondition cs condType)"

definition stamp_condition :: "time \<Rightarrow> Condition list \<Rightarrow> Condition \<Rightarrow> Condition" where
  "stamp_condition now conditions cond =
     (case FindCondition conditions (cond_Type cond) of
        Some prev \<Rightarrow>
          if cond_Status prev = cond_Status cond \<and> cond_Reason prev = cond_Reason cond \<and> cond_Message prev = cond_Message cond
          then cond\<lparr>cond_LastTransitionTime := cond_LastTransitionTime prev\<rparr>
          else if cond_LastTransitionTime cond = 0 then cond\<lparr>cond_LastTransitionTime := now\<rparr> else cond
      | None \<Rightarrow> if cond_LastTransitionTime cond = 0 then cond\<lparr>cond_LastTransitionTime := now\<rparr> else cond)"

definition SetCondition :: "time \<Rightarrow> Condition list \<Rightarrow> Condition \<Rightarrow> Condition list" where
  "SetCondition now conditions cond =
     (let cond = stamp_condition now conditions cond;
          out = map (\<lambda>c. if cond_Type c = cond_Type cond then cond else c) conditions
      in if list_ex (\<lambda>c. cond_Type c = cond_Type cond) conditions then out else out @ [cond])"

lemma stamp_condition_type [simp]: "cond_Type (stamp_condition now cs c) = cond_Type c"
  by (simp add: stamp_condition_def split: option.split)

lemma FindCondition_replace:
  "cond_Type d = ty \<Longrightarrow> FindCondition (map (\<lambda>c. if cond_Type c = ty then d else c) cs) t =
     (if t = ty then (if list_ex (\<lambda>c. cond_Type c = t) cs then Some d else None) else FindCondition cs t)"
  by (induction cs) auto

lemma FindCondition_append:
  "FindCondition (cs @ ds) t = (case FindCondition cs t of Some c \<Rightarrow> Some c | None \<Rightarrow> FindCondition ds t)"
  by (induction cs) auto

lemma FindCondition_SetCondition:
  "FindCondition (SetCondition now cs c) t =
     (if t = cond_Type c then Some (stamp_condition now cs c) else FindCondition cs t)"
  by (auto simp: SetCondition_def Let_def FindCondition_replace FindCondition_append split: option.split)

lemma SetCondition_types:
  "map cond_Type (SetCondition now cs c) =
     (if list_ex (\<lambda>d. cond_Type d = cond_Type c) cs then map cond_Type cs else map cond_Type cs @ [cond_Type c])"
  by (auto simp: SetCondition_def Let_def)

lemma SetCondition_distinct:
  "distinct (map cond_Type cs) \<Longrightarrow> distinct (map cond_Type (SetCondition now cs c))"
  by (auto simp: SetCondition_types list_ex_iff)

end
