(* ===== verification/Capacity.thy ===== *)
theory Capacity
  imports Model_Types
begin

text \<open>
  Node capacity accounting, \<open>internal/scheduler/capacity.go\<close>: the load a reconcile pass
  keeps per node, what a Machine requests, whether a node still has room and the share
  that would remain.

  \<open>CPUMilli\<close> is an \<open>int64\<close> that only ever sums products of a \<open>uint32\<close> and 1000, so it is an
  unbounded integer here; memory is a \<open>uint64\<close> in MiB whose sums the code does not guard, and
  keeps its width.
\<close>

record NodeLoad =
  load_Count :: int
  load_CPUMilli :: int
  load_MemoryMiB :: "64 word"

definition NodeLoad0 :: NodeLoad where
  "NodeLoad0 = \<lparr>load_Count = 0, load_CPUMilli = 0, load_MemoryMiB = 0\<rparr>"

type_synonym loadmap = "NodeLoad gomap"

definition load_of :: "loadmap \<Rightarrow> string \<Rightarrow> NodeLoad" where
  "load_of load n = (case map_of load n of None \<Rightarrow> NodeLoad0 | Some l \<Rightarrow> l)"

definition machineRequests :: "Machine \<Rightarrow> int \<times> 64 word" where
  "machineRequests m =
     ((case ParseVCPUs (res_CPU (m_res m)) of Inr vcpus \<Rightarrow> uint vcpus * 1000 | Inl _ \<Rightarrow> 0),
      (case ParseMemoryMiB (res_Memory (m_res m)) of Inr mem \<Rightarrow> mem | Inl _ \<Rightarrow> 0))"

definition add_load :: "NodeLoad \<Rightarrow> Machine \<Rightarrow> NodeLoad" where
  "add_load l m = (let (cpu, mem) = machineRequests m in
     \<lparr>load_Count = load_Count l + 1, load_CPUMilli = load_CPUMilli l + cpu,
      load_MemoryMiB = load_MemoryMiB l + mem\<rparr>)"

definition Reserve :: "loadmap \<Rightarrow> string \<Rightarrow> Machine \<Rightarrow> loadmap" where
  "Reserve load nodeName m = mput load nodeName (add_load (load_of load nodeName) m)"

definition consumes_capacity :: "Machine \<Rightarrow> bool" where
  "consumes_capacity m = (\<not> (m_node m = '''' \<or> m_deleted m
      \<or> (DesiredPowerState m \<noteq> ''Running'' \<and> DesiredPowerState m \<noteq> ''Paused'')))"

definition BuildNodeLoad :: "Machine list \<Rightarrow> loadmap" where
  "BuildNodeLoad machines =
     foldl (\<lambda>out m. if consumes_capacity m then mput out (m_node m) (add_load (load_of out (m_node m)) m) else out)
       [] machines"

definition nodeAllocatable :: "Node \<Rightarrow> (int \<times> 64 word) option" where
  "nodeAllocatable n =
     (case (map_of (nst_Allocatable (node_Status n)) ''cpu'', map_of (nst_Allocatable (node_Status n)) ''memory'') of
        (Some cpuRaw, Some memRaw) \<Rightarrow>
          (case ParseVCPUs cpuRaw of
             Inl _ \<Rightarrow> None
           | Inr vcpus \<Rightarrow>
               (case ParseMemoryMiB memRaw of
                  Inl _ \<Rightarrow> None
                | Inr mem \<Rightarrow> Some (uint vcpus * 1000, mem)))
      | _ \<Rightarrow> None)"

definition capacityFits :: "Node \<Rightarrow> Machine \<Rightarrow> NodeLoad \<Rightarrow> string option" where
  \<comment> \<open>None when the Machine fits, otherwise the reason it does not\<close>
  "capacityFits n m load =
     (case nodeAllocatable n of
        None \<Rightarrow> None
      | Some (allocCPU, allocMem) \<Rightarrow>
          let (reqCPU, reqMem) = machineRequests m in
          if 0 < reqCPU \<and> allocCPU < load_CPUMilli load + reqCPU then
            Some (''insufficient CPU: need '' @ show_int reqCPU @ ''m, allocatable '' @ show_int allocCPU
              @ ''m with '' @ show_int (load_CPUMilli load) @ ''m already assigned'')
          else if 0 < reqMem \<and> allocMem < load_MemoryMiB load + reqMem then
            Some (''insufficient memory: need '' @ show_nat (unat reqMem) @ ''Mi, allocatable '' @ show_nat (unat allocMem)
              @ ''Mi with '' @ show_nat (unat (load_MemoryMiB load)) @ ''Mi already assigned'')
          else if res_Hugepages (m_res m)
            \<and> (case map_of (nst_Allocatable (node_Status n)) ''hugepages-2Mi'' of
                 Some hp \<Rightarrow> hp = ''0'' \<or> hp = ''0Mi'' | None \<Rightarrow> False) then
            Some ''hugepages requested but node allocatable hugepages-2Mi is 0''
          else None)"

definition remainingCapacityScore :: "Node \<Rightarrow> Machine \<Rightarrow> NodeLoad \<Rightarrow> int" where
  "remainingCapacityScore n m load =
     (case nodeAllocatable n of
        None \<Rightarrow> - load_Count load
      | Some (allocCPU, allocMem) \<Rightarrow>
          if allocCPU \<le> 0 \<and> allocMem \<le> 0 then - load_Count load
          else
            let (reqCPU, reqMem) = machineRequests m;
                cpuPct = (if 0 < allocCPU
                          then quot (max 0 (allocCPU - load_CPUMilli load - reqCPU) * 100) allocCPU else 100);
                used = load_MemoryMiB load + reqMem;
                memPct = (if 0 < allocMem
                          then sint (((if used < allocMem then allocMem - used else 0) * 100) div allocMem) else 100)
            in quot (cpuPct + memPct) 2)"

lemma load_of_Reserve:
  "load_of (Reserve load n m) n' = (if n' = n then add_load (load_of load n) m else load_of load n')"
  by (simp add: load_of_def Reserve_def)

lemma machineRequests_nonneg: "0 \<le> fst (machineRequests m)"
  by (simp add: machineRequests_def split: sum.split)

lemma add_load_simps [simp]:
  "load_Count (add_load l m) = load_Count l + 1"
  "load_CPUMilli (add_load l m) = load_CPUMilli l + fst (machineRequests m)"
  "load_MemoryMiB (add_load l m) = load_MemoryMiB l + snd (machineRequests m)"
  by (simp_all add: add_load_def split: prod.split)

lemma capacityFits_None:
  assumes "capacityFits n m load = None" and "nodeAllocatable n = Some (allocCPU, allocMem)"
  shows "fst (machineRequests m) = 0 \<or> load_CPUMilli load + fst (machineRequests m) \<le> allocCPU"
    and "snd (machineRequests m) = 0 \<or> load_MemoryMiB load + snd (machineRequests m) \<le> allocMem"
  using assms machineRequests_nonneg [of m]
  by (auto simp: capacityFits_def not_less word_gt_0 split: prod.splits if_splits)

text \<open>
  The load is what the Machines on the node ask for: the sum over the Machines that
  consume capacity there, and a reservation adds one more.
\<close>

definition on_node :: "string \<Rightarrow> Machine list \<Rightarrow> Machine list" where
  "on_node n ms = filter (\<lambda>m. consumes_capacity m \<and> m_node m = n) ms"

definition cpu_demand :: "Machine list \<Rightarrow> int" where
  "cpu_demand ms = sum_list (map (fst \<circ> machineRequests) ms)"

definition mem_demand :: "Machine list \<Rightarrow> nat" where
  "mem_demand ms = sum_list (map (unat \<circ> snd \<circ> machineRequests) ms)"

lemma load_of_build:
  "load_of (foldl (\<lambda>out m. if consumes_capacity m then mput out (m_node m) (add_load (load_of out (m_node m)) m) else out) ld ms) n
     = foldl add_load (load_of ld n) (on_node n ms)"
  by (induction ms arbitrary: ld) (auto simp: on_node_def load_of_def)

lemma foldl_add_load:
  "load_Count (foldl add_load l ms) = load_Count l + int (length ms)"
  "load_CPUMilli (foldl add_load l ms) = load_CPUMilli l + cpu_demand ms"
  by (induction ms arbitrary: l) (auto simp: cpu_demand_def)

lemma foldl_add_load_mem:
  "unat (load_MemoryMiB l) + mem_demand ms < 2 ^ 64 \<Longrightarrow>
   unat (load_MemoryMiB (foldl add_load l ms)) = unat (load_MemoryMiB l) + mem_demand ms"
proof (induction ms arbitrary: l)
  case (Cons m ms)
  let ?r = "snd (machineRequests m)"
  from Cons.prems have "unat (load_MemoryMiB l) + unat ?r < 2 ^ LENGTH(64)" by (simp add: mem_demand_def)
  then have u: "unat (load_MemoryMiB l + ?r) = unat (load_MemoryMiB l) + unat ?r"
    by (rule unat_add_lem [THEN iffD1])
  with Cons.prems have "unat (load_MemoryMiB (add_load l m)) + mem_demand ms < 2 ^ 64"
    by (simp add: mem_demand_def)
  from Cons.IH [OF this] u show ?case by (simp add: mem_demand_def)
qed (simp add: mem_demand_def)

lemma BuildNodeLoad_load:
  "load_of (BuildNodeLoad ms) n = foldl add_load NodeLoad0 (on_node n ms)"
  by (simp add: BuildNodeLoad_def load_of_build) (simp add: load_of_def)

end
