(* ===== verification/Scheduler.thy ===== *)
theory Scheduler
  imports Capacity
begin

text \<open>
  The Machine scheduler, \<open>internal/scheduler/scheduler.go\<close>: the hard filters, the topology
  spread limits, the scores, the choice of a node and the choice of the CPUs a pinned
  Machine owns.
\<close>

section \<open>Labels, taints and terms\<close>

definition CapableLabel :: string where "CapableLabel = ''kairon.zyvor.dev/capable''"
definition PinnableCPUsLabel :: string where "PinnableCPUsLabel = ''kairon.zyvor.dev/pinnable-cpus''"

fun ready_conditions :: "NodeCondition list \<Rightarrow> bool" where
  "ready_conditions [] = False"
| "ready_conditions (c # cs) = (if ncond_Type c = ''Ready'' then ncond_Status c = ''True'' else ready_conditions cs)"

definition ready :: "Node \<Rightarrow> bool" where
  "ready n = ready_conditions (nst_Conditions (node_Status n))"

fun nodeLabelValue :: "Node list \<Rightarrow> string \<Rightarrow> string \<Rightarrow> string option" where
  "nodeLabelValue [] nodeName key = None"
| "nodeLabelValue (n # ns) nodeName key =
     (if node_name n = nodeName then map_of (node_labels n) key else nodeLabelValue ns nodeName key)"

definition same_machine :: "Machine \<Rightarrow> Machine \<Rightarrow> bool" where
  "same_machine a b = (Namespace a = Namespace b \<and> m_name a = m_name b)"

definition counts_in_domain :: "Machine \<Rightarrow> Node list \<Rightarrow> smap \<Rightarrow> string \<Rightarrow> string \<Rightarrow> Machine \<Rightarrow> bool" where
  \<comment> \<open>another assigned Machine that matches the selector and whose node has this value of the topology key\<close>
  "counts_in_domain m nodes selector key v other =
     (\<not> same_machine other m \<and> \<not> (m_node other = '''' \<or> \<not> LabelsMatch (m_labels other) selector)
      \<and> nodeLabelValue nodes (m_node other) key = Some v)"

definition termSatisfied :: "Machine \<Rightarrow> Node \<Rightarrow> Node list \<Rightarrow> Machine list \<Rightarrow> MachineAffinityTerm \<Rightarrow> bool" where
  "termSatisfied m n nodes machines t =
     (case map_of (node_labels n) (aff_TopologyKey t) of
        None \<Rightarrow> False
      | Some candidateValue \<Rightarrow>
          list_ex (counts_in_domain m nodes (aff_LabelSelector t) (aff_TopologyKey t) candidateValue) machines)"

definition toleration_covers :: "Taint \<Rightarrow> Toleration \<Rightarrow> bool" where
  "toleration_covers taint t =
     (if tol_Key t \<noteq> '''' \<and> tol_Key t \<noteq> taint_Key taint then False
      else if tol_Effect t \<noteq> '''' \<and> tol_Effect t \<noteq> taint_Effect taint then False
      else if tol_Operator t = '''' \<or> tol_Operator t = ''Equal'' then
        \<not> (tol_Key t = '''' \<or> tol_Value t \<noteq> taint_Value taint)
      else tol_Operator t = ''Exists'')"

definition toleratesTaint :: "Toleration list \<Rightarrow> Taint \<Rightarrow> bool" where
  "toleratesTaint tolerations taint = list_ex (toleration_covers taint) tolerations"

definition taintKV :: "Taint \<Rightarrow> string" where
  "taintKV t = (if taint_Value t = '''' then taint_Key t else taint_Key t @ ''='' @ taint_Value t)"

section \<open>Exclusive CPUs\<close>

definition freePinnableCPUs :: "Node \<Rightarrow> Machine list \<Rightarrow> nat list" where
  "freePinnableCPUs n machines =
     (case ParseCPUList (mget (node_labels n) PinnableCPUsLabel) of
        Inl _ \<Rightarrow> []
      | Inr pinnable \<Rightarrow>
          let used = concat (map (res_AllocatedCPUSet \<circ> m_res)
                (filter (\<lambda>other. \<not> (m_node other \<noteq> node_name n \<or> m_deleted other)) machines))
          in filter (\<lambda>cpu. cpu \<notin> set used) pinnable)"

definition AllocateCPUSet :: "Machine \<Rightarrow> Node \<Rightarrow> Machine list \<Rightarrow> nat list res" where
  "AllocateCPUSet m node machines =
     (case ParseVCPUs (res_CPU (m_res m)) of
        Inl e \<Rightarrow> Err (''spec.resources.cpu: '' @ e)
      | Inr requested \<Rightarrow>
          let free = freePinnableCPUs node machines in
          if (of_nat (length free) :: 32 word) < requested then
            Err (''node '' @ Quote (node_name node) @ '' has only '' @ show_nat (length free)
              @ '' free pinnable CPU(s), '' @ m_name m @ '' requests '' @ show_nat (unat requested))
          else Ok (take (unat requested) free))"

section \<open>Hard filters\<close>

fun selector_reason :: "smap \<Rightarrow> smap \<Rightarrow> string option" where
  "selector_reason labels [] = None"
| "selector_reason labels ((k, v) # sel) =
     (if mget labels k \<noteq> v then Some (''nodeSelector '' @ k @ ''='' @ v @ '' not satisfied'')
      else selector_reason labels sel)"

fun taints_reason :: "Toleration list \<Rightarrow> Taint list \<Rightarrow> string option" where
  "taints_reason tols [] = None"
| "taints_reason tols (t # ts) =
     (if taint_Effect t \<noteq> ''NoSchedule'' \<and> taint_Effect t \<noteq> ''NoExecute'' then taints_reason tols ts
      else if \<not> toleratesTaint tols t then
        Some (''untolerated '' @ taint_Effect t @ '' taint '' @ taintKV t)
      else taints_reason tols ts)"

definition pinning_reason :: "Machine \<Rightarrow> Node \<Rightarrow> Machine list \<Rightarrow> string option" where
  "pinning_reason m n machines =
     (if \<not> res_CPUPinning (m_res m) then None
      else case ParseVCPUs (res_CPU (m_res m)) of
        Inl _ \<Rightarrow> Some ''unparseable spec.resources.cpu''
      | Inr requested \<Rightarrow>
          let free = of_nat (length (freePinnableCPUs n machines)) :: 32 word in
          if free < requested then
            Some (''cpuPinning requests '' @ show_nat (unat requested) @ '' vCPU(s), only '' @ show_nat (unat free) @ '' free'')
          else None)"

definition eligible :: "bool \<Rightarrow> Machine \<Rightarrow> Node \<Rightarrow> Node list \<Rightarrow> Machine list \<Rightarrow> NodeLoad \<Rightarrow> string option" where
  \<comment> \<open>None when the node passes every hard filter, otherwise the reason it is excluded\<close>
  "eligible requireCapable m n nodes machines load =
     (let arch = place_Architecture (m_place m) in
      if node_Unschedulable n \<or> \<not> ready n then Some ''node is unschedulable or not Ready''
      else if requireCapable \<and> mget (node_labels n) CapableLabel \<noteq> ''true'' then
        Some (''missing '' @ CapableLabel @ ''=true label'')
      else if arch \<noteq> '''' \<and> mget (node_labels n) ''kubernetes.io/arch'' \<noteq> arch then
        Some (''requires architecture '' @ Quote arch @ '', node is '' @ Quote (mget (node_labels n) ''kubernetes.io/arch''))
      else case selector_reason (node_labels n) (place_NodeSelector (m_place m)) of Some r \<Rightarrow> Some r | None \<Rightarrow>
      if \<not> list_all (termSatisfied m n nodes machines) (place_Affinity (m_place m)) then
        Some ''a required affinity term is not satisfied''
      else if list_ex (termSatisfied m n nodes machines) (place_AntiAffinity (m_place m)) then
        Some ''a required anti-affinity term is violated''
      else case taints_reason (place_Tolerations (m_place m)) (node_Taints n) of Some r \<Rightarrow> Some r | None \<Rightarrow>
      case capacityFits n m load of Some r \<Rightarrow> Some r | None \<Rightarrow>
      pinning_reason m n machines)"

definition bump :: "nat gomap \<Rightarrow> string \<Rightarrow> nat gomap" where
  \<comment> \<open>\<open>m[k]++\<close>\<close>
  "bump m k = mput m k (Suc (case map_of m k of None \<Rightarrow> 0 | Some c \<Rightarrow> c))"

definition summarizeEligibilityReasons :: "nat gomap \<Rightarrow> nat \<Rightarrow> string" where
  "summarizeEligibilityReasons reasons totalNodes =
     (if reasons = [] then ''no nodes were considered (cluster has '' @ show_nat totalNodes @ '' node(s))''
      else Join (map (\<lambda>r. show_nat (case map_of reasons r of None \<Rightarrow> 0 | Some c \<Rightarrow> c) @ '' node(s): '' @ r)
             (sort_by (<) (map fst reasons))) ''; '')"

section \<open>Topology spread\<close>

definition topologySpreadPenalty :: "Machine \<Rightarrow> Node \<Rightarrow> Node list \<Rightarrow> Machine list \<Rightarrow> TopologySpreadConstraint \<Rightarrow> int" where
  "topologySpreadPenalty m n nodes machines c =
     (case map_of (node_labels n) (tsc_TopologyKey c) of
        None \<Rightarrow> 0
      | Some candidateValue \<Rightarrow>
          int (length (filter (counts_in_domain m nodes (tsc_LabelSelector c) (tsc_TopologyKey c) candidateValue) machines)))"

definition add_domain :: "string \<Rightarrow> nat gomap \<Rightarrow> Node \<Rightarrow> nat gomap" where
  "add_domain key counts cand =
     (case map_of (node_labels cand) key of
        None \<Rightarrow> counts
      | Some v \<Rightarrow> if map_of counts v = None then mput counts v 0 else counts)"

definition count_machine :: "Machine \<Rightarrow> TopologySpreadConstraint \<Rightarrow> Node list \<Rightarrow> nat gomap \<Rightarrow> Machine \<Rightarrow> nat gomap" where
  "count_machine m c nodes counts other =
     (if same_machine other m then counts
      else if m_node other = '''' \<or> \<not> LabelsMatch (m_labels other) (tsc_LabelSelector c) then counts
      else case nodeLabelValue nodes (m_node other) (tsc_TopologyKey c) of
             None \<Rightarrow> counts
           | Some v \<Rightarrow> if map_of counts v = None then counts else bump counts v)"

definition topologyDomainCounts :: "Machine \<Rightarrow> TopologySpreadConstraint \<Rightarrow> Node list \<Rightarrow> Node list \<Rightarrow> Machine list \<Rightarrow> nat gomap" where
  "topologyDomainCounts m c candidates nodes machines =
     foldl (count_machine m c nodes) (foldl (add_domain (tsc_TopologyKey c)) [] candidates) machines"

definition domain_count :: "nat gomap \<Rightarrow> string \<Rightarrow> nat" where
  "domain_count counts v = (case map_of counts v of None \<Rightarrow> 0 | Some c \<Rightarrow> c)"

definition min_step :: "string \<Rightarrow> nat \<times> bool \<Rightarrow> string \<times> nat \<Rightarrow> nat \<times> bool" where
  "min_step target s e =
     (case (s, e) of ((mn, found), (k, c)) \<Rightarrow>
        if k = target then (mn, found) else if \<not> found \<or> c < mn then (c, True) else (mn, found))"

definition minAfterPlacingOn :: "nat gomap \<Rightarrow> string \<Rightarrow> nat" where
  "minAfterPlacingOn counts target =
     fst (foldl (min_step target) (domain_count counts target + 1, False) counts)"

definition hard_constraints :: "Machine \<Rightarrow> TopologySpreadConstraint list" where
  "hard_constraints m = filter (\<lambda>c. tsc_WhenUnsatisfiable c = ''DoNotSchedule'') (place_TopologySpreadConstraints (m_place m))"

definition skew_ok :: "nat gomap \<Rightarrow> TopologySpreadConstraint \<Rightarrow> Node \<Rightarrow> bool" where
  "skew_ok counts c n =
     (case map_of (node_labels n) (tsc_TopologyKey c) of
        None \<Rightarrow> True
      | Some v \<Rightarrow> \<not> tsc_MaxSkew c < int (domain_count counts v + 1) - int (minAfterPlacingOn counts v))"

definition filterMaxSkew :: "Machine \<Rightarrow> Node list \<Rightarrow> Node list \<Rightarrow> Machine list \<Rightarrow> Node list" where
  "filterMaxSkew m candidates nodes machines =
     (let hard = hard_constraints m in
      if hard = [] then candidates
      else let counts = map (\<lambda>c. topologyDomainCounts m c candidates nodes machines) hard
           in filter (\<lambda>n. list_all (\<lambda>(cs, c). skew_ok cs c n) (zip counts hard)) candidates)"

section \<open>Scores and the choice\<close>

definition draPreferenceWeight :: int where "draPreferenceWeight = 5"
definition preferNoScheduleTaintPenalty :: int where "preferNoScheduleTaintPenalty = 5"

definition score :: "Machine \<Rightarrow> Node \<Rightarrow> Node list \<Rightarrow> Machine list \<Rightarrow> NodeLoad \<Rightarrow> string \<Rightarrow> int" where
  "score m n nodes machines load draPreferredNode =
     (let sc = remainingCapacityScore n m load;
          sc = foldl (\<lambda>sc wt. if termSatisfied m n nodes machines (waff_Term wt) then sc + waff_Weight wt else sc)
                 sc (place_PreferredAffinity (m_place m));
          sc = foldl (\<lambda>sc wt. if termSatisfied m n nodes machines (waff_Term wt) then sc - waff_Weight wt else sc)
                 sc (place_PreferredAntiAffinity (m_place m));
          sc = foldl (\<lambda>sc c. sc - topologySpreadPenalty m n nodes machines c)
                 sc (place_TopologySpreadConstraints (m_place m));
          sc = foldl (\<lambda>sc taint. if taint_Effect taint = ''PreferNoSchedule'' \<and> \<not> toleratesTaint (place_Tolerations (m_place m)) taint
                        then sc - preferNoScheduleTaintPenalty else sc)
                 sc (node_Taints n)
      in if draPreferredNode \<noteq> '''' \<and> node_name n = draPreferredNode then sc + draPreferenceWeight else sc)"

fun best_nodes :: "(Node \<Rightarrow> int) \<Rightarrow> bool \<Rightarrow> int \<Rightarrow> Node list \<Rightarrow> Node list \<Rightarrow> Node list" where
  \<comment> \<open>the loop over the eligible nodes; the flag is \<open>i == 0\<close>\<close>
  "best_nodes sc first bestScore best [] = best"
| "best_nodes sc first bestScore best (n # ns) =
     (if first \<or> bestScore < sc n then best_nodes sc False (sc n) [n] ns
      else if sc n = bestScore then best_nodes sc False bestScore (best @ [n]) ns
      else best_nodes sc False bestScore best ns)"

definition pre_skew :: "bool \<Rightarrow> Machine \<Rightarrow> Node list \<Rightarrow> Machine list \<Rightarrow> loadmap \<Rightarrow> Node list" where
  "pre_skew requireCapable m nodes machines load =
     filter (\<lambda>n. eligible requireCapable m n nodes machines (load_of load (node_name n)) = None) nodes"

definition eligibility_reasons :: "bool \<Rightarrow> Machine \<Rightarrow> Node list \<Rightarrow> Machine list \<Rightarrow> loadmap \<Rightarrow> nat gomap" where
  "eligibility_reasons requireCapable m nodes machines load =
     foldl (\<lambda>reasons n. case eligible requireCapable m n nodes machines (load_of load (node_name n)) of
              None \<Rightarrow> reasons | Some reason \<Rightarrow> bump reasons reason) [] nodes"

definition candidates :: "bool \<Rightarrow> Machine \<Rightarrow> Node list \<Rightarrow> Machine list \<Rightarrow> loadmap \<Rightarrow> Node list" where
  \<comment> \<open>the nodes that pass the hard filters and the spread limits\<close>
  "candidates requireCapable m nodes machines load =
     filterMaxSkew m (pre_skew requireCapable m nodes machines load) nodes machines"

definition Choose :: "bool \<Rightarrow> Machine \<Rightarrow> Node list \<Rightarrow> Machine list \<Rightarrow> loadmap \<Rightarrow> string \<Rightarrow> string res" where
  "Choose requireCapable m nodes machines load draPreferredNode =
     (if pre_skew requireCapable m nodes machines load = [] then
        Err (''no Ready Kairon-capable nodes match placement constraints: ''
          @ summarizeEligibilityReasons (eligibility_reasons requireCapable m nodes machines load) (length nodes))
      else if candidates requireCapable m nodes machines load = [] then
        Err ''no node satisfies topologySpreadConstraints maxSkew (whenUnsatisfiable: DoNotSchedule)''
      else
        let elig = sort_by (\<lambda>a b. node_name a < node_name b) (candidates requireCapable m nodes machines load);
            best = best_nodes (\<lambda>n. score m n nodes machines (load_of load (node_name n)) draPreferredNode) True 0 [] elig
        in if length best = 1 then Ok (node_name (best ! 0))
           else Ok (node_name (best ! (unat (fnv32a (m_key m)) mod length best))))"

definition SortByPriorityDesc :: "Machine list \<Rightarrow> Machine list" where
  "SortByPriorityDesc pending = sort_by (\<lambda>a b. m_priority b < m_priority a) pending"

section \<open>The choice is a candidate of the greatest score\<close>

lemma best_nodes_run:
  assumes "\<forall>n \<in> set ns. sc n \<le> b'" "b \<le> b'" "b' = b \<or> b' \<in> sc ` set ns"
  shows "best_nodes sc False b best ns = (if b' = b then best else []) @ filter (\<lambda>n. sc n = b') ns"
  using assms
proof (induction ns arbitrary: b best)
  case (Cons n ns)
  consider "b < sc n" | "sc n = b" | "sc n < b" by linarith
  then show ?case
  proof cases
    case 1
    moreover have "b' = sc n \<or> b' \<in> sc ` set ns" using 1 Cons.prems by auto
    ultimately show ?thesis using Cons by auto
  next
    case 2
    then show ?thesis using Cons by auto
  next
    case 3
    then show ?thesis using Cons by auto
  qed
qed simp

lemma best_nodes_max:
  assumes "ns \<noteq> []"
  shows "best_nodes sc True b best ns = filter (\<lambda>n. sc n = Max (sc ` set ns)) ns"
proof -
  obtain n ms where ns: "ns = n # ms" using assms by (cases ns) auto
  let ?M = "Max (sc ` set ns)"
  have "\<forall>x \<in> set ms. sc x \<le> ?M" "sc n \<le> ?M" using ns by auto
  moreover have "?M \<in> sc ` set ns" using assms by (intro Max_in) auto
  then have "?M = sc n \<or> ?M \<in> sc ` set ms" using ns by auto
  ultimately have "best_nodes sc False (sc n) [n] ms = (if ?M = sc n then [n] else []) @ filter (\<lambda>x. sc x = ?M) ms"
    by (rule best_nodes_run)
  then show ?thesis using ns by auto
qed

lemma best_nodes_nonempty:
  assumes "ns \<noteq> []"
  shows "best_nodes sc True b best ns \<noteq> []"
proof -
  have "Max (sc ` set ns) \<in> sc ` set ns" using assms by (intro Max_in) auto
  then show ?thesis by (auto simp: best_nodes_max [OF assms] filter_empty_conv)
qed

text \<open>The score a candidate is compared by.\<close>

abbreviation node_score :: "Machine \<Rightarrow> Node list \<Rightarrow> Machine list \<Rightarrow> loadmap \<Rightarrow> string \<Rightarrow> Node \<Rightarrow> int" where
  "node_score m nodes machines load dra n \<equiv> score m n nodes machines (load_of load (node_name n)) dra"

lemma Choose_Ok:
  assumes "Choose rc m nodes machines load dra = Ok name"
  obtains n where "n \<in> set (candidates rc m nodes machines load)" "node_name n = name"
    "\<forall>n' \<in> set (candidates rc m nodes machines load).
       node_score m nodes machines load dra n' \<le> node_score m nodes machines load dra n"
proof -
  let ?C = "candidates rc m nodes machines load"
  let ?E = "sort_by (\<lambda>a b. node_name a < node_name b) ?C"
  let ?sc = "node_score m nodes machines load dra"
  let ?B = "best_nodes ?sc True 0 [] ?E"
  have C: "?C \<noteq> []" using assms by (auto simp: Choose_def split: if_splits)
  have E: "?E \<noteq> []" "set ?E = set ?C" using C by (simp_all add: sort_laws)
  have B: "?B = filter (\<lambda>n. ?sc n = Max (?sc ` set ?E)) ?E" using E(1) by (rule best_nodes_max)
  have ne: "?B \<noteq> []" using E(1) by (rule best_nodes_nonempty)
  define i where "i = (if length ?B = 1 then 0 else unat (fnv32a (m_key m)) mod length ?B)"
  have "i < length ?B" using ne by (auto simp: i_def)
  then have "?B ! i \<in> set ?B" by (rule nth_mem)
  then have n: "?B ! i \<in> set ?C" "?sc (?B ! i) = Max (?sc ` set ?C)"
    using E(2) unfolding B by auto
  moreover have "node_name (?B ! i) = name"
    using assms by (simp add: Choose_def i_def Let_def split: if_splits)
  ultimately show thesis using that [of "?B ! i"] by simp
qed

lemma Choose_Err_iff:
  "(\<exists>e. Choose rc m nodes machines load dra = Err e) \<longleftrightarrow> candidates rc m nodes machines load = []"
proof -
  have "pre_skew rc m nodes machines load = [] \<Longrightarrow> candidates rc m nodes machines load = []"
    by (simp add: candidates_def filterMaxSkew_def Let_def)
  then show ?thesis by (auto simp: Choose_def Let_def)
qed

lemma filterMaxSkew_subset: "set (filterMaxSkew m cs nodes machines) \<subseteq> set cs"
  by (auto simp: filterMaxSkew_def Let_def)

lemma candidates_eligible:
  "n \<in> set (candidates rc m nodes machines load) \<Longrightarrow>
   n \<in> set nodes \<and> eligible rc m n nodes machines (load_of load (node_name n)) = None"
  using filterMaxSkew_subset [of m "pre_skew rc m nodes machines load" nodes machines]
  by (auto simp: candidates_def pre_skew_def)

section \<open>What the hard filters require\<close>

lemma Choose_only_node:
  assumes "eligible rc m n [n] machines (load_of load (node_name n)) = None" "hard_constraints m = []"
  shows "Choose rc m [n] machines load hint = Ok (node_name n)"
  using assms by (simp add: Choose_def pre_skew_def candidates_def filterMaxSkew_def)

lemma selector_reason_None: "selector_reason labels sel = None \<longleftrightarrow> (\<forall>(k, v) \<in> set sel. mget labels k = v)"
  by (induction labels sel rule: selector_reason.induct) auto

lemma taints_reason_None:
  "taints_reason tols ts = None \<longleftrightarrow>
   (\<forall>t \<in> set ts. taint_Effect t \<in> {''NoSchedule'', ''NoExecute''} \<longrightarrow> toleratesTaint tols t)"
  by (induction ts) auto

lemma eligible_None:
  "eligible rc m n nodes machines load = None \<longleftrightarrow>
     \<not> node_Unschedulable n \<and> ready n
     \<and> (rc \<longrightarrow> mget (node_labels n) CapableLabel = ''true'')
     \<and> (place_Architecture (m_place m) \<noteq> '''' \<longrightarrow> mget (node_labels n) ''kubernetes.io/arch'' = place_Architecture (m_place m))
     \<and> (\<forall>(k, v) \<in> set (place_NodeSelector (m_place m)). mget (node_labels n) k = v)
     \<and> (\<forall>t \<in> set (place_Affinity (m_place m)). termSatisfied m n nodes machines t)
     \<and> (\<forall>t \<in> set (place_AntiAffinity (m_place m)). \<not> termSatisfied m n nodes machines t)
     \<and> (\<forall>t \<in> set (node_Taints n). taint_Effect t \<in> {''NoSchedule'', ''NoExecute''}
          \<longrightarrow> toleratesTaint (place_Tolerations (m_place m)) t)
     \<and> capacityFits n m load = None \<and> pinning_reason m n machines = None"
  unfolding eligible_def Let_def selector_reason_None [symmetric] taints_reason_None [symmetric]
  by (auto simp: list_all_iff list_ex_iff split: option.splits)

lemma pinning_reason_None:
  "pinning_reason m n machines = None \<longleftrightarrow>
     (res_CPUPinning (m_res m) \<longrightarrow> (\<exists>requested. ParseVCPUs (res_CPU (m_res m)) = Ok requested
        \<and> requested \<le> of_nat (length (freePinnableCPUs n machines))))"
  by (auto simp: pinning_reason_def Let_def not_less split: sum.splits)

section \<open>The spread limit\<close>

definition domain_load :: "Machine \<Rightarrow> Node list \<Rightarrow> Machine list \<Rightarrow> TopologySpreadConstraint \<Rightarrow> string \<Rightarrow> nat" where
  \<comment> \<open>how many other matching Machines sit in a domain\<close>
  "domain_load m nodes machines c d =
     length (filter (counts_in_domain m nodes (tsc_LabelSelector c) (tsc_TopologyKey c) d) machines)"

definition domains :: "TopologySpreadConstraint \<Rightarrow> Node list \<Rightarrow> string set" where
  "domains c cands = {d. \<exists>n \<in> set cands. map_of (node_labels n) (tsc_TopologyKey c) = Some d}"

lemma map_of_bump: "map_of (bump m k) k' = (if k' = k then Some (Suc (domain_count m k)) else map_of m k')"
  by (simp add: bump_def domain_count_def)

lemma add_domains:
  "map_of (foldl (add_domain key) counts cands) d =
     (if map_of counts d = None \<and> (\<exists>n \<in> set cands. map_of (node_labels n) key = Some d) then Some 0 else map_of counts d)"
proof (induction cands arbitrary: counts)
  case (Cons n cands)
  show ?case by (simp add: Cons.IH) (auto simp: add_domain_def split: option.splits if_splits)
qed simp

lemma distinct_add_domains: "distinct (map fst counts) \<Longrightarrow> distinct (map fst (foldl (add_domain key) counts cands))"
  by (induction cands arbitrary: counts) (auto simp: add_domain_def distinct_mput split: option.splits)

lemma map_of_count_machine:
  "map_of (count_machine m c nodes counts other) d =
     (if counts_in_domain m nodes (tsc_LabelSelector c) (tsc_TopologyKey c) d other
      then map_option Suc (map_of counts d) else map_of counts d)"
  by (auto simp: count_machine_def counts_in_domain_def map_of_bump domain_count_def split: option.splits)

lemma count_machines:
  "map_of (foldl (count_machine m c nodes) counts machines) d =
     map_option ((+) (domain_load m nodes machines c d)) (map_of counts d)"
proof (induction machines arbitrary: counts)
  case Nil
  then show ?case by (cases "map_of counts d") (simp_all add: domain_load_def)
next
  case (Cons other machines)
  show ?case
    by (cases "map_of counts d") (simp_all add: Cons.IH map_of_count_machine domain_load_def)
qed

lemma distinct_count_machines:
  "distinct (map fst counts) \<Longrightarrow> distinct (map fst (foldl (count_machine m c nodes) counts machines))"
  by (induction machines arbitrary: counts)
     (auto simp: count_machine_def bump_def distinct_mput split: option.splits)

lemma topologyDomainCounts_correct:
  "map_of (topologyDomainCounts m c cands nodes machines) d =
     (if d \<in> domains c cands then Some (domain_load m nodes machines c d) else None)"
  by (simp add: topologyDomainCounts_def count_machines add_domains domains_def)

lemma topologyDomainCounts_distinct: "distinct (map fst (topologyDomainCounts m c cands nodes machines))"
  by (simp add: topologyDomainCounts_def distinct_count_machines distinct_add_domains)

lemma min_step_pair:
  "min_step t (mn, found) e =
     (if fst e = t then (mn, found) else if \<not> found \<or> snd e < mn then (snd e, True) else (mn, found))"
  by (simp add: min_step_def split: prod.split)

lemma min_step_found:
  "foldl (min_step t) (mn, True) es = (Min (set (mn # map snd (filter (\<lambda>e. fst e \<noteq> t) es))), True)"
  unfolding Min.set_eq_fold by (induction es arbitrary: mn) (auto simp: min_step_pair min_def)

lemma min_step_run:
  "foldl (min_step t) (mn, False) es =
     (let os = map snd (filter (\<lambda>e. fst e \<noteq> t) es) in if os = [] then (mn, False) else (Min (set os), True))"
  by (induction es) (auto simp: min_step_pair min_step_found Let_def)

lemma minAfterPlacingOn_Min:
  "minAfterPlacingOn counts t =
     (if \<forall>e \<in> set counts. fst e = t then domain_count counts t + 1
      else Min (snd ` {e \<in> set counts. fst e \<noteq> t}))"
  by (auto simp: minAfterPlacingOn_def min_step_run Let_def filter_empty_conv)

lemma le_minAfterPlacingOn:
  assumes "k \<le> domain_count counts t + 1"
  shows "k \<le> minAfterPlacingOn counts t \<longleftrightarrow> (\<forall>e \<in> set counts. fst e \<noteq> t \<longrightarrow> k \<le> snd e)"
proof (cases "\<forall>e \<in> set counts. fst e = t")
  case True
  with assms show ?thesis by (simp add: minAfterPlacingOn_Min)
next
  case False
  then have "{e \<in> set counts. fst e \<noteq> t} \<noteq> {}" by auto
  then have "k \<le> Min (snd ` {e \<in> set counts. fst e \<noteq> t}) \<longleftrightarrow> (\<forall>x \<in> snd ` {e \<in> set counts. fst e \<noteq> t}. k \<le> x)"
    by (intro Min_ge_iff) auto
  then show ?thesis using False by (simp add: minAfterPlacingOn_Min) auto
qed

text \<open>
  A node passes a constraint exactly when, counting the new Machine, its domain holds at
  most \<open>maxSkew\<close> more matching Machines than any domain of the candidates.
\<close>

definition skew_within :: "Machine \<Rightarrow> Node list \<Rightarrow> Node list \<Rightarrow> Machine list \<Rightarrow> TopologySpreadConstraint \<Rightarrow> Node \<Rightarrow> bool" where
  "skew_within m cands nodes machines c n \<longleftrightarrow>
     (\<forall>v. map_of (node_labels n) (tsc_TopologyKey c) = Some v \<longrightarrow>
       (\<forall>d \<in> domains c cands.
          int (domain_load m nodes machines c v + 1) - int (domain_load m nodes machines c d + (if d = v then 1 else 0))
            \<le> tsc_MaxSkew c))"

lemma skew_ok_iff:
  assumes n: "n \<in> set cands" and s: "0 \<le> tsc_MaxSkew c"
  shows "skew_ok (topologyDomainCounts m c cands nodes machines) c n \<longleftrightarrow> skew_within m cands nodes machines c n"
proof (cases "map_of (node_labels n) (tsc_TopologyKey c)")
  case None
  then show ?thesis by (simp add: skew_ok_def skew_within_def)
next
  case (Some v)
  let ?cs = "topologyDomainCounts m c cands nodes machines"
  let ?D = "domain_load m nodes machines c"
  have v: "v \<in> domains c cands" using n Some by (auto simp: domains_def)
  have cv: "domain_count ?cs v = ?D v" by (simp add: domain_count_def topologyDomainCounts_correct v)
  have mem: "(d, x) \<in> set ?cs \<longleftrightarrow> d \<in> domains c cands \<and> x = ?D d" for d x
    using map_of_eq_Some_iff [OF topologyDomainCounts_distinct, of m c cands nodes machines d x]
    by (auto simp: topologyDomainCounts_correct split: if_splits)
  let ?k = "nat (int (?D v + 1) - tsc_MaxSkew c)"
  have "skew_ok ?cs c n \<longleftrightarrow> ?k \<le> minAfterPlacingOn ?cs v"
    by (simp add: skew_ok_def Some cv) linarith
  also have "\<dots> \<longleftrightarrow> (\<forall>e \<in> set ?cs. fst e \<noteq> v \<longrightarrow> ?k \<le> snd e)"
    using s by (intro le_minAfterPlacingOn) (simp add: cv)
  also have "\<dots> \<longleftrightarrow> (\<forall>d \<in> domains c cands. d \<noteq> v \<longrightarrow> ?k \<le> ?D d)"
    using mem by force
  also have "\<dots> \<longleftrightarrow> skew_within m cands nodes machines c n"
    using s by (auto simp: skew_within_def Some split: if_splits)
  finally show ?thesis .
qed

lemma filterMaxSkew_iff:
  assumes "\<forall>c \<in> set (hard_constraints m). 0 \<le> tsc_MaxSkew c"
  shows "n \<in> set (filterMaxSkew m cands nodes machines) \<longleftrightarrow>
    n \<in> set cands \<and> (\<forall>c \<in> set (hard_constraints m). skew_within m cands nodes machines c n)"
proof -
  have z: "zip (map f xs) xs = map (\<lambda>x. (f x, x)) xs" for f :: "TopologySpreadConstraint \<Rightarrow> nat gomap" and xs
    by (induction xs) auto
  have "n \<in> set (filterMaxSkew m cands nodes machines) \<longleftrightarrow>
    n \<in> set cands \<and> (\<forall>c \<in> set (hard_constraints m). skew_ok (topologyDomainCounts m c cands nodes machines) c n)"
    by (auto simp: filterMaxSkew_def Let_def z list_all_iff)
  then show ?thesis using assms skew_ok_iff by blast
qed

section \<open>Exclusive CPUs and the order of placement\<close>

interpretation prio: weak_order "\<lambda>a b. m_priority b < m_priority a"
  by unfold_locales auto

interpretation by_name: key_order node_name .

lemma freePinnableCPUs_free:
  assumes "c \<in> set (freePinnableCPUs n machines)"
  shows "\<exists>cpus. ParseCPUList (mget (node_labels n) PinnableCPUsLabel) = Ok cpus \<and> c \<in> set cpus"
    and "\<forall>other \<in> set machines. m_node other = node_name n \<and> \<not> m_deleted other \<longrightarrow> c \<notin> set (res_AllocatedCPUSet (m_res other))"
proof -
  obtain cpus where p: "ParseCPUList (mget (node_labels n) PinnableCPUsLabel) = Ok cpus"
    using assms by (cases "ParseCPUList (mget (node_labels n) PinnableCPUsLabel)") (simp_all add: freePinnableCPUs_def)
  with assms show "\<exists>cpus. ParseCPUList (mget (node_labels n) PinnableCPUsLabel) = Ok cpus \<and> c \<in> set cpus"
    "\<forall>other \<in> set machines. m_node other = node_name n \<and> \<not> m_deleted other \<longrightarrow> c \<notin> set (res_AllocatedCPUSet (m_res other))"
    by (auto simp: freePinnableCPUs_def)
qed

lemma freePinnableCPUs_distinct: "distinct (freePinnableCPUs n machines)"
  by (auto simp: freePinnableCPUs_def Let_def strict_sorted_iff dest: ParseCPUList_sorted split: sum.splits)

lemma AllocateCPUSet_Ok:
  assumes "AllocateCPUSet m n machines = Ok cpus"
  shows "\<exists>requested. ParseVCPUs (res_CPU (m_res m)) = Ok requested \<and> length cpus = unat requested"
    and "distinct cpus" and "set cpus \<subseteq> set (freePinnableCPUs n machines)"
proof -
  obtain r where r: "ParseVCPUs (res_CPU (m_res m)) = Ok r" "cpus = take (unat r) (freePinnableCPUs n machines)"
    "\<not> (of_nat (length (freePinnableCPUs n machines)) :: 32 word) < r"
    using assms by (auto simp: AllocateCPUSet_def Let_def split: sum.splits if_splits)
  have "unat r \<le> unat (of_nat (length (freePinnableCPUs n machines)) :: 32 word)"
    using r(3) by (simp add: not_less word_le_nat_alt)
  also have "\<dots> \<le> length (freePinnableCPUs n machines)" by (simp add: unat_of_nat)
  finally show "\<exists>requested. ParseVCPUs (res_CPU (m_res m)) = Ok requested \<and> length cpus = unat requested"
    using r by simp
  show "distinct cpus" "set cpus \<subseteq> set (freePinnableCPUs n machines)"
    using r(2) by (auto simp: freePinnableCPUs_distinct dest: in_set_takeD)
qed

lemma eligible_AllocateCPUSet:
  assumes "eligible rc m n nodes machines load = None" "res_CPUPinning (m_res m)"
  shows "\<exists>cpus. AllocateCPUSet m n machines = Ok cpus"
proof -
  have "pinning_reason m n machines = None" using assms(1) by (simp only: eligible_None)
  with assms(2) show ?thesis by (auto simp: pinning_reason_None AllocateCPUSet_def Let_def not_less)
qed

section \<open>Properties\<close>

definition ready_node :: "string \<Rightarrow> smap \<Rightarrow> smap \<Rightarrow> Node" where
  "ready_node name labels alloc = Node0\<lparr>
     node_Metadata := ObjectMeta0\<lparr>meta_Name := name, meta_Labels := labels\<rparr>,
     node_Status := \<lparr>nst_Conditions = [\<lparr>ncond_Type = ''Ready'', ncond_Status = ''True''\<rparr>],
       nst_Addresses = [], nst_Allocatable = alloc\<rparr>\<rparr>"

definition plain_machine :: "string \<Rightarrow> string \<Rightarrow> string \<Rightarrow> Machine" where
  "plain_machine name cpu mem = Machine0\<lparr>
     mach_Metadata := ObjectMeta0\<lparr>meta_Name := name\<rparr>,
     mach_Spec := (mach_Spec Machine0)\<lparr>spec_Resources := ResourceSpec0\<lparr>res_CPU := cpu, res_Memory := mem,
       res_CPUPinning := False, res_AllocatedCPUSet := []\<rparr>\<rparr>\<rparr>"

lemmas example_defs = ready_node_def plain_machine_def Node0_def Machine0_def ObjectMeta0_def

text \<open>
  C6. \<open>Choose\<close> returns the name of a node of the cluster that passes every hard filter for
  the load it was given, keeps every \<open>DoNotSchedule\<close> spread limit, and has the greatest
  score of all the nodes that do.
\<close>

theorem choose_picks_best_candidate:
  assumes "Choose rc m nodes machines load dra = Ok name"
  shows "\<exists>n \<in> set nodes. node_name n = name
    \<and> eligible rc m n nodes machines (load_of load name) = None
    \<and> n \<in> set (filterMaxSkew m (pre_skew rc m nodes machines load) nodes machines)
    \<and> (\<forall>n' \<in> set (candidates rc m nodes machines load).
         node_score m nodes machines load dra n' \<le> node_score m nodes machines load dra n)"
proof -
  obtain n where n: "n \<in> set (candidates rc m nodes machines load)" "node_name n = name"
    "\<forall>n' \<in> set (candidates rc m nodes machines load).
       node_score m nodes machines load dra n' \<le> node_score m nodes machines load dra n"
    using Choose_Ok [OF assms] .
  from candidates_eligible [OF n(1)] n show ?thesis by (auto simp: candidates_def)
qed

definition two_nodes :: "Node list" where
  "two_nodes = [ready_node ''b'' [] [], ready_node ''a'' [] []]"

lemma choose_example: "Choose False (plain_machine ''vm'' '''' '''') two_nodes [] [(''a'', NodeLoad0\<lparr>load_Count := 1\<rparr>)] '''' = Ok ''b''"
  by (simp add: Choose_def pre_skew_def candidates_def filterMaxSkew_def hard_constraints_def eligible_None
      two_nodes_def example_defs ready_def capacityFits_def nodeAllocatable_def pinning_reason_def
      score_def remainingCapacityScore_def load_of_def NodeLoad0_def less_char_def)

theorem choose_picks_best_candidate_witness:
  "\<exists>n \<in> set two_nodes. node_name n = ''b''"
  using choose_picks_best_candidate [OF choose_example] by blast

text \<open>
  \<open>Choose\<close> finds a node whenever there is one: it fails exactly when no node of the
  cluster passes the hard filters and the spread limits.
\<close>

theorem choose_fails_only_without_candidates:
  "(\<exists>e. Choose rc m nodes machines load dra = Err e)
     = (filterMaxSkew m (filter (\<lambda>n. eligible rc m n nodes machines (load_of load (node_name n)) = None) nodes)
          nodes machines = [])"
  using Choose_Err_iff by (simp add: candidates_def pre_skew_def)

text \<open>
  The hard filters are exactly the documented ones: a node is eligible when it is
  schedulable and Ready, carries the capable label if that is required, has the requested
  architecture and every node selector label, satisfies every required affinity and no
  required anti-affinity term, has no \<open>NoSchedule\<close> or \<open>NoExecute\<close> taint that no toleration
  covers, has room for the Machine, and has enough free CPUs when they are pinned.
\<close>

theorem eligible_iff_constraints:
  "eligible rc m n nodes machines load = None \<longleftrightarrow>
     \<not> node_Unschedulable n \<and> ready n
     \<and> (rc \<longrightarrow> mget (node_labels n) CapableLabel = ''true'')
     \<and> (place_Architecture (m_place m) \<noteq> '''' \<longrightarrow> mget (node_labels n) ''kubernetes.io/arch'' = place_Architecture (m_place m))
     \<and> (\<forall>(k, v) \<in> set (place_NodeSelector (m_place m)). mget (node_labels n) k = v)
     \<and> (\<forall>t \<in> set (place_Affinity (m_place m)). termSatisfied m n nodes machines t)
     \<and> (\<forall>t \<in> set (place_AntiAffinity (m_place m)). \<not> termSatisfied m n nodes machines t)
     \<and> (\<forall>t \<in> set (node_Taints n). taint_Effect t \<in> {''NoSchedule'', ''NoExecute''}
          \<longrightarrow> toleratesTaint (place_Tolerations (m_place m)) t)
     \<and> capacityFits n m load = None
     \<and> (res_CPUPinning (m_res m) \<longrightarrow> (\<exists>requested. ParseVCPUs (res_CPU (m_res m)) = Ok requested
          \<and> requested \<le> of_nat (length (freePinnableCPUs n machines))))"
  unfolding eligible_None pinning_reason_None ..

theorem eligible_iff_constraints_witness:
  "eligible True (plain_machine ''vm'' '''' '''') (ready_node ''a'' [(CapableLabel, ''true'')] []) [] [] NodeLoad0 = None"
  using eligible_iff_constraints [of True "plain_machine ''vm'' '''' ''''" "ready_node ''a'' [(CapableLabel, ''true'')] []" "[]" "[]" NodeLoad0]
  by (simp add: example_defs ready_def mget_def capacityFits_def nodeAllocatable_def)

text \<open>
  C28. The spread filter keeps a candidate exactly when, for every \<open>DoNotSchedule\<close>
  constraint whose key the node carries, placing the Machine there leaves its domain with
  at most \<open>maxSkew\<close> matching Machines more than any domain of the candidates.
\<close>

theorem max_skew_exact:
  assumes "\<forall>c \<in> set (hard_constraints m). 0 \<le> tsc_MaxSkew c"
  shows "n \<in> set (filterMaxSkew m cands nodes machines) \<longleftrightarrow>
    n \<in> set cands \<and> (\<forall>c \<in> set (hard_constraints m). \<forall>v. map_of (node_labels n) (tsc_TopologyKey c) = Some v \<longrightarrow>
       (\<forall>d \<in> domains c cands.
          int (domain_load m nodes machines c v + 1) - int (domain_load m nodes machines c d + (if d = v then 1 else 0))
            \<le> tsc_MaxSkew c))"
  using filterMaxSkew_iff [OF assms] by (simp add: skew_within_def)

definition spread_machine :: "string \<Rightarrow> string \<Rightarrow> Machine" where
  "spread_machine name node = Machine0\<lparr>
     mach_Metadata := ObjectMeta0\<lparr>meta_Name := name, meta_Labels := [(''app'', ''db'')]\<rparr>,
     mach_Spec := (mach_Spec Machine0)\<lparr>spec_NodeName := node, spec_Placement := (m_place Machine0)\<lparr>
       place_TopologySpreadConstraints := [\<lparr>tsc_TopologyKey = ''zone'', tsc_LabelSelector = [(''app'', ''db'')],
         tsc_MaxSkew = 1, tsc_WhenUnsatisfiable = ''DoNotSchedule''\<rparr>]\<rparr>\<rparr>\<rparr>"

definition zone_nodes :: "Node list" where
  "zone_nodes = [ready_node ''a'' [(''zone'', ''z1'')] [], ready_node ''b'' [(''zone'', ''z2'')] []]"

theorem max_skew_exact_witness:
  "hd zone_nodes \<notin> set (filterMaxSkew (spread_machine ''n'' '''') zone_nodes zone_nodes [spread_machine ''o'' ''a''])"
proof -
  let ?m = "spread_machine ''n'' ''''" and ?ms = "[spread_machine ''o'' ''a'']"
  let ?c = "\<lparr>tsc_TopologyKey = ''zone'', tsc_LabelSelector = [(''app'', ''db'')], tsc_MaxSkew = 1,
     tsc_WhenUnsatisfiable = ''DoNotSchedule''\<rparr>"
  have h: "hard_constraints ?m = [?c]" by code_simp
  have d: "domain_load ?m zone_nodes ?ms ?c ''z1'' = 1" "domain_load ?m zone_nodes ?ms ?c ''z2'' = 0" by code_simp+
  have l: "map_of (node_labels (hd zone_nodes)) ''zone'' = Some ''z1''" by code_simp
  have "''z2'' \<in> domains ?c zone_nodes" by (simp add: domains_def zone_nodes_def ready_node_def)
  with l d show ?thesis by (subst max_skew_exact) (auto simp: h intro!: bexI [where x = "''z2''"])
qed

text \<open>
  C29. The CPUs given to a pinned Machine are as many as it asks for, distinct, among those
  the node's label declares pinnable, and none of them is allocated to a Machine that is
  assigned to the node and not being deleted; and a node that passed the hard filters for
  a pinned Machine always has them.
\<close>

theorem allocated_cpus_exclusive:
  assumes "AllocateCPUSet m n machines = Ok cpus"
  shows "(\<exists>requested. ParseVCPUs (res_CPU (m_res m)) = Ok requested \<and> length cpus = unat requested)
    \<and> distinct cpus
    \<and> (\<exists>pinnable. cpus = [] \<or> ParseCPUList (mget (node_labels n) PinnableCPUsLabel) = Ok pinnable \<and> set cpus \<subseteq> set pinnable)
    \<and> (\<forall>other \<in> set machines. m_node other = node_name n \<and> \<not> m_deleted other
         \<longrightarrow> set cpus \<inter> set (res_AllocatedCPUSet (m_res other)) = {})
    \<and> (\<forall>rc nodes load m'. eligible rc m' n nodes machines load = None \<and> res_CPUPinning (m_res m')
         \<longrightarrow> (\<exists>cpus'. AllocateCPUSet m' n machines = Ok cpus'))"
proof (intro conjI)
  note A = AllocateCPUSet_Ok [OF assms]
  show "\<exists>requested. ParseVCPUs (res_CPU (m_res m)) = Ok requested \<and> length cpus = unat requested" "distinct cpus"
    using A by blast+
  show "\<exists>pinnable. cpus = [] \<or> ParseCPUList (mget (node_labels n) PinnableCPUsLabel) = Ok pinnable \<and> set cpus \<subseteq> set pinnable"
  proof (cases "ParseCPUList (mget (node_labels n) PinnableCPUsLabel)")
    case (Inl e)
    then have "freePinnableCPUs n machines = []" by (simp add: freePinnableCPUs_def)
    with A(3) show ?thesis by simp
  next
    case (Inr p)
    then have "set (freePinnableCPUs n machines) \<subseteq> set p" by (auto simp: freePinnableCPUs_def)
    with A(3) Inr show ?thesis by blast
  qed
  show "\<forall>other \<in> set machines. m_node other = node_name n \<and> \<not> m_deleted other
         \<longrightarrow> set cpus \<inter> set (res_AllocatedCPUSet (m_res other)) = {}"
    using A(3) freePinnableCPUs_free(2) [of _ n machines] by blast
qed (use eligible_AllocateCPUSet in blast)

definition pinned_machine :: "string \<Rightarrow> string \<Rightarrow> nat list \<Rightarrow> Machine" where
  "pinned_machine name node cpus = Machine0\<lparr>
     mach_Metadata := ObjectMeta0\<lparr>meta_Name := name\<rparr>,
     mach_Spec := (mach_Spec Machine0)\<lparr>spec_NodeName := node, spec_Resources := ResourceSpec0\<lparr>res_CPU := ''2'', res_Memory := '''',
       res_CPUPinning := True, res_AllocatedCPUSet := cpus\<rparr>\<rparr>\<rparr>"

definition pin_node :: Node where
  "pin_node = ready_node ''n'' [(PinnableCPUsLabel, ''0-5'')] []"

lemma ParseVCPUs_2: "ParseVCPUs ''2'' = Ok 2"
  using ParseVCPUs_units(1) [of 2] by (simp add: show_nat.simps)

lemma ParseCPUList_0_5: "ParseCPUList ''0-5'' = Ok [0, 1, 2, 3, 4, 5]"
  by (rule FormatCPULabel_parse) (simp_all add: FormatCPULabel_def range_str_def show_nat.simps)

lemma pin_free: "freePinnableCPUs pin_node [pinned_machine ''o'' ''n'' [0, 2]] = [1, 3, 4, 5]"
  by (simp add: freePinnableCPUs_def pin_node_def pinned_machine_def example_defs mget_def ParseCPUList_0_5)

theorem allocated_cpus_exclusive_witness:
  "AllocateCPUSet (pinned_machine ''m'' '''' []) pin_node [pinned_machine ''o'' ''n'' [0, 2]] = Ok [1, 3]
   \<and> set [1, 3] \<inter> {0, 2 :: nat} = {}"
proof -
  have a: "AllocateCPUSet (pinned_machine ''m'' '''' []) pin_node [pinned_machine ''o'' ''n'' [0, 2]] = Ok [1, 3]"
    unfolding AllocateCPUSet_def Let_def pin_free by (simp add: pinned_machine_def ParseVCPUs_2 word_less_nat_alt)
  from allocated_cpus_exclusive [OF a] show ?thesis using a
    by (simp add: pinned_machine_def pin_node_def example_defs)
qed

text \<open>
  The pending Machines are tried by falling priority: the sort is a permutation, no
  Machine follows one of lower priority, and the Machines of one priority keep the order in
  which the API listed them.
\<close>

theorem priority_order_stable:
  "mset (SortByPriorityDesc pending) = mset pending
   \<and> sorted_wrt (\<lambda>a b. m_priority b \<le> m_priority a) (SortByPriorityDesc pending)
   \<and> filter (\<lambda>m. m_priority m = p) (SortByPriorityDesc pending) = filter (\<lambda>m. m_priority m = p) pending"
proof (intro conjI)
  show "sorted_wrt (\<lambda>a b. m_priority b \<le> m_priority a) (SortByPriorityDesc pending)"
    using prio.sorted_sort_by [of pending] by (simp add: SortByPriorityDesc_def not_less)
  have "filter (\<lambda>y. \<not> p < m_priority y \<and> \<not> m_priority y < p) (SortByPriorityDesc pending)
      = filter (\<lambda>y. \<not> p < m_priority y \<and> \<not> m_priority y < p) pending"
    using prio.sort_by_stable [of "Machine0\<lparr>mach_Spec := (mach_Spec Machine0)\<lparr>spec_Priority := p\<rparr>\<rparr>" pending]
    by (simp add: SortByPriorityDesc_def conj_commute)
  then show "filter (\<lambda>m. m_priority m = p) (SortByPriorityDesc pending) = filter (\<lambda>m. m_priority m = p) pending"
    by (simp add: not_less flip: eq_iff)
qed (simp add: SortByPriorityDesc_def)

end
