(* ===== verification/Admission.thy ===== *)
theory Admission
  imports Model_Types
begin

text \<open>
  The interface of the spend-as-you-go trackers: quotas, disruption budgets and migration
  policies each keep a list of trackers, refuse a request when a tracker that applies to it
  has no room, and otherwise spend from every tracker that applies. What a sequence of
  requests can do to the trackers is proved here once, from those laws.
\<close>

fun admit_run :: "('t list \<Rightarrow> 'm \<Rightarrow> string \<times> 't list) \<Rightarrow> 't list \<Rightarrow> 'm list \<Rightarrow> 'm list \<times> 't list" where
  \<comment> \<open>a sequence of requests: the admitted ones and the trackers after them\<close>
  "admit_run admit ts [] = ([], ts)"
| "admit_run admit ts (m # ms) =
     (let (b, ts') = admit ts m; (as, ts'') = admit_run admit ts' ms
      in (if b = '''' then m # as else as, ts''))"

locale spend_tracker =
  fixes admit :: "'t list \<Rightarrow> 'm \<Rightarrow> string \<times> 't list"
    and applies :: "'t \<Rightarrow> 'm \<Rightarrow> bool"
    and room :: "'t \<Rightarrow> 'm \<Rightarrow> bool"
    and spend :: "'t \<Rightarrow> 'm \<Rightarrow> 't"
  assumes admitted: "fst (admit ts m) = '''' \<longleftrightarrow> (\<forall>t \<in> set ts. applies t m \<longrightarrow> room t m)"
    and spent: "fst (admit ts m) = '''' \<Longrightarrow> snd (admit ts m) = map (\<lambda>t. if applies t m then spend t m else t) ts"
    and refused: "fst (admit ts m) \<noteq> '''' \<Longrightarrow> snd (admit ts m) = ts"
    and applies_spend: "applies (spend t m) m' = applies t m'"
begin

definition spend_all :: "'t \<Rightarrow> 'm list \<Rightarrow> 't" where
  "spend_all t ms = foldl spend t (filter (applies t) ms)"

lemma applies_spend_all: "applies (spend_all t ms) = applies t"
proof -
  have "applies (foldl spend t ms) m' = applies t m'" for ms m'
    by (induction ms arbitrary: t) (auto simp: applies_spend)
  then show ?thesis by (auto simp: spend_all_def)
qed

lemma spend_all_Cons: "spend_all t (m # ms) = (if applies t m then spend_all (spend t m) ms else spend_all t ms)"
proof -
  have "applies (spend t m) = applies t" by (rule ext) (rule applies_spend)
  then show ?thesis by (simp add: spend_all_def)
qed

text \<open>After any sequence of requests, every tracker has spent exactly the admitted requests that apply to it.\<close>

lemma run_trackers: "snd (admit_run admit ts ms) = map (\<lambda>t. spend_all t (fst (admit_run admit ts ms))) ts"
proof (induction ms arbitrary: ts)
  case Nil
  then show ?case by (simp add: spend_all_def)
next
  case (Cons m ms)
  show ?case
  proof (cases "fst (admit ts m) = ''''")
    case True
    then have "snd (admit ts m) = map (\<lambda>t. if applies t m then spend t m else t) ts" by (rule spent)
    with True show ?thesis
      by (simp add: Cons.IH split_beta Let_def) (auto simp: spend_all_Cons)
  next
    case False
    then have "snd (admit ts m) = ts" by (rule refused)
    with False show ?thesis by (simp add: Cons.IH split_beta Let_def)
  qed
qed

text \<open>
  A relation between a tracker at the start, the tracker now and the requests admitted so
  far that every admission keeps holds after any sequence.
\<close>

lemma run_rel_from:
  assumes "list_all2 (\<lambda>t t'. P t t' as) ts0 ts"
    and step: "\<And>t t' as m. P t t' as \<Longrightarrow> m \<in> set ms \<Longrightarrow> applies t' m \<Longrightarrow> room t' m \<Longrightarrow> P t (spend t' m) (as @ [m])"
    and skip: "\<And>t t' as m. P t t' as \<Longrightarrow> m \<in> set ms \<Longrightarrow> \<not> applies t' m \<Longrightarrow> P t t' (as @ [m])"
  shows "list_all2 (\<lambda>t t'. P t t' (as @ fst (admit_run admit ts ms))) ts0 (snd (admit_run admit ts ms))"
  using assms
proof (induction ms arbitrary: as ts)
  case (Cons m ms)
  show ?case
  proof (cases "fst (admit ts m) = ''''")
    case True
    then have room: "\<forall>t \<in> set ts. applies t m \<longrightarrow> room t m" by (simp add: admitted)
    have "P t (if applies t' m then spend t' m else t') (as @ [m])" if "P t t' as" "t' \<in> set ts" for t t'
      using that room Cons.prems(2) [of t t' as m] Cons.prems(3) [of t t' as m] by simp
    then have "list_all2 (\<lambda>t t'. P t t' (as @ [m])) ts0 (snd (admit ts m))"
      using Cons.prems(1) unfolding spent [OF True] list_all2_map2
      by (auto simp: list_all2_conv_all_nth)
    from Cons.IH [OF this] Cons.prems(2,3) True show ?thesis by (simp add: split_beta Let_def)
  next
    case False
    then have "snd (admit ts m) = ts" by (rule refused)
    with Cons.IH [OF Cons.prems(1)] Cons.prems(2,3) False show ?thesis by (simp add: split_beta Let_def)
  qed
qed simp

lemma run_rel:
  assumes "\<And>t. t \<in> set ts \<Longrightarrow> P t t []"
    and "\<And>t t' as m. P t t' as \<Longrightarrow> m \<in> set ms \<Longrightarrow> applies t' m \<Longrightarrow> room t' m \<Longrightarrow> P t (spend t' m) (as @ [m])"
    and "\<And>t t' as m. P t t' as \<Longrightarrow> m \<in> set ms \<Longrightarrow> \<not> applies t' m \<Longrightarrow> P t t' (as @ [m])"
  shows "list_all2 (\<lambda>t t'. P t t' (fst (admit_run admit ts ms))) ts (snd (admit_run admit ts ms))"
proof -
  have "list_all2 (\<lambda>t t'. P t t' []) ts ts" using assms(1) by (simp add: list_all2_same)
  from run_rel_from [of P "[]" ts ts ms, OF this assms(2,3)] show ?thesis by simp
qed

lemma run_safe:
  assumes "\<And>t m. m \<in> set ms \<Longrightarrow> safe t \<Longrightarrow> applies t m \<Longrightarrow> room t m \<Longrightarrow> safe (spend t m)"
    and "\<forall>t \<in> set ts. safe t"
  shows "\<forall>t \<in> set (snd (admit_run admit ts ms)). safe t"
  using run_rel [of ts "\<lambda>_ t' _. safe t'" ms] assms by (auto simp: list_all2_conv_all_nth in_set_conv_nth)

end

end
