(* ===== verification/Quota.thy ===== *)
theory Quota
  imports Admission
begin

text \<open>
  Machine quotas, \<open>internal/controller/quota.go\<close> and \<open>internal/model/quota.go\<close>: the trackers
  a reconcile tick seeds from the Machines already scheduled, the admission of a Machine
  against them and of a resize. The totals are the source's \<open>uint32\<close> and \<open>uint64\<close>, whose sums
  the code does not guard.
\<close>

record MachineQuota =
  quota_Metadata :: ObjectMeta
  quota_MaxMachines :: "int option"
  quota_MaxTotalCPU :: string
  quota_MaxTotalMemory :: string

record MachineQuotaStatus =
  UsedMachines :: int
  UsedTotalCPUCores :: "32 word"
  UsedTotalMemoryMiB :: "64 word"

record QuotaTracker =
  qt_quota :: MachineQuota
  qt_used :: MachineQuotaStatus

type_synonym trackers = "QuotaTracker list gomap"

abbreviation quota_ns :: "MachineQuota \<Rightarrow> string" where "quota_ns q \<equiv> meta_Namespace (quota_Metadata q)"

definition new_tracker :: "MachineQuota \<Rightarrow> QuotaTracker" where
  "new_tracker q = \<lparr>qt_quota = q, qt_used = \<lparr>UsedMachines = 0, UsedTotalCPUCores = 0, UsedTotalMemoryMiB = 0\<rparr>\<rparr>"

definition MachineFootprint :: "Machine \<Rightarrow> 32 word \<times> 64 word" where
  "MachineFootprint m = (res_val 0 (ParseVCPUs (res_CPU (m_res m))), res_val 0 (ParseMemoryMiB (res_Memory (m_res m))))"

definition MachineCountsTowardQuota :: "Machine \<Rightarrow> bool" where
  "MachineCountsTowardQuota m =
     (\<not> m_deleted m \<and> DesiredPowerState m \<noteq> ''Stopped'' \<and> DesiredPowerState m \<noteq> ''Halted'' \<and> m_node m \<noteq> '''')"

definition spend_quota :: "QuotaTracker \<Rightarrow> Machine \<Rightarrow> QuotaTracker" where
  "spend_quota t m = (let (cpu, mem) = MachineFootprint m in
     t\<lparr>qt_used := \<lparr>UsedMachines = UsedMachines (qt_used t) + 1,
        UsedTotalCPUCores = UsedTotalCPUCores (qt_used t) + cpu,
        UsedTotalMemoryMiB = UsedTotalMemoryMiB (qt_used t) + mem\<rparr>\<rparr>)"

definition trackers_in :: "trackers \<Rightarrow> string \<Rightarrow> QuotaTracker list" where
  \<comment> \<open>\<open>trackers[ns]\<close>\<close>
  "trackers_in ts ns = (case map_of ts ns of None \<Rightarrow> [] | Some l \<Rightarrow> l)"

definition tracker_invalid :: "QuotaTracker \<Rightarrow> err option" where
  "tracker_invalid t = (let q = qt_quota t; who = ''MachineQuota '' @ quota_ns q @ ''/'' @ meta_Name (quota_Metadata q) in
     case (if quota_MaxTotalCPU q = '''' then None
           else case ParseVCPUs (quota_MaxTotalCPU q) of
                  Inl e \<Rightarrow> Some (who @ '': invalid maxTotalCpu: '' @ e) | Inr _ \<Rightarrow> None) of
       Some e \<Rightarrow> Some e
     | None \<Rightarrow>
         if quota_MaxTotalMemory q = '''' then None
         else case ParseMemoryMiB (quota_MaxTotalMemory q) of
                Inl e \<Rightarrow> Some (who @ '': invalid maxTotalMemory: '' @ e) | Inr _ \<Rightarrow> None)"

fun first_error :: "('a \<Rightarrow> err option) \<Rightarrow> 'a list \<Rightarrow> err option" where
  "first_error f [] = None"
| "first_error f (x # xs) = (case f x of Some e \<Rightarrow> Some e | None \<Rightarrow> first_error f xs)"

definition BuildQuotaTrackers :: "MachineQuota list \<Rightarrow> Machine list \<Rightarrow> trackers res" where
  "BuildQuotaTrackers quotas machines =
     (let ts = foldl (\<lambda>ts q. mput ts (quota_ns q) (trackers_in ts (quota_ns q) @ [new_tracker q])) [] quotas;
          ts = foldl (\<lambda>ts m. if MachineCountsTowardQuota m \<and> map_of ts (Namespace m) \<noteq> None
                 then mput ts (Namespace m) (map (\<lambda>t. spend_quota t m) (trackers_in ts (Namespace m))) else ts) ts machines
      in case first_error tracker_invalid (concat (map snd ts)) of
           Some e \<Rightarrow> Err e | None \<Rightarrow> Ok ts)"

definition quota_blocker :: "QuotaTracker \<Rightarrow> Machine \<Rightarrow> string" where
  \<comment> \<open>the reason this tracker refuses the Machine, empty when it does not\<close>
  "quota_blocker t m = (let (cpu, mem) = MachineFootprint m; q = qt_quota t; u = qt_used t;
       who = ''MachineQuota '' @ quota_ns q @ ''/'' @ meta_Name (quota_Metadata q) in
     if (case quota_MaxMachines q of None \<Rightarrow> False | Some k \<Rightarrow> k < UsedMachines u + 1) then
       who @ '': maxMachines '' @ show_int (the (quota_MaxMachines q)) @ '' reached''
     else if quota_MaxTotalCPU q \<noteq> '''' \<and> res_val 0 (ParseVCPUs (quota_MaxTotalCPU q)) < UsedTotalCPUCores u + cpu then
       who @ '': maxTotalCpu '' @ Quote (quota_MaxTotalCPU q) @ '' reached''
     else if quota_MaxTotalMemory q \<noteq> '''' \<and> res_val 0 (ParseMemoryMiB (quota_MaxTotalMemory q)) < UsedTotalMemoryMiB u + mem then
       who @ '': maxTotalMemory '' @ Quote (quota_MaxTotalMemory q) @ '' reached''
     else '''')"

fun first_blocker :: "('t \<Rightarrow> string) \<Rightarrow> 't list \<Rightarrow> string" where
  "first_blocker f [] = ''''"
| "first_blocker f (t # ts) = (if f t \<noteq> '''' then f t else first_blocker f ts)"

definition admit_quota_list :: "QuotaTracker list \<Rightarrow> Machine \<Rightarrow> string \<times> QuotaTracker list" where
  \<comment> \<open>\<open>admitQuota\<close> on the trackers of the Machine's namespace\<close>
  "admit_quota_list ts m = (let b = first_blocker (\<lambda>t. quota_blocker t m) ts in
     if b \<noteq> '''' then (b, ts) else ('''', map (\<lambda>t. spend_quota t m) ts))"

definition admitQuota :: "trackers \<Rightarrow> Machine \<Rightarrow> string \<times> trackers" where
  "admitQuota ts m =
     (case map_of ts (Namespace m) of
        None \<Rightarrow> ('''', ts)
      | Some l \<Rightarrow> let (b, l') = admit_quota_list l m in (b, if b \<noteq> '''' then ts else mput ts (Namespace m) l'))"

definition resize_blocker :: "32 word \<Rightarrow> 32 word \<Rightarrow> 64 word \<Rightarrow> 64 word \<Rightarrow> QuotaTracker \<Rightarrow> string" where
  "resize_blocker oldCPU newCPU oldMem newMem t = (let q = qt_quota t; u = qt_used t;
       who = ''MachineQuota '' @ quota_ns q @ ''/'' @ meta_Name (quota_Metadata q) in
     if quota_MaxTotalCPU q \<noteq> '''' \<and> res_val 0 (ParseVCPUs (quota_MaxTotalCPU q)) < UsedTotalCPUCores u - oldCPU + newCPU then
       who @ '': maxTotalCpu '' @ Quote (quota_MaxTotalCPU q) @ '' reached''
     else if quota_MaxTotalMemory q \<noteq> '''' \<and> res_val 0 (ParseMemoryMiB (quota_MaxTotalMemory q)) < UsedTotalMemoryMiB u - oldMem + newMem then
       who @ '': maxTotalMemory '' @ Quote (quota_MaxTotalMemory q) @ '' reached''
     else '''')"

definition AdmitQuotaResize :: "trackers \<Rightarrow> string \<Rightarrow> 32 word \<Rightarrow> 32 word \<Rightarrow> 64 word \<Rightarrow> 64 word \<Rightarrow> string" where
  "AdmitQuotaResize ts ns oldCPU newCPU oldMemMiB newMemMiB =
     first_blocker (resize_blocker oldCPU newCPU oldMemMiB newMemMiB) (trackers_in ts ns)"

definition QuotaTrackersForNamespace :: "MachineQuota list res \<Rightarrow> Machine list res \<Rightarrow> (trackers \<times> bool) res" where
  \<comment> \<open>the two arguments are what the API answers to the two list calls\<close>
  "QuotaTrackersForNamespace quotas machines =
     (case quotas of
        Inl e \<Rightarrow> Err (''list MachineQuotas: '' @ e)
      | Inr qs \<Rightarrow>
          if qs = [] then Ok ([], False)
          else case machines of
            Inl e \<Rightarrow> Err (''list Machines: '' @ e)
          | Inr ms \<Rightarrow> (case BuildQuotaTrackers qs ms of Inl e \<Rightarrow> Err e | Inr ts \<Rightarrow> Ok (ts, True)))"

section \<open>Admission spends from the trackers of the namespace\<close>

lemma first_blocker_none: "first_blocker f ts = '''' \<longleftrightarrow> (\<forall>t \<in> set ts. f t = '''')"
  by (induction ts) auto

interpretation quota: spend_tracker admit_quota_list "\<lambda>_ _. True" "\<lambda>t m. quota_blocker t m = ''''" spend_quota
  by unfold_locales (auto simp: admit_quota_list_def Let_def first_blocker_none split: if_splits)

text \<open>What a tracker has room for, when the sums stay in range.\<close>

definition small_footprint :: "Machine \<Rightarrow> bool" where
  "small_footprint m \<longleftrightarrow> unat (fst (MachineFootprint m)) < 2 ^ 31 \<and> unat (snd (MachineFootprint m)) < 2 ^ 63"

definition cpu_limit :: "MachineQuota \<Rightarrow> nat option" where
  "cpu_limit q = (if quota_MaxTotalCPU q = '''' then None else Some (unat (res_val 0 (ParseVCPUs (quota_MaxTotalCPU q)))))"

definition mem_limit :: "MachineQuota \<Rightarrow> nat option" where
  "mem_limit q = (if quota_MaxTotalMemory q = '''' then None else Some (unat (res_val 0 (ParseMemoryMiB (quota_MaxTotalMemory q)))))"

definition below :: "'a :: linorder \<Rightarrow> 'a option \<Rightarrow> bool" where
  "below x l = (case l of None \<Rightarrow> True | Some k \<Rightarrow> x \<le> k)"

definition within_quota :: "QuotaTracker \<Rightarrow> bool" where
  "within_quota t \<longleftrightarrow> below (UsedMachines (qt_used t)) (quota_MaxMachines (qt_quota t))
     \<and> below (unat (UsedTotalCPUCores (qt_used t))) (cpu_limit (qt_quota t))
     \<and> below (unat (UsedTotalMemoryMiB (qt_used t))) (mem_limit (qt_quota t))"

definition small_limits :: "MachineQuota \<Rightarrow> bool" where
  "small_limits q \<longleftrightarrow> (case cpu_limit q of None \<Rightarrow> True | Some k \<Rightarrow> k < 2 ^ 31)
     \<and> (case mem_limit q of None \<Rightarrow> True | Some k \<Rightarrow> k < 2 ^ 63)"

lemma spend_quota_simps [simp]:
  "qt_quota (spend_quota t m) = qt_quota t"
  "UsedMachines (qt_used (spend_quota t m)) = UsedMachines (qt_used t) + 1"
  "UsedTotalCPUCores (qt_used (spend_quota t m)) = UsedTotalCPUCores (qt_used t) + fst (MachineFootprint m)"
  "UsedTotalMemoryMiB (qt_used (spend_quota t m)) = UsedTotalMemoryMiB (qt_used t) + snd (MachineFootprint m)"
  by (simp_all add: spend_quota_def split: prod.split)

lemma quota_blocker_none:
  "quota_blocker t m = '''' \<longleftrightarrow>
     below (UsedMachines (qt_used t) + 1) (quota_MaxMachines (qt_quota t))
     \<and> (quota_MaxTotalCPU (qt_quota t) \<noteq> '''' \<longrightarrow>
          UsedTotalCPUCores (qt_used t) + fst (MachineFootprint m) \<le> res_val 0 (ParseVCPUs (quota_MaxTotalCPU (qt_quota t))))
     \<and> (quota_MaxTotalMemory (qt_quota t) \<noteq> '''' \<longrightarrow>
          UsedTotalMemoryMiB (qt_used t) + snd (MachineFootprint m) \<le> res_val 0 (ParseMemoryMiB (quota_MaxTotalMemory (qt_quota t))))"
  by (auto simp: quota_blocker_def Let_def below_def not_less split: prod.split option.split)

lemma unat_add_small:
  fixes a b :: "'a :: len word"
  shows "unat a + unat b < 2 ^ LENGTH('a) \<Longrightarrow> unat (a + b) = unat a + unat b"
  by (rule unat_add_lem [THEN iffD1])

lemma unat_replace:
  fixes u a b :: "'a :: len word"
  assumes "a \<le> u" "unat u + unat b < 2 ^ LENGTH('a)"
  shows "unat (u - a + b) = unat u - unat a + unat b"
proof -
  have "unat (u - a) = unat u - unat a" using assms(1) by (simp add: unat_sub)
  moreover from this have "unat (u - a) + unat b < 2 ^ LENGTH('a)" using assms(2) by linarith
  then have "unat (u - a + b) = unat (u - a) + unat b" by (rule unat_add_small)
  ultimately show ?thesis by simp
qed

text \<open>An admission keeps a tracker within its limits, and adds exactly the footprint.\<close>

lemma spend_quota_within:
  assumes w: "within_quota t" and l: "small_limits (qt_quota t)" and f: "small_footprint m"
    and b: "quota_blocker t m = ''''"
  shows "within_quota (spend_quota t m)"
    and "cpu_limit (qt_quota t) \<noteq> None \<Longrightarrow>
      unat (UsedTotalCPUCores (qt_used (spend_quota t m))) = unat (UsedTotalCPUCores (qt_used t)) + unat (fst (MachineFootprint m))"
    and "mem_limit (qt_quota t) \<noteq> None \<Longrightarrow>
      unat (UsedTotalMemoryMiB (qt_used (spend_quota t m))) = unat (UsedTotalMemoryMiB (qt_used t)) + unat (snd (MachineFootprint m))"
proof -
  show "within_quota (spend_quota t m)"
    using b by (auto simp: quota_blocker_none within_quota_def cpu_limit_def mem_limit_def below_def word_le_nat_alt)
  show "unat (UsedTotalCPUCores (qt_used (spend_quota t m))) = unat (UsedTotalCPUCores (qt_used t)) + unat (fst (MachineFootprint m))"
    if "cpu_limit (qt_quota t) \<noteq> None"
    using that w l f by (auto simp: unat_add_small small_footprint_def within_quota_def small_limits_def below_def)
  show "unat (UsedTotalMemoryMiB (qt_used (spend_quota t m))) = unat (UsedTotalMemoryMiB (qt_used t)) + unat (snd (MachineFootprint m))"
    if "mem_limit (qt_quota t) \<noteq> None"
    using that w l f by (auto simp: unat_add_small small_footprint_def within_quota_def small_limits_def below_def)
qed

definition cpu_footprints :: "Machine list \<Rightarrow> nat" where
  "cpu_footprints ms = sum_list (map (unat \<circ> fst \<circ> MachineFootprint) ms)"

definition mem_footprints :: "Machine list \<Rightarrow> nat" where
  "mem_footprints ms = sum_list (map (unat \<circ> snd \<circ> MachineFootprint) ms)"

definition quota_spent :: "QuotaTracker \<Rightarrow> QuotaTracker \<Rightarrow> Machine list \<Rightarrow> bool" where
  \<comment> \<open>the second tracker is the first after the Machines were admitted, and within its limits\<close>
  "quota_spent t t' as \<longleftrightarrow> qt_quota t' = qt_quota t \<and> within_quota t'
     \<and> UsedMachines (qt_used t') = UsedMachines (qt_used t) + int (length as)
     \<and> (cpu_limit (qt_quota t) \<noteq> None \<longrightarrow>
          unat (UsedTotalCPUCores (qt_used t')) = unat (UsedTotalCPUCores (qt_used t)) + cpu_footprints as)
     \<and> (mem_limit (qt_quota t) \<noteq> None \<longrightarrow>
          unat (UsedTotalMemoryMiB (qt_used t')) = unat (UsedTotalMemoryMiB (qt_used t)) + mem_footprints as)"

lemma quota_spent_step:
  assumes "quota_spent t t' as" "small_limits (qt_quota t)" "small_footprint m" "quota_blocker t' m = ''''"
  shows "quota_spent t (spend_quota t' m) (as @ [m])"
  using assms spend_quota_within [of t' m]
  by (auto simp: quota_spent_def cpu_footprints_def mem_footprints_def)

lemma quota_list_run:
  assumes "\<forall>t \<in> set ts. within_quota t \<and> small_limits (qt_quota t)" and f: "\<forall>m \<in> set ms. small_footprint m"
  shows "list_all2 (\<lambda>t t'. quota_spent t t' (fst (admit_run admit_quota_list ts ms))) ts (snd (admit_run admit_quota_list ts ms))"
proof -
  let ?P = "\<lambda>t t' as. quota_spent t t' as \<and> small_limits (qt_quota t)"
  have "list_all2 (\<lambda>t t'. ?P t t' (fst (admit_run admit_quota_list ts ms))) ts (snd (admit_run admit_quota_list ts ms))"
  proof (rule quota.run_rel [of ts ?P])
    show "?P t t []" if "t \<in> set ts" for t
      using that assms(1) by (simp add: quota_spent_def cpu_footprints_def mem_footprints_def)
    show "?P t (spend_quota t' m) (as @ [m])"
      if "?P t t' as" "m \<in> set ms" "quota_blocker t' m = ''''" for t t' as m
      using that f quota_spent_step by blast
  qed simp
  then show ?thesis by (rule list_all2_mono) simp
qed

text \<open>A run over all namespaces is, in each namespace, the run of its own requests.\<close>

lemma admitQuota_list:
  "fst (admitQuota ts m) = fst (admit_quota_list (trackers_in ts (Namespace m)) m)"
  "trackers_in (snd (admitQuota ts m)) ns =
     (if ns = Namespace m then snd (admit_quota_list (trackers_in ts ns) m) else trackers_in ts ns)"
  by (auto simp: admitQuota_def trackers_in_def admit_quota_list_def Let_def split: option.split)

lemma quota_run_namespace:
  "trackers_in (snd (admit_run admitQuota ts ms)) ns
     = snd (admit_run admit_quota_list (trackers_in ts ns) (filter (\<lambda>m. Namespace m = ns) ms))
   \<and> filter (\<lambda>m. Namespace m = ns) (fst (admit_run admitQuota ts ms))
     = fst (admit_run admit_quota_list (trackers_in ts ns) (filter (\<lambda>m. Namespace m = ns) ms))"
proof (induction ms arbitrary: ts)
  case (Cons m ms)
  show ?case
    by (simp add: Cons.IH split_beta Let_def admitQuota_list)
qed simp

section \<open>Properties\<close>

text \<open>
  C7. Scheduling never exceeds a quota: after any sequence of admissions, every quota of a
  namespace that was within its limits is within them still, and its usage is what it was
  plus exactly the Machines of that namespace that were admitted. It holds for limits and
  footprints below half of the range of \<open>uint32\<close> cores and \<open>uint64\<close> MiB.
\<close>

theorem quota_limits_hold:
  assumes "\<forall>t \<in> set (trackers_in ts ns). within_quota t \<and> small_limits (qt_quota t)"
    and "\<forall>m \<in> set ms. small_footprint m"
    and "admit_run admitQuota ts ms = (as, ts')"
  shows "list_all2 (\<lambda>t t'. quota_spent t t' (filter (\<lambda>m. Namespace m = ns) as)) (trackers_in ts ns) (trackers_in ts' ns)"
proof -
  have "list_all2 (\<lambda>t t'. quota_spent t t' (fst (admit_run admit_quota_list (trackers_in ts ns) (filter (\<lambda>m. Namespace m = ns) ms))))
     (trackers_in ts ns) (snd (admit_run admit_quota_list (trackers_in ts ns) (filter (\<lambda>m. Namespace m = ns) ms)))"
    using assms(1,2) by (intro quota_list_run) auto
  with quota_run_namespace [of ts ms ns] show ?thesis by (simp add: assms(3))
qed

definition sample_quota :: "string \<Rightarrow> MachineQuota" where
  "sample_quota cpu = \<lparr>quota_Metadata = ObjectMeta0\<lparr>meta_Name := ''q'', meta_Namespace := ''default''\<rparr>,
     quota_MaxMachines = Some 2, quota_MaxTotalCPU = cpu, quota_MaxTotalMemory = ''''\<rparr>"

definition sized_machine :: "string \<Rightarrow> Machine" where
  "sized_machine cpu = Machine0\<lparr>mach_Spec := (mach_Spec Machine0)\<lparr>spec_Resources := (m_res Machine0)\<lparr>res_CPU := cpu\<rparr>\<rparr>\<rparr>"

lemma parse_sample_cpus:
  "ParseVCPUs ''1'' = Ok 1" "ParseVCPUs ''2'' = Ok 2" "ParseVCPUs ''4'' = Ok 4" "ParseVCPUs ''4294967295'' = Ok 4294967295"
  using ParseVCPUs_units(1) [of 1] ParseVCPUs_units(1) [of 2] ParseVCPUs_units(1) [of 4] ParseVCPUs_units(1) [of 4294967295]
  by (simp_all add: show_nat.simps)

lemma parse_empty: "ParseMemoryMiB '''' = Err ''memory quantity is empty''"
  by (simp add: ParseMemoryMiB_def TrimSpace_def)

lemmas quota_eval = sample_quota_def sized_machine_def Machine0_def ObjectMeta0_def MachineFootprint_def
  parse_sample_cpus parse_empty Namespace_def meta_ns_def DefaultNamespace_def

theorem quota_limits_hold_witness:
  "fst (admit_run admitQuota [(''default'', [new_tracker (sample_quota ''4'')])] [sized_machine ''2'', sized_machine ''1'', sized_machine ''1''])
     = [sized_machine ''2'', sized_machine ''1'']
   \<and> list_all within_quota (trackers_in (snd (admit_run admitQuota [(''default'', [new_tracker (sample_quota ''4'')])]
         [sized_machine ''2'', sized_machine ''1'', sized_machine ''1''])) ''default'')"
proof -
  let ?ts = "[(''default'', [new_tracker (sample_quota ''4'')])]"
  let ?ms = "[sized_machine ''2'', sized_machine ''1'', sized_machine ''1'']"
  have "\<forall>t \<in> set (trackers_in ?ts ''default''). within_quota t \<and> small_limits (qt_quota t)"
    by (simp add: trackers_in_def within_quota_def small_limits_def new_tracker_def below_def cpu_limit_def mem_limit_def quota_eval)
  moreover have "\<forall>m \<in> set ?ms. small_footprint m" by (simp add: small_footprint_def quota_eval)
  ultimately have "list_all2 (\<lambda>t t'. quota_spent t t' (filter (\<lambda>m. Namespace m = ''default'') (fst (admit_run admitQuota ?ts ?ms))))
      (trackers_in ?ts ''default'') (trackers_in (snd (admit_run admitQuota ?ts ?ms)) ''default'')"
    by (rule quota_limits_hold) simp
  then have "\<forall>t' \<in> set (trackers_in (snd (admit_run admitQuota ?ts ?ms)) ''default''). within_quota t'"
    by (auto simp: quota_spent_def list_all2_conv_all_nth in_set_conv_nth)
  moreover have "fst (admit_run admitQuota ?ts ?ms) = [sized_machine ''2'', sized_machine ''1'']"
    by (simp add: admitQuota_def admit_quota_list_def quota_blocker_def spend_quota_def new_tracker_def quota_eval)
  ultimately show ?thesis by (simp only: list_all_iff)
qed

text \<open>
  Outside that range the sums wrap: a Machine that asks for 4294967295 CPUs is admitted
  against a quota of 4 CPUs of which 2 are used, and leaves the quota with 1 used CPU.
\<close>

theorem quota_sum_wraps:
  "admitQuota [(''default'', [(new_tracker (sample_quota ''4''))\<lparr>qt_used := \<lparr>UsedMachines = 1, UsedTotalCPUCores = 2, UsedTotalMemoryMiB = 0\<rparr>\<rparr>])]
     (sized_machine ''4294967295'')
   = ('''', [(''default'', [(new_tracker (sample_quota ''4''))\<lparr>qt_used := \<lparr>UsedMachines = 2, UsedTotalCPUCores = 1, UsedTotalMemoryMiB = 0\<rparr>\<rparr>])])"
  by (simp add: admitQuota_def admit_quota_list_def quota_blocker_def spend_quota_def new_tracker_def quota_eval)

text \<open>
  A resize is admitted exactly when every quota of the namespace still holds with the
  new footprint in place of the old one, as long as the old footprint is part of the
  counted usage and the sums are in range. So a shrink is refused when a quota was lowered
  below the usage: 10 of 4 CPUs used, a Machine going from 2 CPUs to 1 is refused.
\<close>

theorem resize_admitted_iff_within:
  assumes "\<forall>t \<in> set (trackers_in ts ns). oldCPU \<le> UsedTotalCPUCores (qt_used t) \<and> oldMem \<le> UsedTotalMemoryMiB (qt_used t)
      \<and> unat (UsedTotalCPUCores (qt_used t)) + unat newCPU < 2 ^ 32 \<and> unat (UsedTotalMemoryMiB (qt_used t)) + unat newMem < 2 ^ 64"
  shows "(AdmitQuotaResize ts ns oldCPU newCPU oldMem newMem = '''' \<longleftrightarrow>
      (\<forall>t \<in> set (trackers_in ts ns).
         below (unat (UsedTotalCPUCores (qt_used t)) - unat oldCPU + unat newCPU) (cpu_limit (qt_quota t))
         \<and> below (unat (UsedTotalMemoryMiB (qt_used t)) - unat oldMem + unat newMem) (mem_limit (qt_quota t))))
    \<and> AdmitQuotaResize [(''default'', [(new_tracker (sample_quota ''4''))\<lparr>qt_used :=
         \<lparr>UsedMachines = 1, UsedTotalCPUCores = 10, UsedTotalMemoryMiB = 0\<rparr>\<rparr>])] ''default'' 2 1 0 0 \<noteq> ''''"
proof
  have "resize_blocker oldCPU newCPU oldMem newMem t = '''' \<longleftrightarrow>
      below (unat (UsedTotalCPUCores (qt_used t)) - unat oldCPU + unat newCPU) (cpu_limit (qt_quota t))
      \<and> below (unat (UsedTotalMemoryMiB (qt_used t)) - unat oldMem + unat newMem) (mem_limit (qt_quota t))"
    if t: "t \<in> set (trackers_in ts ns)" for t
  proof -
    from t assms have "unat (UsedTotalCPUCores (qt_used t) - oldCPU + newCPU) = unat (UsedTotalCPUCores (qt_used t)) - unat oldCPU + unat newCPU"
      "unat (UsedTotalMemoryMiB (qt_used t) - oldMem + newMem) = unat (UsedTotalMemoryMiB (qt_used t)) - unat oldMem + unat newMem"
      by (simp_all add: unat_replace)
    then show ?thesis
      by (auto simp: resize_blocker_def Let_def below_def cpu_limit_def mem_limit_def word_less_nat_alt not_less)
  qed
  then show "AdmitQuotaResize ts ns oldCPU newCPU oldMem newMem = '''' \<longleftrightarrow>
      (\<forall>t \<in> set (trackers_in ts ns).
         below (unat (UsedTotalCPUCores (qt_used t)) - unat oldCPU + unat newCPU) (cpu_limit (qt_quota t))
         \<and> below (unat (UsedTotalMemoryMiB (qt_used t)) - unat oldMem + unat newMem) (mem_limit (qt_quota t)))"
    by (simp add: AdmitQuotaResize_def first_blocker_none)
qed (simp add: AdmitQuotaResize_def trackers_in_def resize_blocker_def new_tracker_def quota_eval)

theorem resize_admitted_iff_within_witness:
  "AdmitQuotaResize [(''default'', [(new_tracker (sample_quota ''4''))\<lparr>qt_used :=
     \<lparr>UsedMachines = 1, UsedTotalCPUCores = 3, UsedTotalMemoryMiB = 0\<rparr>\<rparr>])] ''default'' 2 3 0 0 = ''''"
  by (subst resize_admitted_iff_within [THEN conjunct1])
     (simp_all add: trackers_in_def new_tracker_def below_def cpu_limit_def mem_limit_def quota_eval)

end
