(* ===== verification/Scheduling_Loop.thy ===== *)
theory Scheduling_Loop
  imports Scheduler Quota "HOL-Library.Sublist"
begin

text \<open>
  The scheduling part of a reconcile tick, \<open>Reconcile\<close> in
  \<open>internal/controller/controller.go\<close>: which Machines are tried, in which order, and what
  each attempt does to the node loads, the quota trackers and the API.

  The API server is a parameter: \<open>patch_err\<close> is the error, if any, it answers to the patch
  that assigns a node. That error ends the tick; an error of a status patch or of an event
  is only logged, so those calls appear as sent.
\<close>


datatype SchedCall =
    CallStatus string string MachineStatus
  | CallEvent string string string string
  | CallAssign string string string "nat list option"

record SchedState =
  ss_load :: loadmap
  ss_trackers :: trackers
  ss_calls :: "SchedCall list"
  ss_unschedulable :: "Machine list"

definition pending_machines :: "string list \<Rightarrow> string list \<Rightarrow> Machine list \<Rightarrow> Machine list" where
  "pending_machines volumesNotReady imagesNotReady machines =
     filter (\<lambda>m. \<not> (m_deleted m \<or> m_node m \<noteq> '''' \<or> DesiredPowerState m = ''Stopped'' \<or> DesiredPowerState m = ''Halted'')
       \<and> m_key m \<notin> set volumesNotReady \<and> m_key m \<notin> set imagesNotReady) machines"

definition blocked_status :: "time \<Rightarrow> Machine \<Rightarrow> string \<Rightarrow> string \<Rightarrow> MachineStatus" where
  "blocked_status now m reason msg = (mach_Status m)\<lparr>st_Phase := ''Pending'', st_Message := msg,
     st_Conditions := SetCondition now (st_Conditions (mach_Status m))
       \<lparr>cond_Type = ''Scheduled'', cond_Status = ''False'', cond_Reason = reason, cond_Message = msg, cond_LastTransitionTime = 0\<rparr>\<rparr>"

definition leave_pending :: "time \<Rightarrow> Machine \<Rightarrow> string \<Rightarrow> string \<Rightarrow> SchedCall list \<Rightarrow> SchedState \<Rightarrow> SchedState" where
  "leave_pending now m reason msg extra st = st\<lparr>
     ss_unschedulable := ss_unschedulable st @ [m],
     ss_calls := ss_calls st @ [CallStatus (Namespace m) (m_name m) (blocked_status now m reason msg)] @ extra\<rparr>"

fun node_named :: "Node list \<Rightarrow> string \<Rightarrow> Node" where
  \<comment> \<open>\<open>chosenNode\<close>: the first node of that name, the zero Node when there is none\<close>
  "node_named [] name = Node0"
| "node_named (n # ns) name = (if node_name n = name then n else node_named ns name)"

definition assign_machine :: "(Machine \<Rightarrow> string \<Rightarrow> err option) \<Rightarrow> Machine \<Rightarrow> string \<Rightarrow> nat list option \<Rightarrow> SchedState \<Rightarrow> err option \<times> SchedState" where
  "assign_machine patch_err m node cpus st =
     (let st' = st\<lparr>ss_calls := ss_calls st @ [CallAssign (Namespace m) (m_name m) node cpus]\<rparr> in
      case patch_err m node of
        Some e \<Rightarrow> (Some e, st')
      | None \<Rightarrow> (None, st'\<lparr>ss_load := Reserve (ss_load st') node m\<rparr>))"

definition schedule_one ::
  "bool \<Rightarrow> Node list \<Rightarrow> Machine list \<Rightarrow> smap \<Rightarrow> time \<Rightarrow> (Machine \<Rightarrow> string \<Rightarrow> err option) \<Rightarrow> Machine \<Rightarrow> SchedState
     \<Rightarrow> err option \<times> SchedState" where
  "schedule_one rc nodes machines draHints now patch_err m st =
     (case Choose rc m nodes machines (ss_load st) (mget draHints (m_key m)) of
        Inl e \<Rightarrow> (None, leave_pending now m ''Unschedulable'' e [] st)
      | Inr node \<Rightarrow>
          let (blocker, ts) = admitQuota (ss_trackers st) m in
          if blocker \<noteq> '''' then
            (None, leave_pending now m ''QuotaBlocked'' blocker [CallEvent (Namespace m) (m_name m) ''QuotaBlocked'' blocker]
               (st\<lparr>ss_trackers := ts\<rparr>))
          else
            let st = st\<lparr>ss_trackers := ts\<rparr> in
            if res_CPUPinning (m_res m) then
              (case AllocateCPUSet m (node_named nodes node) machines of
                 Inl e \<Rightarrow> (None, leave_pending now m ''CPUPinningFailed'' e [] st)
               | Inr cpuset \<Rightarrow> assign_machine patch_err m node (Some cpuset) st)
            else assign_machine patch_err m node None st)"

fun schedule_loop ::
  "bool \<Rightarrow> Node list \<Rightarrow> Machine list \<Rightarrow> smap \<Rightarrow> time \<Rightarrow> (Machine \<Rightarrow> string \<Rightarrow> err option) \<Rightarrow> Machine list \<Rightarrow> SchedState
     \<Rightarrow> err option \<times> SchedState" where
  "schedule_loop rc nodes machines draHints now patch_err [] st = (None, st)"
| "schedule_loop rc nodes machines draHints now patch_err (m # ms) st =
     (case schedule_one rc nodes machines draHints now patch_err m st of
        (Some e, st') \<Rightarrow> (Some e, st')
      | (None, st') \<Rightarrow> schedule_loop rc nodes machines draHints now patch_err ms st')"

definition schedule_tick ::
  "bool \<Rightarrow> Node list \<Rightarrow> Machine list \<Rightarrow> smap \<Rightarrow> time \<Rightarrow> (Machine \<Rightarrow> string \<Rightarrow> err option) \<Rightarrow> string list \<Rightarrow> string list
     \<Rightarrow> trackers \<Rightarrow> err option \<times> SchedState" where
  "schedule_tick rc nodes machines draHints now patch_err volumesNotReady imagesNotReady ts =
     schedule_loop rc nodes machines draHints now patch_err
       (SortByPriorityDesc (pending_machines volumesNotReady imagesNotReady machines))
       \<lparr>ss_load = BuildNodeLoad machines, ss_trackers = ts, ss_calls = [], ss_unschedulable = []\<rparr>"

section \<open>What one attempt can do\<close>

text \<open>
  The outcomes of an attempt: the Machine stays pending, or it is assigned to an eligible
  node with the CPUs it owns there, and either the load of that node grows by it or the
  patch failed and the tick ends.
\<close>

inductive attempt :: "bool \<Rightarrow> Node list \<Rightarrow> Machine list \<Rightarrow> Machine \<Rightarrow> SchedState \<Rightarrow> err option \<Rightarrow> SchedState \<Rightarrow> bool"
  for rc nodes machines m st where
  stays: "attempt rc nodes machines m st None st'"
    if "ss_load st' = ss_load st" "ss_calls st' = ss_calls st @ extra" "\<forall>c \<in> set extra. \<forall>ns name node cpus. c \<noteq> CallAssign ns name node cpus"
| placed: "attempt rc nodes machines m st None st'"
    if "n \<in> set nodes" "eligible rc m n nodes machines (load_of (ss_load st) (node_name n)) = None"
      "ss_load st' = Reserve (ss_load st) (node_name n) m"
      "ss_calls st' = ss_calls st @ [CallAssign (Namespace m) (m_name m) (node_name n) cpus]"
      "cpus = (if res_CPUPinning (m_res m) then Some cpuset else None)"
      "res_CPUPinning (m_res m) \<longrightarrow> AllocateCPUSet m (node_named nodes (node_name n)) machines = Ok cpuset"
| failed: "attempt rc nodes machines m st (Some e) st'"
    if "n \<in> set nodes" "eligible rc m n nodes machines (load_of (ss_load st) (node_name n)) = None" "ss_load st' = ss_load st"
      "ss_calls st' = ss_calls st @ [CallAssign (Namespace m) (m_name m) (node_name n) cpus]"
      "cpus = (if res_CPUPinning (m_res m) then Some cpuset else None)"
      "res_CPUPinning (m_res m) \<longrightarrow> AllocateCPUSet m (node_named nodes (node_name n)) machines = Ok cpuset"

lemma leave_pending_stays:
  assumes "\<forall>c \<in> set extra. \<forall>ns name node cpus. c \<noteq> CallAssign ns name node cpus" "ss_load st' = ss_load st" "ss_calls st' = ss_calls st"
  shows "attempt rc nodes machines m st None (leave_pending now m reason msg extra st')"
  by (rule attempt.stays [of _ _ "CallStatus (Namespace m) (m_name m) (blocked_status now m reason msg) # extra"])
     (use assms in \<open>auto simp: leave_pending_def\<close>)

lemma assign_machine_attempt:
  assumes "n \<in> set nodes" "node_name n = node" "eligible rc m n nodes machines (load_of (ss_load st) node) = None"
    and "cpus = (if res_CPUPinning (m_res m) then Some cpuset else None)"
    and "res_CPUPinning (m_res m) \<longrightarrow> AllocateCPUSet m (node_named nodes node) machines = Ok cpuset"
    and "ss_load st' = ss_load st" "ss_calls st' = ss_calls st"
    and "assign_machine patch_err m node cpus st' = (r, st'')"
  shows "attempt rc nodes machines m st r st''"
proof (cases "patch_err m node")
  case None
  with assms(8) have "r = None" "st'' = st'\<lparr>ss_calls := ss_calls st' @ [CallAssign (Namespace m) (m_name m) node cpus],
      ss_load := Reserve (ss_load st') node m\<rparr>"
    by (auto simp: assign_machine_def)
  with assms show ?thesis by (simp add: attempt.placed [where n = n and cpuset = cpuset and cpus = cpus])
next
  case (Some e)
  with assms(8) have "r = Some e" "st'' = st'\<lparr>ss_calls := ss_calls st' @ [CallAssign (Namespace m) (m_name m) node cpus]\<rparr>"
    by (auto simp: assign_machine_def)
  with assms show ?thesis by (simp add: attempt.failed [where n = n and cpuset = cpuset and cpus = cpus])
qed

lemma schedule_one_attempt:
  assumes "schedule_one rc nodes machines draHints now patch_err m st = (r, st')"
  shows "attempt rc nodes machines m st r st'"
proof (cases "Choose rc m nodes machines (ss_load st) (mget draHints (m_key m))")
  case (Inl e)
  with assms show ?thesis by (auto simp: schedule_one_def intro: leave_pending_stays)
next
  case (Inr node)
  obtain n where "n \<in> set (candidates rc m nodes machines (ss_load st))" and nm: "node_name n = node"
    by (rule Choose_Ok [OF Inr])
  then have n: "n \<in> set nodes" "eligible rc m n nodes machines (load_of (ss_load st) node) = None"
    by (auto dest: candidates_eligible)
  obtain blocker ts where a: "admitQuota (ss_trackers st) m = (blocker, ts)" by fastforce
  show ?thesis
  proof (cases "blocker = ''''")
    case False
    with assms Inr a show ?thesis by (auto simp: schedule_one_def intro: leave_pending_stays)
  next
    case True
    show ?thesis
    proof (cases "res_CPUPinning (m_res m)")
      case False
      with assms Inr a True have "assign_machine patch_err m node None (st\<lparr>ss_trackers := ts\<rparr>) = (r, st')"
        by (simp add: schedule_one_def)
      then show ?thesis using n nm False by (intro assign_machine_attempt) auto
    next
      case pin: True
      show ?thesis
      proof (cases "AllocateCPUSet m (node_named nodes node) machines")
        case (Inl e)
        with assms Inr a True pin show ?thesis by (auto simp: schedule_one_def intro: leave_pending_stays)
      next
        case alloc: (Inr cpus)
        with assms Inr a True pin have "assign_machine patch_err m node (Some cpus) (st\<lparr>ss_trackers := ts\<rparr>) = (r, st')"
          by (simp add: schedule_one_def)
        then show ?thesis using n nm pin alloc by (intro assign_machine_attempt [where cpuset = cpus]) auto
      qed
    qed
  qed
qed

section \<open>The node loads and the assignments\<close>

definition assigned_to :: "string \<Rightarrow> SchedCall list \<Rightarrow> (string \<times> string) list" where
  \<comment> \<open>the Machines the calls assign to a node, in order\<close>
  "assigned_to node calls = List.map_filter (\<lambda>c. case c of
     CallAssign ns name node' cpus \<Rightarrow> if node' = node then Some (ns, name) else None | _ \<Rightarrow> None) calls"

definition fits_on :: "Node \<Rightarrow> NodeLoad \<Rightarrow> Machine list \<Rightarrow> bool" where
  \<comment> \<open>the load and the Machines together stay within what the node declares allocatable\<close>
  "fits_on n l ms = (case nodeAllocatable n of None \<Rightarrow> True | Some (cpu, mem) \<Rightarrow>
     load_CPUMilli l + cpu_demand ms \<le> cpu \<and> unat (load_MemoryMiB l) + mem_demand ms \<le> unat mem)"

definition small_memory :: "Node \<Rightarrow> Machine list \<Rightarrow> bool" where
  "small_memory n ms = ((case nodeAllocatable n of None \<Rightarrow> True | Some (cpu, mem) \<Rightarrow> unat mem < 2 ^ 63)
     \<and> list_all (\<lambda>m. unat (snd (machineRequests m)) < 2 ^ 63) ms)"

lemma assigned_to_append [simp]: "assigned_to node (xs @ ys) = assigned_to node xs @ assigned_to node ys"
  by (induction xs) (simp_all add: assigned_to_def List.map_filter_simps split: option.split)

lemma assigned_to_assign [simp]:
  "assigned_to node [CallAssign ns name node' cpus] = (if node' = node then [(ns, name)] else [])"
  by (simp add: assigned_to_def List.map_filter_simps)

lemma assigned_to_none [simp]: "assigned_to node [] = []"
  by (simp add: assigned_to_def List.map_filter_simps)

lemma assigned_to_other:
  "\<forall>c \<in> set cs. \<forall>ns name node cpus. c \<noteq> CallAssign ns name node cpus \<Longrightarrow> assigned_to node cs = []"
  by (induction cs) (auto simp: assigned_to_def List.map_filter_simps split: SchedCall.split)

lemma demand_simps [simp]:
  "cpu_demand [] = 0" "cpu_demand (m # ms) = fst (machineRequests m) + cpu_demand ms"
  "mem_demand [] = 0" "mem_demand (m # ms) = unat (snd (machineRequests m)) + mem_demand ms"
  by (simp_all add: cpu_demand_def mem_demand_def)

lemma eligible_fits:
  assumes "eligible rc m n nodes machines l = None" "fits_on n l []" "small_memory n [m]"
  shows "fits_on n l [m]" "fits_on n (add_load l m) [] "
    "nodeAllocatable n \<noteq> None \<Longrightarrow> unat (load_MemoryMiB (add_load l m)) = unat (load_MemoryMiB l) + unat (snd (machineRequests m))"
proof -
  have c: "capacityFits n m l = None" using assms(1) by (simp only: eligible_None)
  show mem: "unat (load_MemoryMiB (add_load l m)) = unat (load_MemoryMiB l) + unat (snd (machineRequests m))"
    if "nodeAllocatable n \<noteq> None"
    using that assms(2,3) by (auto simp: fits_on_def small_memory_def unat_add_small)
  show "fits_on n (add_load l m) []" "fits_on n l [m]"
    using capacityFits_None [OF c] assms(2) mem
    by (auto simp: fits_on_def word_le_nat_alt split: option.splits)
qed

lemma fits_on_step:
  assumes "fits_on n (add_load l m) ms" "fits_on n l []" "small_memory n [m]"
    "eligible rc m n nodes machines l = None"
  shows "fits_on n l (m # ms)"
  using assms(1) eligible_fits(3) [OF assms(4,2,3)] by (auto simp: fits_on_def split: option.splits)

lemma attempt_fits:
  assumes "attempt rc nodes machines m st r st'" "n \<in> set nodes" "distinct (map node_name nodes)"
    and "fits_on n (load_of (ss_load st) (node_name n)) []" "small_memory n [m]"
  shows "\<exists>ms. ms \<in> {[], [m]} \<and> fits_on n (load_of (ss_load st) (node_name n)) ms
    \<and> assigned_to (node_name n) (ss_calls st') = assigned_to (node_name n) (ss_calls st) @ map (\<lambda>m. (Namespace m, m_name m)) ms
    \<and> (r = None \<longrightarrow> load_of (ss_load st') (node_name n) = foldl add_load (load_of (ss_load st) (node_name n)) ms)"
  using assms(1)
proof cases
  case (stays extra)
  then show ?thesis using assms(4) by (intro exI [of _ "[]"]) (simp add: assigned_to_other)
next
  case (placed n' cpus cpuset)
  show ?thesis
  proof (cases "node_name n' = node_name n")
    case True
    then have "n' = n" using placed(2) assms(2,3) by (simp add: distinct_map inj_on_def)
    then show ?thesis using placed assms(4,5) eligible_fits(1) by (intro exI [of _ "[m]"]) (auto simp: load_of_Reserve)
  qed (use placed assms(4) in \<open>auto simp: load_of_Reserve\<close>)
next
  case (failed n' cpus cpuset e)
  show ?thesis
  proof (cases "node_name n' = node_name n")
    case True
    then have "n' = n" using failed(2) assms(2,3) by (simp add: distinct_map inj_on_def)
    then show ?thesis using failed assms(4,5) eligible_fits(1) by (intro exI [of _ "[m]"]) auto
  qed (use failed assms(4) in auto)
qed

lemma schedule_loop_fits:
  assumes "schedule_loop rc nodes machines draHints now patch_err ms st = (r, st')"
    and "n \<in> set nodes" "distinct (map node_name nodes)"
    and "fits_on n (load_of (ss_load st) (node_name n)) []" "small_memory n ms"
  shows "\<exists>placed. subseq placed ms \<and> fits_on n (load_of (ss_load st) (node_name n)) placed
    \<and> assigned_to (node_name n) (ss_calls st') =
        assigned_to (node_name n) (ss_calls st) @ map (\<lambda>m. (Namespace m, m_name m)) placed"
  using assms(1,4,5)
proof (induction ms arbitrary: st)
  case Nil
  then show ?case by (intro exI [of _ "[]"]) simp
next
  case (Cons m ms)
  obtain r1 st1 where one: "schedule_one rc nodes machines draHints now patch_err m st = (r1, st1)" by fastforce
  have small: "small_memory n [m]" "small_memory n ms" using Cons.prems(3) by (auto simp: small_memory_def)
  obtain as where as: "as \<in> {[], [m]}" "fits_on n (load_of (ss_load st) (node_name n)) as"
    "assigned_to (node_name n) (ss_calls st1) = assigned_to (node_name n) (ss_calls st) @ map (\<lambda>m. (Namespace m, m_name m)) as"
    "r1 = None \<longrightarrow> load_of (ss_load st1) (node_name n) = foldl add_load (load_of (ss_load st) (node_name n)) as"
    using attempt_fits [OF schedule_one_attempt [OF one] assms(2,3) Cons.prems(2) small(1)] by blast
  show ?case
  proof (cases r1)
    case (Some e)
    with Cons.prems(1) one have "st' = st1" by simp
    with as show ?thesis by (intro exI [of _ as]) auto
  next
    case None
    with Cons.prems(1) one have loop: "schedule_loop rc nodes machines draHints now patch_err ms st1 = (r, st')" by simp
    have mem: "nodeAllocatable n \<noteq> None \<Longrightarrow>
      unat (load_MemoryMiB (foldl add_load (load_of (ss_load st) (node_name n)) as))
        = unat (load_MemoryMiB (load_of (ss_load st) (node_name n))) + mem_demand as"
      using as(1,2) small(1) Cons.prems(2)
      by (intro foldl_add_load_mem) (auto simp: fits_on_def small_memory_def)
    then have "fits_on n (load_of (ss_load st1) (node_name n)) []"
      using as(2,4) None by (auto simp: fits_on_def foldl_add_load split: option.splits)
    from Cons.IH [OF loop this small(2)] obtain placed where p: "subseq placed ms"
      "fits_on n (load_of (ss_load st1) (node_name n)) placed"
      "assigned_to (node_name n) (ss_calls st') =
         assigned_to (node_name n) (ss_calls st1) @ map (\<lambda>m. (Namespace m, m_name m)) placed" by blast
    have "fits_on n (load_of (ss_load st) (node_name n)) (as @ placed)"
      using p(2) mem as(4) None by (auto simp: fits_on_def foldl_add_load cpu_demand_def mem_demand_def split: option.splits)
    then show ?thesis using as(1,3) p(1,3) by (intro exI [of _ "as @ placed"]) auto
  qed
qed

text \<open>
  C1. No overcommitment over a whole tick. When the Machines already on a node fit into what
  it declares allocatable, they still do together with every Machine the tick assigns to it,
  whatever the order, the priorities, the quotas and the failures of the API in between. The
  memory sizes are assumed below half the range of \<open>uint64\<close>, where the sums do not wrap.
\<close>

theorem tick_never_overcommits:
  assumes tick: "schedule_tick rc nodes machines draHints now patch_err volumesNotReady imagesNotReady ts = (r, st)"
    and node: "n \<in> set nodes" "distinct (map node_name nodes)" "nodeAllocatable n = Some (cpu, mem)"
    and now: "cpu_demand (on_node (node_name n) machines) \<le> cpu" "mem_demand (on_node (node_name n) machines) \<le> unat mem"
    and small: "unat mem < 2 ^ 63" "\<forall>m \<in> set machines. unat (snd (machineRequests m)) < 2 ^ 63"
  shows "\<exists>placed. set placed \<subseteq> set (pending_machines volumesNotReady imagesNotReady machines)
    \<and> assigned_to (node_name n) (ss_calls st) = map (\<lambda>m. (Namespace m, m_name m)) placed
    \<and> cpu_demand (on_node (node_name n) machines) + cpu_demand placed \<le> cpu
    \<and> mem_demand (on_node (node_name n) machines) + mem_demand placed \<le> unat mem"
proof -
  let ?here = "on_node (node_name n) machines" and ?l = "load_of (BuildNodeLoad machines) (node_name n)"
  let ?pending = "pending_machines volumesNotReady imagesNotReady machines"
  have "unat (load_MemoryMiB ?l) = mem_demand ?here"
    using foldl_add_load_mem [of NodeLoad0 ?here] now(2) small(1) by (simp add: BuildNodeLoad_load NodeLoad0_def)
  moreover have "load_CPUMilli ?l = cpu_demand ?here" by (simp add: BuildNodeLoad_load foldl_add_load NodeLoad0_def)
  ultimately have load: "fits_on n ?l ms \<longleftrightarrow> cpu_demand ?here + cpu_demand ms \<le> cpu \<and> mem_demand ?here + mem_demand ms \<le> unat mem" for ms
    by (simp add: fits_on_def node(3))
  have set: "set (SortByPriorityDesc ?pending) = set ?pending"
    by (simp add: SortByPriorityDesc_def)
  moreover have "set ?pending \<subseteq> set machines" by (auto simp: pending_machines_def)
  ultimately have "small_memory n (SortByPriorityDesc ?pending)"
    using small by (auto simp: small_memory_def node(3) list_all_iff)
  moreover have "fits_on n ?l []" using load now by simp
  ultimately obtain placed where "subseq placed (SortByPriorityDesc ?pending)" "fits_on n ?l placed"
    "assigned_to (node_name n) (ss_calls st) = map (\<lambda>m. (Namespace m, m_name m)) placed"
    using schedule_loop_fits [OF tick [unfolded schedule_tick_def] node(1,2)] by auto
  then show ?thesis using load set by (intro exI [of _ placed]) (auto dest: list_emb_set)
qed

definition roomy_node :: Node where
  "roomy_node = ready_node ''n'' [] [(''cpu'', ''3''), (''memory'', ''4Gi'')]"

definition two_cpus :: "string \<Rightarrow> Machine" where
  "two_cpus name = Machine0\<lparr>mach_Metadata := ObjectMeta0\<lparr>meta_Name := name\<rparr>,
     mach_Spec := (mach_Spec Machine0)\<lparr>spec_Resources := ResourceSpec0\<lparr>res_CPU := ''2'', res_Memory := ''1Gi'',
       res_CPUPinning := False, res_AllocatedCPUSet := []\<rparr>\<rparr>\<rparr>"

lemma roomy_allocatable: "nodeAllocatable roomy_node = Some (3000, 4096)"
  using ParseVCPUs_units(1) [of 3] ParseMemoryMiB_units(2) [of 4]
  by (simp add: nodeAllocatable_def roomy_node_def ready_node_def show_nat.simps)

lemma two_cpus_requests: "machineRequests (two_cpus name) = (2000, 1024)"
  using ParseMemoryMiB_units(2) [of 1] by (simp add: machineRequests_def two_cpus_def ParseVCPUs_2 show_nat.simps)

theorem tick_never_overcommits_witness:
  "length (assigned_to ''n'' (ss_calls (snd
     (schedule_tick False [roomy_node] [two_cpus ''a'', two_cpus ''b''] [] 0 (\<lambda>_ _. None) [] [] [])))) \<le> 1"
proof -
  have here: "on_node ''n'' [two_cpus ''a'', two_cpus ''b''] = []"
    by (simp add: on_node_def two_cpus_def Machine0_def)
  have n: "node_name roomy_node = ''n''" by (simp add: roomy_node_def ready_node_def)
  obtain placed where p: "set placed \<subseteq> set (pending_machines [] [] [two_cpus ''a'', two_cpus ''b''])"
    "assigned_to ''n'' (ss_calls (snd (schedule_tick False [roomy_node] [two_cpus ''a'', two_cpus ''b''] [] 0 (\<lambda>_ _. None) [] [] [])))
       = map (\<lambda>m. (Namespace m, m_name m)) placed" "cpu_demand placed \<le> 3000"
    using tick_never_overcommits [where rc = False and n = roomy_node and nodes = "[roomy_node]" and cpu = 3000 and mem = 4096
      and machines = "[two_cpus ''a'', two_cpus ''b'']" and draHints = "[]" and now = 0 and patch_err = "\<lambda>_ _. None"
      and volumesNotReady = "[]" and imagesNotReady = "[]" and ts = "[]", OF surjective_pairing]
    by (auto simp: here n roomy_allocatable two_cpus_requests)
  have "set (pending_machines [] [] [two_cpus ''a'', two_cpus ''b'']) \<subseteq> {two_cpus ''a'', two_cpus ''b''}"
    by (simp add: pending_machines_def)
  with p(1) have "set placed \<subseteq> {two_cpus ''a'', two_cpus ''b''}" by blast
  then have "cpu_demand placed = 2000 * int (length placed)"
    by (induction placed) (auto simp: two_cpus_requests)
  with p show ?thesis by simp
qed

section \<open>Pinned CPUs\<close>

lemma AllocateCPUSet_prefix:
  "AllocateCPUSet m n machines = Ok cpus \<Longrightarrow> prefix cpus (freePinnableCPUs n machines)"
  by (auto simp: AllocateCPUSet_def Let_def take_is_prefix split: sum.splits if_splits)

lemma attempt_cpus:
  assumes "attempt rc nodes machines m st r st'" "CallAssign ns name node (Some cpus) \<in> set (ss_calls st')"
  shows "CallAssign ns name node (Some cpus) \<in> set (ss_calls st) \<or> prefix cpus (freePinnableCPUs (node_named nodes node) machines)"
  using assms by cases (auto intro: AllocateCPUSet_prefix split: if_splits)

lemma schedule_loop_cpus:
  assumes "schedule_loop rc nodes machines draHints now patch_err ms st = (r, st')"
    and "CallAssign ns name node (Some cpus) \<in> set (ss_calls st')"
  shows "CallAssign ns name node (Some cpus) \<in> set (ss_calls st) \<or> prefix cpus (freePinnableCPUs (node_named nodes node) machines)"
  using assms
proof (induction ms arbitrary: st)
  case (Cons m ms)
  obtain r1 st1 where one: "schedule_one rc nodes machines draHints now patch_err m st = (r1, st1)" by fastforce
  have "CallAssign ns name node (Some cpus) \<in> set (ss_calls st1) \<or> prefix cpus (freePinnableCPUs (node_named nodes node) machines)"
  proof (cases r1)
    case None
    with Cons.prems(1) one have "schedule_loop rc nodes machines draHints now patch_err ms st1 = (r, st')" by simp
    then show ?thesis using Cons.IH Cons.prems(2) by blast
  next
    case (Some e)
    with Cons.prems one show ?thesis by simp
  qed
  then show ?case using attempt_cpus [OF schedule_one_attempt [OF one]] by blast
qed simp

text \<open>
  C39. Within one tick the CPUs of a node are given out more than once. Every pinned Machine
  the tick assigns to a node gets a prefix of the same list of free CPUs, the one computed
  from the Machines as they were listed before the tick; so of two pinned Machines assigned
  to one node in a tick, the CPUs of one are always among those of the other.
\<close>

theorem pinned_machines_share_cpus:
  assumes "schedule_tick rc nodes machines draHints now patch_err volumesNotReady imagesNotReady ts = (r, st)"
    and "CallAssign ns1 name1 node (Some cpus1) \<in> set (ss_calls st)"
    and "CallAssign ns2 name2 node (Some cpus2) \<in> set (ss_calls st)"
  shows "prefix cpus1 cpus2 \<or> prefix cpus2 cpus1"
  using schedule_loop_cpus [OF assms(1) [unfolded schedule_tick_def] assms(2)]
    schedule_loop_cpus [OF assms(1) [unfolded schedule_tick_def] assms(3)] prefix_same_cases by auto

definition three_pinned :: "Machine list" where
  "three_pinned = [pinned_machine ''o'' ''n'' [0, 2], pinned_machine ''a'' '''' [], pinned_machine ''b'' '''' []]"

lemma three_pinned_free: "freePinnableCPUs pin_node three_pinned = [1, 3, 4, 5]"
  by (simp add: freePinnableCPUs_def pin_node_def pinned_machine_def three_pinned_def example_defs mget_def ParseCPUList_0_5)

lemma three_pinned_alloc: "AllocateCPUSet (pinned_machine name '''' []) pin_node three_pinned = Ok [1, 3]"
  unfolding AllocateCPUSet_def Let_def three_pinned_free by (simp add: pinned_machine_def ParseVCPUs_2 word_less_nat_alt)

lemma three_pinned_choice: "Choose False (pinned_machine name '''' []) [pin_node] three_pinned load '''' = Ok ''n''"
proof -
  have "eligible False (pinned_machine name '''' []) pin_node [pin_node] three_pinned l = None" for l
    unfolding eligible_None pinning_reason_def Let_def three_pinned_free
    by (simp add: pinned_machine_def pin_node_def example_defs ready_def capacityFits_def nodeAllocatable_def ParseVCPUs_2 word_less_nat_alt)
  then show ?thesis
    using Choose_only_node [of False "pinned_machine name '''' []" pin_node three_pinned load "''''"]
    by (simp add: hard_constraints_def pinned_machine_def pin_node_def example_defs)
qed

lemma three_pinned_one:
  "schedule_one False [pin_node] three_pinned [] 0 (\<lambda>_ _. None) (pinned_machine name '''' []) st
     = (None, st\<lparr>ss_calls := ss_calls st @ [CallAssign ''default'' name ''n'' (Some [1, 3])],
         ss_load := Reserve (ss_load st) ''n'' (pinned_machine name '''' [])\<rparr>)"
  if "ss_trackers st = []"
proof -
  have "node_named [pin_node] ''n'' = pin_node" by (simp add: pin_node_def ready_node_def)
  moreover have "res_CPUPinning (m_res (pinned_machine name '''' []))" "Namespace (pinned_machine name '''' []) = ''default''"
    "m_name (pinned_machine name '''' []) = name"
    by (simp_all add: pinned_machine_def example_defs Namespace_def meta_ns_def DefaultNamespace_def)
  ultimately show ?thesis
    using that by (simp add: schedule_one_def three_pinned_choice three_pinned_alloc admitQuota_def assign_machine_def mget_def)
qed

theorem pinned_machines_share_cpus_witness:
  "\<exists>st. schedule_tick False [pin_node] three_pinned [] 0 (\<lambda>_ _. None) [] [] [] = (None, st)
     \<and> CallAssign ''default'' ''a'' ''n'' (Some [1, 3]) \<in> set (ss_calls st)
     \<and> CallAssign ''default'' ''b'' ''n'' (Some [1, 3]) \<in> set (ss_calls st)
     \<and> (prefix [1, 3 :: nat] [1, 3] \<or> prefix [1, 3 :: nat] [1, 3])"
proof -
  have "SortByPriorityDesc (pending_machines [] [] three_pinned) = [pinned_machine ''a'' '''' [], pinned_machine ''b'' '''' []]"
    by (simp add: three_pinned_def pending_machines_def pinned_machine_def example_defs SortByPriorityDesc_def DesiredPowerState_def)
  then have "\<exists>st. schedule_tick False [pin_node] three_pinned [] 0 (\<lambda>_ _. None) [] [] [] = (None, st)
     \<and> CallAssign ''default'' ''a'' ''n'' (Some [1, 3]) \<in> set (ss_calls st)
     \<and> CallAssign ''default'' ''b'' ''n'' (Some [1, 3]) \<in> set (ss_calls st)"
    by (simp add: schedule_tick_def three_pinned_one)
  then show ?thesis using pinned_machines_share_cpus by metis
qed

end
