(* ===== verification/Go_Time.thy ===== *)
theory Go_Time
  imports Go_Strings
begin

text \<open>
  Go's \<open>time.Duration\<close>, an \<open>int64\<close> count of nanoseconds: the constants the sources use and the
  text its \<open>String\<close> method gives, which ends up in messages.
\<close>

definition Microsecond :: int where "Microsecond = 1000"
definition Millisecond :: int where "Millisecond = 1000 * Microsecond"
definition Second :: int where "Second = 1000 * Millisecond"
definition Minute :: int where "Minute = 60 * Second"
definition Hour :: int where "Hour = 60 * Minute"

lemmas duration_defs = Microsecond_def Millisecond_def Second_def Minute_def Hour_def

fun pad_digits :: "nat \<Rightarrow> int \<Rightarrow> string" where
  \<comment> \<open>the last digits of a number, so many of them\<close>
  "pad_digits 0 v = []"
| "pad_digits (Suc k) v = pad_digits k (v div 10) @ show_int (v mod 10)"

definition show_frac :: "int \<Rightarrow> nat \<Rightarrow> string" where
  \<comment> \<open>the fraction of a value in units of a power of ten, without trailing zeros\<close>
  "show_frac v prec = (case rev (dropWhile (\<lambda>c. c = CHR ''0'') (rev (pad_digits prec v))) of
     [] \<Rightarrow> [] | ds \<Rightarrow> ''.'' @ ds)"

definition show_duration :: "int \<Rightarrow> string" where
  "show_duration d = (let u = \<bar>d\<bar>; sign = (if d < 0 then ''-'' else []) in
     if u = 0 then ''0s''
     else if u < Microsecond then sign @ show_int u @ ''ns''
     else if u < Millisecond then sign @ show_int (u div Microsecond) @ show_frac u 3 @ [CHR 0xC2, CHR 0xB5, CHR ''s'']
     else if u < Second then sign @ show_int (u div Millisecond) @ show_frac u 6 @ ''ms''
     else let secs = u div Second; mins = secs div 60; hours = mins div 60;
              s = show_int (secs mod 60) @ show_frac u 9 @ ''s'';
              m = (if mins = 0 then s else show_int (mins mod 60) @ ''m'' @ s)
          in sign @ (if hours = 0 then m else show_int hours @ ''h'' @ m))"


section \<open>64-bit arithmetic on durations and instants\<close>

text \<open>
  An instant counts nanoseconds since the first of January of the year 1, UTC, the zero value
  of \<open>time.Time\<close>. Products of durations wrap at 64 bits; the difference of two instants is
  capped at the ends of that range.
\<close>

definition wrap64 :: "int \<Rightarrow> int" where
  "wrap64 x = (x + 2 ^ 63) mod 2 ^ 64 - 2 ^ 63"

definition seconds :: "int \<Rightarrow> int" where
  \<comment> \<open>\<open>time.Duration(n) * time.Second\<close>\<close>
  "seconds n = wrap64 (n * Second)"

definition time_Sub :: "int \<Rightarrow> int \<Rightarrow> int" where
  "time_Sub t u = max (- (2 ^ 63)) (min (2 ^ 63 - 1) (t - u))"

definition unix_epoch :: int where
  "unix_epoch = 62135596800 * Second"

definition time_Unix :: "int \<Rightarrow> int" where
  "time_Unix t = (t - unix_epoch) div Second"

definition Day :: int where "Day = 24 * Hour"

lemma wrap64_id: "- (2 ^ 63) \<le> x \<Longrightarrow> x < 2 ^ 63 \<Longrightarrow> wrap64 x = x"
  by (simp add: wrap64_def)

lemma time_Sub_id: "- (2 ^ 63) \<le> t - u \<Longrightarrow> t - u < 2 ^ 63 \<Longrightarrow> time_Sub t u = t - u"
  by (simp add: time_Sub_def)

lemma seconds_id: "0 \<le> n \<Longrightarrow> n \<le> 9000000000 \<Longrightarrow> seconds n = n * Second"
  by (simp add: seconds_def wrap64_id duration_defs)

end
