(* ===== verification/Migration_Session.thy ===== *)
theory Migration_Session
  imports Model_Types Go_Time
begin

text \<open>
  Migration sessions on the destination node, \<open>types.go\<close>, \<open>store.go\<close> and \<open>server.go\<close> of
  \<open>internal/migration\<close>: the session record, the durable store, and the handlers of the peer
  server with its reaper, each as one step on the store and the world of the destination
  driver. The store and the driver are the source's interfaces: records of the operations
  the server calls. \<open>FileStore\<close> implements the first.

  A handler takes the clock reading it makes and answers with the HTTP status and body it
  writes. What the JSON decoder makes of a request body is an argument. The interleavings of
  handlers are in \<open>Session_Race\<close>.
\<close>

section \<open>Sessions\<close>

record Session =
  ses_ID :: string
  ses_Namespace :: string
  ses_Machine :: string
  ses_SourceNode :: string
  ses_TargetNode :: string
  ses_RuntimeID :: string
  ses_Phase :: string
  ses_Backend :: string
  ses_Endpoint :: string
  ses_TransferSupported :: bool
  ses_Reason :: string
  ses_TransferID :: string
  ses_DataPlaneEncrypted :: bool
  ses_NetworkSnapshot :: string
  ses_ConntrackSnapshot :: string
  ses_DiskPath :: string
  ses_MAC :: string
  ses_VCPUs :: "32 word"
  ses_MemoryMiB :: "64 word"
  ses_MigrationNetwork :: string
  ses_CreatedAt :: time
  ses_UpdatedAt :: time

definition alnum :: "char \<Rightarrow> bool" where
  \<comment> \<open>the character class \<open>[a-zA-Z0-9]\<close>\<close>
  "alnum c = in_class [(CHR ''a'', CHR ''z''), (CHR ''A'', CHR ''Z''), (CHR ''0'', CHR ''9'')] c"

definition safe_text :: "nat \<Rightarrow> string \<Rightarrow> bool" where
  \<comment> \<open>a letter or digit, then at most so many letters, digits, dots, underscores and dashes\<close>
  "safe_text k s = (case s of [] \<Rightarrow> False | c # cs \<Rightarrow>
     alnum c \<and> length cs \<le> k \<and> list_all (\<lambda>c. alnum c \<or> c \<in> {CHR ''.'', CHR ''_'', CHR ''-''}) cs)"

definition safeID :: "string \<Rightarrow> bool" where "safeID = safe_text 127"
definition safeName :: "string \<Rightarrow> bool" where "safeName = safe_text 252"

definition SessionValidate :: "Session \<Rightarrow> err option" where
  \<comment> \<open>The four names are ranged over as a map, in no fixed order; the model takes the order of
      the literal, which only decides which of several errors is named.\<close>
  "SessionValidate s =
     (if \<not> safeID (ses_ID s) then Some (''invalid id '' @ Quote (ses_ID s))
      else case List.find (\<lambda>(name, value). \<not> safeName value)
        [(''namespace'', ses_Namespace s), (''machine'', ses_Machine s),
         (''sourceNode'', ses_SourceNode s), (''targetNode'', ses_TargetNode s)] of
        Some (name, value) \<Rightarrow> Some (''invalid '' @ name @ '' '' @ Quote value)
      | None \<Rightarrow>
          if ses_SourceNode s = ses_TargetNode s then Some ''sourceNode and targetNode must differ''
          else if ses_MigrationNetwork s \<noteq> '''' \<and> \<not> safeName (ses_MigrationNetwork s)
          then Some (''invalid migrationNetwork '' @ Quote (ses_MigrationNetwork s))
          else None)"

definition SameIdentity :: "Session \<Rightarrow> Session \<Rightarrow> bool" where
  "SameIdentity s other = (ses_ID s = ses_ID other \<and> ses_Namespace s = ses_Namespace other
     \<and> ses_Machine s = ses_Machine other \<and> ses_SourceNode s = ses_SourceNode other
     \<and> ses_TargetNode s = ses_TargetNode other \<and> ses_RuntimeID s = ses_RuntimeID other)"

record PrepareResult =
  pr_TransferSupported :: bool
  pr_Endpoint :: string
  pr_Backend :: string
  pr_Reason :: string
  pr_DataPlaneEncrypted :: bool

record PrepareResponse =
  resp_SessionID :: string
  resp_Phase :: string
  resp_TransferSupported :: bool
  resp_Endpoint :: string
  resp_Backend :: string
  resp_Reason :: string
  resp_DataPlaneEncrypted :: bool

record DiagnosisResult =
  diag_SessionPhase :: string
  diag_DestinationRuntimeFound :: bool
  diag_DestinationRuntimeStatus :: string
  diag_DestinationRuntimeID :: string
  diag_DestinationGuestIP :: string
  diag_ObservedAt :: time

definition response :: "Session \<Rightarrow> PrepareResponse" where
  "response s = \<lparr>resp_SessionID = ses_ID s, resp_Phase = ses_Phase s, resp_TransferSupported = ses_TransferSupported s,
     resp_Endpoint = ses_Endpoint s, resp_Backend = ses_Backend s, resp_Reason = ses_Reason s,
     resp_DataPlaneEncrypted = ses_DataPlaneEncrypted s\<rparr>"

section \<open>The interfaces of the server\<close>

datatype StoreErr = NotFound | StoreFail err

definition store_msg :: "StoreErr \<Rightarrow> err" where
  "store_msg e = (case e of NotFound \<Rightarrow> ''migration session not found'' | StoreFail m \<Rightarrow> m)"

record 'st Store =
  store_Get :: "'st \<Rightarrow> string \<Rightarrow> (StoreErr + Session) \<times> 'st"
  store_Put :: "'st \<Rightarrow> Session \<Rightarrow> err option \<times> 'st"
  store_List :: "'st \<Rightarrow> Session list res \<times> 'st"

record 'w DestinationDriver =
  drv_Prepare :: "Session \<Rightarrow> 'w \<Rightarrow> PrepareResult res \<times> 'w"
  drv_Commit :: "Session \<Rightarrow> 'w \<Rightarrow> err option \<times> 'w"
  drv_Abort :: "Session \<Rightarrow> 'w \<Rightarrow> err option \<times> 'w"
  drv_Diagnose :: "(Session \<Rightarrow> time \<Rightarrow> 'w \<Rightarrow> DiagnosisResult res) option"

definition ErrUnsupported :: err where "ErrUnsupported = ''live migration backend unsupported''"

definition UnsupportedDestinationDriver :: "string \<Rightarrow> 'w DestinationDriver" where
  "UnsupportedDestinationDriver reason = \<lparr>
     drv_Prepare = (\<lambda>s w. (Ok \<lparr>pr_TransferSupported = False, pr_Endpoint = '''', pr_Backend = '''',
       pr_Reason = (if TrimSpace reason = '''' then ''no destination migration adapter is configured'' else TrimSpace reason),
       pr_DataPlaneEncrypted = False\<rparr>, w)),
     drv_Commit = (\<lambda>s w. (Some ErrUnsupported, w)),
     drv_Abort = (\<lambda>s w. (None, w)),
     drv_Diagnose = None\<rparr>"

record ('st, 'w) Server =
  srv_Store :: "'st Store option"
  srv_Driver :: "'w DestinationDriver option"
  srv_NodeName :: string
  srv_HeartbeatTTL :: int

datatype Reply =
    Reply nat PrepareResponse
  | ReplyDiagnosis nat DiagnosisResult
  | ReplyError nat err

section \<open>The file store\<close>

text \<open>
  The directory of session files: each file name with what its content decodes to, or the
  error of the decoder. Every access consumes one outcome of the list of faults, None when the
  operating system grants it; past the end of the list there are no faults. A failing \<open>Put\<close>
  fails before the rename, so it leaves the files as they are.
\<close>

record FileStore =
  fs_files :: "(string \<times> Session res) list"
  fs_faults :: "err option list"

definition next_fault :: "FileStore \<Rightarrow> err option \<times> FileStore" where
  "next_fault st = (case fs_faults st of [] \<Rightarrow> (None, st) | f # fs \<Rightarrow> (f, st\<lparr>fs_faults := fs\<rparr>))"

definition fs_path :: "string \<Rightarrow> string res" where
  "fs_path sid = (if \<not> safeID sid then Err (''invalid session id '' @ Quote sid) else Ok (sid @ ''.json''))"

definition fs_Get :: "FileStore \<Rightarrow> string \<Rightarrow> (StoreErr + Session) \<times> FileStore" where
  "fs_Get st sid = (case fs_path sid of
     Inl e \<Rightarrow> (Inl (StoreFail e), st)
   | Inr path \<Rightarrow>
       let (fault, st) = next_fault st in
       case fault of
         Some e \<Rightarrow> (Inl (StoreFail e), st)
       | None \<Rightarrow> (case map_of (fs_files st) path of
           None \<Rightarrow> (Inl NotFound, st)
         | Some (Inl e) \<Rightarrow> (Inl (StoreFail (''decode session '' @ sid @ '': '' @ e)), st)
         | Some (Inr s) \<Rightarrow> (Inr s, st)))"

definition fs_Put :: "FileStore \<Rightarrow> Session \<Rightarrow> err option \<times> FileStore" where
  "fs_Put st s = (case SessionValidate s of
     Some e \<Rightarrow> (Some e, st)
   | None \<Rightarrow> (case fs_path (ses_ID s) of
       Inl e \<Rightarrow> (Some e, st)
     | Inr path \<Rightarrow>
         let (fault, st) = next_fault st in
         case fault of
           Some e \<Rightarrow> (Some e, st)
         | None \<Rightarrow> (None, st\<lparr>fs_files := mput (fs_files st) path (Ok s)\<rparr>)))"

fun read_sessions :: "(string \<times> Session res) list \<Rightarrow> FileStore \<Rightarrow> Session list \<times> FileStore" where
  "read_sessions [] st = ([], st)"
| "read_sessions ((name, content) # fs) st =
     (if \<not> HasSuffix name ''.json'' then read_sessions fs st
      else let (fault, st) = next_fault st; (ss, st) = read_sessions fs st in
        (case (fault, content) of (None, Inr s) \<Rightarrow> (s # ss, st) | _ \<Rightarrow> (ss, st)))"

definition fs_List :: "FileStore \<Rightarrow> Session list res \<times> FileStore" where
  "fs_List st = (let (fault, st) = next_fault st in
     case fault of
       Some e \<Rightarrow> (Err e, st)
     | None \<Rightarrow> let (ss, st) = read_sessions (sort_by (\<lambda>a b. fst a < fst b) (fs_files st)) st in (Ok ss, st))"

definition FileStoreOps :: "FileStore Store" where
  "FileStoreOps = \<lparr>store_Get = fs_Get, store_Put = fs_Put, store_List = fs_List\<rparr>"

section \<open>Handlers\<close>

definition dependencies :: "('st, 'w) Server \<Rightarrow> err option" where
  "dependencies srv = (if srv_Store srv = None then Some ''migration store is not configured''
     else if srv_Driver srv = None then Some ''migration destination driver is not configured'' else None)"

definition new_session :: "time \<Rightarrow> Session \<Rightarrow> PrepareResult \<Rightarrow> Session" where
  "new_session now s result = s\<lparr>ses_CreatedAt := now, ses_UpdatedAt := now,
     ses_TransferSupported := pr_TransferSupported result, ses_Endpoint := pr_Endpoint result,
     ses_Backend := pr_Backend result, ses_Reason := pr_Reason result,
     ses_DataPlaneEncrypted := pr_DataPlaneEncrypted result,
     ses_Phase := (if pr_TransferSupported result then ''Prepared'' else ''Unsupported'')\<rparr>"

definition prepare_new :: "'st Store \<Rightarrow> 'w DestinationDriver \<Rightarrow> time \<Rightarrow> Session \<Rightarrow> 'st \<Rightarrow> 'w \<Rightarrow> Reply \<times> 'st \<times> 'w" where
  \<comment> \<open>the part of \<open>prepare\<close> for a session the store does not have\<close>
  "prepare_new S D now s st w = (case drv_Prepare D s w of
     (Inl e, w) \<Rightarrow> (ReplyError 502 (''prepare destination: '' @ e), st, w)
   | (Inr result, w) \<Rightarrow>
       if pr_TransferSupported result \<and> TrimSpace (pr_Endpoint result) = ''''
       then (ReplyError 502 ''destination driver claimed support but returned an empty endpoint'', st, w)
       else let session = new_session now s result in
         (case store_Put S st session of
            (Some e, st) \<Rightarrow> let (_, w) = drv_Abort D session w in (ReplyError 500 e, st, w)
          | (None, st) \<Rightarrow> (Reply 201 (response session), st, w)))"

definition prepare :: "('st, 'w) Server \<Rightarrow> time \<Rightarrow> Session res \<Rightarrow> 'st \<Rightarrow> 'w \<Rightarrow> Reply \<times> 'st \<times> 'w" where
  "prepare srv now req st w = (case dependencies srv of
     Some e \<Rightarrow> (ReplyError 503 e, st, w)
   | None \<Rightarrow> (case req of
       Inl e \<Rightarrow> (ReplyError 400 e, st, w)
     | Inr s \<Rightarrow> (case SessionValidate s of
         Some e \<Rightarrow> (ReplyError 400 e, st, w)
       | None \<Rightarrow>
           if srv_NodeName srv \<noteq> '''' \<and> ses_TargetNode s \<noteq> srv_NodeName srv
           then (ReplyError 403 (''session targets node '' @ Quote (ses_TargetNode s) @ '' but this peer is '' @ Quote (srv_NodeName srv)), st, w)
           else let S = the (srv_Store srv); D = the (srv_Driver srv) in
             (case store_Get S st (ses_ID s) of
                (Inr existing, st) \<Rightarrow>
                  if \<not> SameIdentity existing s
                  then (ReplyError 409 ''session id already exists with different immutable identity'', st, w)
                  else (Reply 200 (response existing), st, w)
              | (Inl (StoreFail e), st) \<Rightarrow> (ReplyError 500 e, st, w)
              | (Inl NotFound, st) \<Rightarrow> prepare_new S D now s st w))))"

definition get_failed :: "StoreErr \<Rightarrow> Reply" where
  \<comment> \<open>the answer of every handler to a session it cannot read\<close>
  "get_failed e = (case e of NotFound \<Rightarrow> ReplyError 404 (store_msg e) | StoreFail m \<Rightarrow> ReplyError 500 m)"

definition get_session :: "('st, 'w) Server \<Rightarrow> string \<Rightarrow> 'st \<Rightarrow> 'w \<Rightarrow> Reply \<times> 'st \<times> 'w" where
  "get_session srv sid st w = (case srv_Store srv of
     None \<Rightarrow> (ReplyError 503 ''migration store is not configured'', st, w)
   | Some S \<Rightarrow> (case store_Get S st sid of
       (Inl e, st) \<Rightarrow> (get_failed e, st, w)
     | (Inr s, st) \<Rightarrow> (Reply 200 (response s), st, w)))"

datatype Verdict = AlreadyThere | Refused err | Proceed

definition transition_verdict :: "string \<Rightarrow> Session \<Rightarrow> Verdict" where
  \<comment> \<open>what the guards of \<open>transition\<close> decide on the session they read\<close>
  "transition_verdict desired s =
     (if ses_Phase s = desired then AlreadyThere
      else if desired = ''Committed'' \<and> ses_Phase s \<noteq> ''Prepared'' then Refused (''cannot commit session in phase '' @ ses_Phase s)
      else if desired = ''Aborted'' \<and> ses_Phase s = ''Committed'' then Refused ''cannot abort a committed session''
      else Proceed)"

definition advance :: "string \<Rightarrow> time \<Rightarrow> Session \<Rightarrow> Session" where
  "advance desired now s = s\<lparr>ses_Phase := desired, ses_UpdatedAt := now\<rparr>"

definition transition ::
  "('st, 'w) Server \<Rightarrow> time \<Rightarrow> string \<Rightarrow> string \<Rightarrow> (Session \<Rightarrow> 'w \<Rightarrow> err option \<times> 'w) \<Rightarrow> 'st \<Rightarrow> 'w \<Rightarrow> Reply \<times> 'st \<times> 'w" where
  "transition srv now sid desired fn st w = (case dependencies srv of
     Some e \<Rightarrow> (ReplyError 503 e, st, w)
   | None \<Rightarrow> let S = the (srv_Store srv) in
       (case store_Get S st sid of
          (Inl e, st) \<Rightarrow> (get_failed e, st, w)
        | (Inr s, st) \<Rightarrow> (case transition_verdict desired s of
            AlreadyThere \<Rightarrow> (Reply 200 (response s), st, w)
          | Refused e \<Rightarrow> (ReplyError 409 e, st, w)
          | Proceed \<Rightarrow> (case fn s w of
              (Some e, w) \<Rightarrow> (ReplyError 502 e, st, w)
            | (None, w) \<Rightarrow> (case store_Put S st (advance desired now s) of
                (Some e, st) \<Rightarrow> (ReplyError 500 e, st, w)
              | (None, st) \<Rightarrow> (Reply 200 (response (advance desired now s)), st, w))))))"

definition commit :: "('st, 'w) Server \<Rightarrow> time \<Rightarrow> string \<Rightarrow> 'st \<Rightarrow> 'w \<Rightarrow> Reply \<times> 'st \<times> 'w" where
  "commit srv now sid = transition srv now sid ''Committed'' (drv_Commit (the (srv_Driver srv)))"

definition abort :: "('st, 'w) Server \<Rightarrow> time \<Rightarrow> string \<Rightarrow> 'st \<Rightarrow> 'w \<Rightarrow> Reply \<times> 'st \<times> 'w" where
  "abort srv now sid = transition srv now sid ''Aborted'' (drv_Abort (the (srv_Driver srv)))"

definition heartbeat :: "('st, 'w) Server \<Rightarrow> time \<Rightarrow> string \<Rightarrow> 'st \<Rightarrow> 'w \<Rightarrow> Reply \<times> 'st \<times> 'w" where
  "heartbeat srv now sid st w = (case srv_Store srv of
     None \<Rightarrow> (ReplyError 503 ''migration store is not configured'', st, w)
   | Some S \<Rightarrow> (case store_Get S st sid of
       (Inl e, st) \<Rightarrow> (get_failed e, st, w)
     | (Inr s, st) \<Rightarrow>
         if ses_Phase s = ''Prepared'' then
           (let s' = s\<lparr>ses_UpdatedAt := now\<rparr> in
            case store_Put S st s' of
              (Some e, st) \<Rightarrow> (ReplyError 500 e, st, w)
            | (None, st) \<Rightarrow> (Reply 200 (response s'), st, w))
         else (Reply 200 (response s), st, w)))"

definition stale :: "int \<Rightarrow> time \<Rightarrow> Session \<Rightarrow> bool" where
  "stale ttl now s = (ses_Phase s = ''Prepared'' \<and> ttl \<le> now - ses_UpdatedAt s)"

definition reaped :: "int \<Rightarrow> time \<Rightarrow> Session \<Rightarrow> Session" where
  "reaped ttl now s = s\<lparr>ses_Phase := ''Aborted'',
     ses_Reason := ''heartbeat timeout: no renewal for over '' @ show_duration ttl @ '', presumed source failure'',
     ses_UpdatedAt := now\<rparr>"

definition reapOne :: "'st Store \<Rightarrow> 'w DestinationDriver \<Rightarrow> int \<Rightarrow> time \<Rightarrow> time \<Rightarrow> string \<Rightarrow> 'st \<times> 'w \<Rightarrow> 'st \<times> 'w" where
  \<comment> \<open>the two instants are the one the pass started at and the one of the final write\<close>
  "reapOne S D ttl now later sid = (\<lambda>(st, w). case store_Get S st sid of
     (Inl e, st) \<Rightarrow> (st, w)
   | (Inr s, st) \<Rightarrow>
       if \<not> stale ttl now s then (st, w)
       else (case drv_Abort D s w of
           (Some e, w) \<Rightarrow> (st, w)
         | (None, w) \<Rightarrow> (snd (store_Put S st (reaped ttl later s)), w)))"

definition ReapStaleSessions :: "('st, 'w) Server \<Rightarrow> time \<Rightarrow> (string \<Rightarrow> time) \<Rightarrow> 'st \<Rightarrow> 'w \<Rightarrow> err option \<times> 'st \<times> 'w" where
  \<comment> \<open>the function gives the clock reading of the write to each session\<close>
  "ReapStaleSessions srv now later st w =
     (if srv_HeartbeatTTL srv \<le> 0 \<or> srv_Store srv = None \<or> srv_Driver srv = None then (None, st, w)
      else let S = the (srv_Store srv); D = the (srv_Driver srv); ttl = srv_HeartbeatTTL srv in
        (case store_List S st of
           (Inl e, st) \<Rightarrow> (Some (''list sessions: '' @ e), st, w)
         | (Inr sessions, st) \<Rightarrow>
             (None, foldl (\<lambda>c s. if \<not> stale ttl now s then c else reapOne S D ttl now (later (ses_ID s)) (ses_ID s) c)
                      (st, w) sessions)))"

definition diagnosis :: "('st, 'w) Server \<Rightarrow> time \<Rightarrow> string \<Rightarrow> 'st \<Rightarrow> 'w \<Rightarrow> Reply \<times> 'st \<times> 'w" where
  "diagnosis srv now sid st w = (case srv_Store srv of
     None \<Rightarrow> (ReplyError 503 ''migration store is not configured'', st, w)
   | Some S \<Rightarrow> (case store_Get S st sid of
       (Inl e, st) \<Rightarrow> (get_failed e, st, w)
     | (Inr s, st) \<Rightarrow> (case Option.bind (srv_Driver srv) drv_Diagnose of
         None \<Rightarrow> (ReplyDiagnosis 200 \<lparr>diag_SessionPhase = ses_Phase s, diag_DestinationRuntimeFound = False,
             diag_DestinationRuntimeStatus = '''', diag_DestinationRuntimeID = '''', diag_DestinationGuestIP = '''',
             diag_ObservedAt = now\<rparr>, st, w)
       | Some f \<Rightarrow> (case f s now w of
           Inl e \<Rightarrow> (ReplyError 502 (''diagnose destination: '' @ e), st, w)
         | Inr d \<Rightarrow> (ReplyDiagnosis 200 d, st, w)))))"

section \<open>Request sequences\<close>

datatype Request =
    RPrepare "Session res"
  | RGet string
  | RCommit string
  | RAbort string
  | RHeartbeat string
  | RDiagnosis string
  | RReap "string \<Rightarrow> time"

fun handle :: "('st, 'w) Server \<Rightarrow> time \<times> Request \<Rightarrow> 'st \<times> 'w \<Rightarrow> 'st \<times> 'w" where
  \<comment> \<open>the routes of \<open>Handler\<close> and the reaper, replies left out\<close>
  "handle srv (now, RPrepare s) (st, w) = snd (prepare srv now s st w)"
| "handle srv (now, RGet sid) (st, w) = snd (get_session srv sid st w)"
| "handle srv (now, RCommit sid) (st, w) = snd (commit srv now sid st w)"
| "handle srv (now, RAbort sid) (st, w) = snd (abort srv now sid st w)"
| "handle srv (now, RHeartbeat sid) (st, w) = snd (heartbeat srv now sid st w)"
| "handle srv (now, RDiagnosis sid) (st, w) = snd (diagnosis srv now sid st w)"
| "handle srv (now, RReap later) (st, w) = snd (ReapStaleSessions srv now later st w)"


definition serve :: "('st, 'w) Server \<Rightarrow> (time \<times> Request) list \<Rightarrow> 'st \<times> 'w \<Rightarrow> 'st \<times> 'w" where
  "serve srv rs c = fold (handle srv) rs c"

section \<open>What a store promises\<close>

text \<open>
  The contract of the interface: reading changes nothing and answers what is held, a write
  that succeeds holds exactly the session under its id, one that fails changes nothing.
  Everything the handlers guarantee of sessions follows from it.
\<close>

definition keyed :: "(string \<Rightarrow> Session option) \<Rightarrow> bool" where
  "keyed h \<longleftrightarrow> (\<forall>sid s. h sid = Some s \<longrightarrow> ses_ID s = sid)"

definition later :: "Session option \<Rightarrow> Session option \<Rightarrow> bool" where
  \<comment> \<open>what may become of a session: it keeps its identity and its creation, a committed or
      aborted one never changes, and only a prepared one is committed\<close>
  "later a b \<longleftrightarrow> (\<forall>s. a = Some s \<longrightarrow> (\<exists>s'. b = Some s' \<and> SameIdentity s s' \<and> ses_CreatedAt s' = ses_CreatedAt s
     \<and> (ses_Phase s \<in> {''Committed'', ''Aborted''} \<longrightarrow> s' = s)
     \<and> (ses_Phase s' \<in> {''Prepared'', ''Committed''} \<longrightarrow> ses_Phase s \<in> {''Prepared'', ses_Phase s'})))"

definition moves :: "(string \<Rightarrow> Session option) \<Rightarrow> (string \<Rightarrow> Session option) \<Rightarrow> bool" where
  "moves h h' \<longleftrightarrow> (keyed h \<longrightarrow> keyed h' \<and> (\<forall>sid. later (h sid) (h' sid)))"

lemma SameIdentity_refl [simp]: "SameIdentity s s"
  by (simp add: SameIdentity_def)

lemma later_refl [simp]: "later a a"
  by (auto simp: later_def)

lemma later_None [simp]: "later None b"
  by (simp add: later_def)

lemma SameIdentity_trans: "SameIdentity a b \<Longrightarrow> SameIdentity b c \<Longrightarrow> SameIdentity a c"
  by (simp add: SameIdentity_def)

lemma back_trans: "y \<in> {p, c} \<longrightarrow> x \<in> {p, y} \<Longrightarrow> z \<in> {p, c} \<longrightarrow> y \<in> {p, z} \<Longrightarrow> z \<in> {p, c} \<longrightarrow> x \<in> {p, z}"
  by auto

lemma later_trans:
  assumes "later a b" "later b c"
  shows "later a c"
  unfolding later_def
proof (intro allI impI)
  fix s assume "a = Some s"
  with assms(1) obtain s' where 1: "b = Some s'" "SameIdentity s s'" "ses_CreatedAt s' = ses_CreatedAt s"
    "ses_Phase s \<in> {''Committed'', ''Aborted''} \<longrightarrow> s' = s"
    "ses_Phase s' \<in> {''Prepared'', ''Committed''} \<longrightarrow> ses_Phase s \<in> {''Prepared'', ses_Phase s'}"
    unfolding later_def by blast
  from assms(2) 1(1) obtain s'' where 2: "c = Some s''" "SameIdentity s' s''" "ses_CreatedAt s'' = ses_CreatedAt s'"
    "ses_Phase s' \<in> {''Committed'', ''Aborted''} \<longrightarrow> s'' = s'"
    "ses_Phase s'' \<in> {''Prepared'', ''Committed''} \<longrightarrow> ses_Phase s' \<in> {''Prepared'', ses_Phase s''}"
    unfolding later_def by blast
  have "SameIdentity s s''" using 1(2) 2(2) by (rule SameIdentity_trans)
  moreover have "ses_Phase s \<in> {''Committed'', ''Aborted''} \<longrightarrow> s'' = s" using 1(4) 2(4) by blast
  moreover have "ses_Phase s'' \<in> {''Prepared'', ''Committed''} \<longrightarrow> ses_Phase s \<in> {''Prepared'', ses_Phase s''}"
    using 1(5) 2(5) by (rule back_trans)
  moreover have "ses_CreatedAt s'' = ses_CreatedAt s" using 2(3) 1(3) by (rule trans)
  ultimately show "\<exists>s'. c = Some s' \<and> SameIdentity s s' \<and> ses_CreatedAt s' = ses_CreatedAt s
     \<and> (ses_Phase s \<in> {''Committed'', ''Aborted''} \<longrightarrow> s' = s)
     \<and> (ses_Phase s' \<in> {''Prepared'', ''Committed''} \<longrightarrow> ses_Phase s \<in> {''Prepared'', ses_Phase s'})"
    using 2(1) by (intro exI [of _ s''] conjI) assumption+
qed

lemma moves_refl [simp]: "moves h h"
  by (simp add: moves_def)

lemma moves_trans: "moves h h' \<Longrightarrow> moves h' h'' \<Longrightarrow> moves h h''"
  unfolding moves_def using later_trans by blast

lemma moves_put:
  assumes "h (ses_ID s) = None \<or> (\<exists>s0. h (ses_ID s) = Some s0 \<and> later (Some s0) (Some s))"
  shows "moves h (h(ses_ID s \<mapsto> s))"
  using assms by (auto simp: moves_def keyed_def)

lemma laterI:
  assumes "SameIdentity s s'" "ses_CreatedAt s' = ses_CreatedAt s" "ses_Phase s \<notin> {''Committed'', ''Aborted''}"
    and "ses_Phase s' \<in> {''Prepared'', ''Committed''} \<Longrightarrow> ses_Phase s = ''Prepared''"
  shows "later (Some s) (Some s')"
  using assms unfolding later_def by blast

lemma transition_verdict_Proceed:
  "transition_verdict desired s = Proceed \<longleftrightarrow> ses_Phase s \<noteq> desired \<and> (desired = ''Committed'' \<longrightarrow> ses_Phase s = ''Prepared'')
     \<and> (desired = ''Aborted'' \<longrightarrow> ses_Phase s \<noteq> ''Committed'')"
  by (simp add: transition_verdict_def)

lemma later_advance:
  assumes "transition_verdict desired s = Proceed" "desired \<in> {''Committed'', ''Aborted''}"
  shows "later (Some s) (Some (advance desired now s))"
proof -
  from assms consider "desired = ''Committed''" "ses_Phase s = ''Prepared''"
    | "desired = ''Aborted''" "ses_Phase s \<noteq> ''Aborted''" "ses_Phase s \<noteq> ''Committed''"
    unfolding transition_verdict_Proceed by blast
  then show ?thesis by cases (rule laterI; simp add: SameIdentity_def advance_def)+
qed

lemma later_reaped: "stale ttl now s \<Longrightarrow> later (Some s) (Some (reaped ttl now' s))"
  by (rule laterI) (simp_all add: reaped_def stale_def SameIdentity_def)

lemma later_touch: "ses_Phase s = ''Prepared'' \<Longrightarrow> later (Some s) (Some (s\<lparr>ses_UpdatedAt := now\<rparr>))"
  by (rule laterI) (simp_all add: SameIdentity_def)

locale session_store =
  fixes S :: "'st Store" and holds :: "'st \<Rightarrow> string \<Rightarrow> Session option"
  assumes get_keeps: "store_Get S st sid = (r, st') \<Longrightarrow> holds st' = holds st"
    and get_found: "store_Get S st sid = (Inr s, st') \<Longrightarrow> holds st sid = Some s"
    and get_missing: "store_Get S st sid = (Inl NotFound, st') \<Longrightarrow> holds st sid = None"
    and put_done: "store_Put S st s = (None, st') \<Longrightarrow> holds st' = (holds st)(ses_ID s \<mapsto> s)"
    and put_failed: "store_Put S st s = (Some e, st') \<Longrightarrow> holds st' = holds st"
    and list_keeps: "store_List S st = (l, st') \<Longrightarrow> holds st' = holds st"
begin

lemma put_moves:
  assumes "store_Put S st s = (r, st')"
    and "holds st (ses_ID s) = None \<or> (\<exists>s0. holds st (ses_ID s) = Some s0 \<and> later (Some s0) (Some s))"
  shows "moves (holds st) (holds st')"
  using assms put_done put_failed moves_put by (cases r) auto

lemma update_moves:
  assumes "store_Get S st sid = (Inr s, st1)" "later (Some s) (Some s')" "ses_ID s' = ses_ID s" "store_Put S st1 s' = (r, st')"
  shows "moves (holds st) (holds st')"
proof -
  have h: "holds st1 = holds st" "holds st sid = Some s" using get_keeps get_found assms(1) by blast+
  show ?thesis
  proof (cases "keyed (holds st)")
    case True
    then have "ses_ID s' = sid" using h assms(3) by (simp add: keyed_def)
    then show ?thesis using put_moves [OF assms(4)] h assms(2) by auto
  qed (simp add: moves_def)
qed

lemma prepare_new_moves:
  assumes "prepare_new S D now s st w = (r, st', w')" "holds st (ses_ID s) = None"
  shows "moves (holds st) (holds st')"
proof -
  obtain g w1 where g: "drv_Prepare D s w = (g, w1)" by fastforce
  have "st' = st \<or> (\<exists>x p. store_Put S st (new_session now s x) = (p, st'))"
    using assms(1) g by (auto simp: prepare_new_def Let_def split: prod.splits sum.splits if_splits option.splits)
  moreover have "ses_ID (new_session now s x) = ses_ID s" for x by (simp add: new_session_def)
  ultimately show ?thesis using put_moves assms(2) by fastforce
qed

lemma prepare_moves:
  assumes "srv_Store srv = Some S" "prepare srv now req st w = (r, st', w')"
  shows "moves (holds st) (holds st')"
proof (cases "\<exists>s. req = Inr s \<and> dependencies srv = None \<and> SessionValidate s = None
    \<and> (srv_NodeName srv = '''' \<or> ses_TargetNode s = srv_NodeName srv)")
  case True
  then obtain s where s: "req = Inr s" "dependencies srv = None" "SessionValidate s = None"
    "srv_NodeName srv = '''' \<or> ses_TargetNode s = srv_NodeName srv" by blast
  obtain g st1 where g: "store_Get S st (ses_ID s) = (g, st1)" by fastforce
  have k: "holds st1 = holds st" by (rule get_keeps [OF g])
  show ?thesis
  proof (cases "g = Inl NotFound")
    case True
    then have "prepare_new S (the (srv_Driver srv)) now s st1 w = (r, st', w')" using assms g s by (auto simp: prepare_def Let_def)
    then show ?thesis using prepare_new_moves get_missing [OF g [unfolded True]] k by metis
  next
    case False
    then have "st' = st1" using assms g s
      by (auto simp: prepare_def Let_def split: sum.splits StoreErr.splits if_splits)
    then show ?thesis using k by simp
  qed
next
  case False
  then have "st' = st" using assms by (auto simp: prepare_def split: sum.splits option.splits if_splits)
  then show ?thesis by simp
qed

lemma transition_moves:
  assumes "srv_Store srv = Some S" "desired \<in> {''Committed'', ''Aborted''}" "transition srv now sid desired fn st w = (r, st', w')"
  shows "moves (holds st) (holds st')"
proof (cases "dependencies srv")
  case (Some e)
  with assms show ?thesis by (simp add: transition_def)
next
  case None
  obtain g st1 where g: "store_Get S st sid = (g, st1)" by fastforce
  show ?thesis
  proof (cases g)
    case (Inl e)
    with assms None g show ?thesis using get_keeps [OF g] by (simp add: transition_def)
  next
    case (Inr s)
    show ?thesis
    proof (cases "transition_verdict desired s = Proceed")
      case True
      obtain p st2 where p: "store_Put S st1 (advance desired now s) = (p, st2)" by fastforce
      have "moves (holds st) (holds st2)"
        using update_moves [OF g [unfolded Inr] later_advance [OF True assms(2)] _ p] by (simp add: advance_def)
      moreover have "st' = st1 \<or> st' = st2"
        using assms None g Inr True p by (auto simp: transition_def split: prod.splits option.splits)
      ultimately show ?thesis using get_keeps [OF g] by auto
    next
      case False
      with assms None g Inr have "st' = st1" by (auto simp: transition_def split: Verdict.splits)
      then show ?thesis using get_keeps [OF g] by simp
    qed
  qed
qed

lemma heartbeat_moves:
  assumes "srv_Store srv = Some S" "heartbeat srv now sid st w = (r, st', w')"
  shows "moves (holds st) (holds st')"
proof -
  obtain g st1 where g: "store_Get S st sid = (g, st1)" by fastforce
  have k: "holds st1 = holds st" by (rule get_keeps [OF g])
  show ?thesis
  proof (cases "\<exists>s. g = Inr s \<and> ses_Phase s = ''Prepared''")
    case True
    then obtain s where s: "g = Inr s" "ses_Phase s = ''Prepared''" by blast
    obtain p st2 where p: "store_Put S st1 (s\<lparr>ses_UpdatedAt := now\<rparr>) = (p, st2)" by fastforce
    have "st' = st2" using assms g s p by (auto simp: heartbeat_def Let_def split: option.splits)
    then show ?thesis using update_moves [OF g [unfolded s] later_touch [OF s(2)] _ p] by simp
  next
    case False
    with assms g have "st' = st1" by (auto simp: heartbeat_def split: sum.splits)
    then show ?thesis using k by simp
  qed
qed

lemma reapOne_moves:
  assumes "reapOne S D ttl now now' sid (st, w) = (st', w')"
  shows "moves (holds st) (holds st')"
proof -
  obtain g st1 where g: "store_Get S st sid = (g, st1)" by fastforce
  have k: "holds st1 = holds st" by (rule get_keeps [OF g])
  show ?thesis
  proof (cases "\<exists>s. g = Inr s \<and> stale ttl now s")
    case True
    then obtain s where s: "g = Inr s" "stale ttl now s" by blast
    obtain p st2 where p: "store_Put S st1 (reaped ttl now' s) = (p, st2)" by fastforce
    have "st' = st1 \<or> st' = st2" using assms g s p by (auto simp: reapOne_def split: prod.splits option.splits)
    then show ?thesis using update_moves [OF g [unfolded s] later_reaped [OF s(2)] _ p] k by (auto simp: reaped_def)
  next
    case False
    with assms g have "st' = st1" by (auto simp: reapOne_def split: sum.splits)
    then show ?thesis using k by simp
  qed
qed

lemma reap_loop_moves:
  "moves (holds (fst c)) (holds (fst (foldl (\<lambda>c s. if \<not> stale ttl now s then c
      else reapOne S D ttl now (lt (ses_ID s)) (ses_ID s) c) c ss)))"
proof (induction ss arbitrary: c)
  case (Cons s ss)
  obtain st w where c: "c = (st, w)" by fastforce
  obtain st1 w1 where r: "reapOne S D ttl now (lt (ses_ID s)) (ses_ID s) (st, w) = (st1, w1)" by fastforce
  show ?case using c r Cons.IH [of c] moves_trans [OF reapOne_moves [OF r] Cons.IH [of "(st1, w1)", unfolded fst_conv]] by simp
qed simp

lemma reap_moves:
  assumes "srv_Store srv = Some S" "ReapStaleSessions srv now lt st w = (r, st', w')"
  shows "moves (holds st) (holds st')"
proof -
  obtain l st1 where l: "store_List S st = (l, st1)" by fastforce
  have k: "holds st1 = holds st" by (rule list_keeps [OF l])
  show ?thesis
  proof (cases "srv_HeartbeatTTL srv \<le> 0 \<or> srv_Driver srv = None")
    case True
    then show ?thesis using assms by (auto simp: ReapStaleSessions_def)
  next
    case False
    show ?thesis
    proof (cases l)
      case (Inl e)
      then show ?thesis using False assms l k by (auto simp: ReapStaleSessions_def)
    next
      case (Inr ss)
      from False obtain D where D: "srv_Driver srv = Some D" by auto
      let ?run = "foldl (\<lambda>c s. if \<not> stale (srv_HeartbeatTTL srv) now s then c else
        reapOne S D (srv_HeartbeatTTL srv) now (lt (ses_ID s)) (ses_ID s) c) (st1, w) ss"
      have "?run = (st', w')" using Inr False assms l D by (simp add: ReapStaleSessions_def Let_def)
      then show ?thesis
        using reap_loop_moves [of "(st1, w)" "srv_HeartbeatTTL srv" now D lt ss] k by simp
    qed
  qed
qed

lemma handle_moves:
  assumes "srv_Store srv = Some S"
  shows "moves (holds st) (holds (fst (handle srv (now, r) (st, w))))"
proof (cases r)
  case (RPrepare s)
  then show ?thesis using prepare_moves [OF assms, of now s st w] by (cases "prepare srv now s st w") auto
next
  case (RCommit sid)
  then show ?thesis using transition_moves [OF assms, of "''Committed''" now sid "drv_Commit (the (srv_Driver srv))" st w]
    by (cases "commit srv now sid st w") (auto simp: commit_def)
next
  case (RAbort sid)
  then show ?thesis using transition_moves [OF assms, of "''Aborted''" now sid "drv_Abort (the (srv_Driver srv))" st w]
    by (cases "abort srv now sid st w") (auto simp: abort_def)
next
  case (RHeartbeat sid)
  then show ?thesis using heartbeat_moves [OF assms, of now sid st w] by (cases "heartbeat srv now sid st w") auto
next
  case (RReap lt)
  then show ?thesis using reap_moves [OF assms, of now lt st w] by (cases "ReapStaleSessions srv now lt st w") auto
next
  case (RGet sid)
  then show ?thesis using assms get_keeps [of st sid]
    by (cases "store_Get S st sid") (auto simp: get_session_def split: sum.splits)
next
  case (RDiagnosis sid)
  then show ?thesis using assms get_keeps [of st sid]
    by (cases "store_Get S st sid") (auto simp: diagnosis_def split: sum.splits option.splits)
qed


lemma serve_moves:
  assumes "srv_Store srv = Some S"
  shows "moves (holds (fst c)) (holds (fst (serve srv rs c)))"
proof (induction rs arbitrary: c)
  case (Cons r rs)
  have "moves (holds (fst c)) (holds (fst (handle srv r c)))" using handle_moves [OF assms] by (cases r; cases c) auto
  then show ?case using Cons.IH [of "handle srv r c"] moves_trans by (simp add: serve_def)
qed (simp add: serve_def)

end

section \<open>The file store keeps the contract\<close>

definition fs_session :: "FileStore \<Rightarrow> string \<Rightarrow> Session option" where
  \<comment> \<open>the session the file of an id holds\<close>
  "fs_session st sid = (case map_of (fs_files st) (sid @ ''.json'') of Some (Inr s) \<Rightarrow> Some s | _ \<Rightarrow> None)"

lemma next_fault_files [simp]: "fs_files (snd (next_fault st)) = fs_files st"
  by (simp add: next_fault_def split: list.split)

lemma read_sessions_files: "fs_files (snd (read_sessions fs st)) = fs_files st"
proof (induction fs st rule: read_sessions.induct)
  case (2 name content fs st)
  then show ?case by (cases "next_fault st") (auto simp: Let_def split: prod.splits option.splits sum.splits
      dest: arg_cong [where f = "\<lambda>p. fs_files (snd p)"])
qed simp

lemma fs_Get_files: "fs_files (snd (fs_Get st sid)) = fs_files st"
  using next_fault_files [of st] by (auto simp: fs_Get_def split: sum.splits prod.splits option.splits simp del: next_fault_files)

lemma fs_List_files: "fs_files (snd (fs_List st)) = fs_files st"
  using next_fault_files [of st] read_sessions_files
  by (auto simp: fs_List_def Let_def split: sum.splits prod.splits option.splits simp del: next_fault_files)
    (metis snd_conv)

lemma fs_Put_files:
  assumes "fs_Put st s = (r, st')"
  shows "fs_files st' = (if r = None then mput (fs_files st) (ses_ID s @ ''.json'') (Ok s) else fs_files st)"
  using assms next_fault_files [of st]
  by (auto simp: fs_Put_def fs_path_def split: option.splits sum.splits prod.splits if_splits simp del: next_fault_files)

interpretation files: session_store FileStoreOps fs_session
proof
  fix st sid r st'
  assume g: "store_Get FileStoreOps st sid = (r, st')"
  then have f: "fs_files st' = fs_files st" using fs_Get_files [of st sid] by (simp add: FileStoreOps_def)
  show "fs_session st' = fs_session st" by (intro ext) (simp add: fs_session_def f)
next
  fix st sid s st'
  assume "store_Get FileStoreOps st sid = (Inr s, st')"
  then show "fs_session st sid = Some s" using next_fault_files [of st]
    by (auto simp: FileStoreOps_def fs_Get_def fs_session_def fs_path_def split: sum.splits prod.splits option.splits if_splits
        simp del: next_fault_files)
next
  fix st sid st'
  assume "store_Get FileStoreOps st sid = (Inl NotFound, st')"
  then show "fs_session st sid = None" using next_fault_files [of st]
    by (auto simp: FileStoreOps_def fs_Get_def fs_session_def fs_path_def split: sum.splits prod.splits option.splits if_splits
        simp del: next_fault_files)
next
  fix st s st'
  assume "store_Put FileStoreOps st s = (None, st')"
  then have "fs_files st' = mput (fs_files st) (ses_ID s @ ''.json'') (Ok s)" using fs_Put_files [of st s] by (simp add: FileStoreOps_def)
  then show "fs_session st' = (fs_session st)(ses_ID s \<mapsto> s)" by (intro ext) (simp add: fs_session_def)
next
  fix st s e st'
  assume "store_Put FileStoreOps st s = (Some e, st')"
  then have "fs_files st' = fs_files st" using fs_Put_files [of st s] by (simp add: FileStoreOps_def)
  then show "fs_session st' = fs_session st" by (intro ext) (simp add: fs_session_def)
next
  fix st l st'
  assume "store_List FileStoreOps st = (l, st')"
  then have f: "fs_files st' = fs_files st" using fs_List_files [of st] by (simp add: FileStoreOps_def)
  show "fs_session st' = fs_session st" by (intro ext) (simp add: fs_session_def f)
qed

section \<open>Properties\<close>


definition sample_session :: "string \<Rightarrow> Session" where
  "sample_session phase = \<lparr>ses_ID = ''m1'', ses_Namespace = ''prod'', ses_Machine = ''db'', ses_SourceNode = ''a'',
     ses_TargetNode = ''b'', ses_RuntimeID = ''r'', ses_Phase = phase, ses_Backend = [], ses_Endpoint = [],
     ses_TransferSupported = True, ses_Reason = [], ses_TransferID = [], ses_DataPlaneEncrypted = False,
     ses_NetworkSnapshot = [], ses_ConntrackSnapshot = [], ses_DiskPath = [], ses_MAC = [], ses_VCPUs = 0,
     ses_MemoryMiB = 0, ses_MigrationNetwork = [], ses_CreatedAt = 0, ses_UpdatedAt = 0\<rparr>"

definition obliging_driver :: "unit DestinationDriver" where
  "obliging_driver = \<lparr>drv_Prepare = (\<lambda>s w. (Ok \<lparr>pr_TransferSupported = True, pr_Endpoint = ''tcp:b:4444'', pr_Backend = ''qemu'',
     pr_Reason = [], pr_DataPlaneEncrypted = False\<rparr>, w)), drv_Commit = (\<lambda>s w. (None, w)), drv_Abort = (\<lambda>s w. (None, w)),
     drv_Diagnose = None\<rparr>"

definition sample_server :: "(FileStore, unit) Server" where
  "sample_server = \<lparr>srv_Store = Some FileStoreOps, srv_Driver = Some obliging_driver, srv_NodeName = ''b'', srv_HeartbeatTTL = 60\<rparr>"


lemma new_session_valid:
  "SessionValidate (new_session now s result) = SessionValidate s" "ses_ID (new_session now s result) = ses_ID s"
  by (simp_all add: SessionValidate_def new_session_def)

lemma prepare_created:
  assumes "srv_Store srv = Some S" "srv_Driver srv = Some D" "prepare srv now (Ok s) st w = (Reply 201 r, st', w')"
  shows "\<exists>result st1. SessionValidate s = None \<and> (srv_NodeName srv = '''' \<or> ses_TargetNode s = srv_NodeName srv)
    \<and> store_Get S st (ses_ID s) = (Inl NotFound, st1) \<and> store_Put S st1 (new_session now s result) = (None, st')
    \<and> r = response (new_session now s result)"
  using assms by (auto simp: prepare_def prepare_new_def dependencies_def Let_def
      split: option.splits if_splits prod.splits sum.splits StoreErr.splits)

text \<open>
  Preparing is idempotent. After a prepare request that created a session, a repeated one
  with the same identity answers the same session without calling the driver or writing
  anything, so a source that lost the first answer may ask again.
\<close>

theorem prepare_idempotent:
  assumes "srv_Store srv = Some FileStoreOps" "srv_Driver srv = Some D" "fs_faults st = []"
    and "prepare srv now (Ok s) st w = (Reply 201 r, st', w')"
    and "SameIdentity s s2" "SessionValidate s2 = None"
  shows "prepare srv now2 (Ok s2) st' w' = (Reply 200 r, st', w')"
proof -
  obtain result st1 where new: "srv_NodeName srv = '''' \<or> ses_TargetNode s = srv_NodeName srv"
    "fs_Get st (ses_ID s) = (Inl NotFound, st1)" "fs_Put st1 (new_session now s result) = (None, st')"
    "r = response (new_session now s result)"
    using prepare_created [OF assms(1,2,4)] by (auto simp: FileStoreOps_def)
  have safe: "safeID (ses_ID s)" using new(2) by (auto simp: fs_Get_def fs_path_def split: if_splits)
  have "st1 = st" using new(2) assms(3) by (auto simp: fs_Get_def next_fault_def fs_path_def split: if_splits option.splits sum.splits)
  then have "st' = st\<lparr>fs_files := mput (fs_files st) (ses_ID s @ ''.json'') (Ok (new_session now s result))\<rparr>"
    using new(3) assms(3) by (auto simp: fs_Put_def next_fault_def fs_path_def new_session_def split: if_splits option.splits)
  then have "fs_Get st' (ses_ID s2) = (Inr (new_session now s result), st')"
    using safe assms(3,5) by (simp add: fs_Get_def next_fault_def fs_path_def SameIdentity_def)
  moreover have "SameIdentity (new_session now s result) s2" using assms(5) by (simp add: SameIdentity_def new_session_def)
  ultimately show ?thesis
    using assms(1,2,5,6) new(1,4) by (auto simp: prepare_def dependencies_def FileStoreOps_def SameIdentity_def)
qed


theorem prepare_idempotent_witness:
  "\<exists>r st'. prepare sample_server 9 (Ok (sample_session [])) \<lparr>fs_files = [], fs_faults = []\<rparr> () = (Reply 201 r, st', ())
     \<and> prepare sample_server 10 (Ok (sample_session [])) st' () = (Reply 200 r, st', ())"
proof -
  let ?st = "\<lparr>fs_files = [], fs_faults = []\<rparr>" and ?s = "sample_session []"
  have v: "SessionValidate ?s = None" by code_simp
  have "safeID ''m1''" "TrimSpace ''tcp:b:4444'' \<noteq> []" by code_simp+
  moreover have "ses_ID ?s = ''m1''" "ses_TargetNode ?s = ''b''" by (simp_all add: sample_session_def)
  ultimately have "\<exists>r st'. prepare sample_server 9 (Ok ?s) ?st () = (Reply 201 r, st', ())"
    using v by (simp add: prepare_def prepare_new_def dependencies_def sample_server_def FileStoreOps_def fs_Get_def fs_Put_def
        fs_path_def next_fault_def obliging_driver_def Let_def new_session_valid)
  then obtain r st' where "prepare sample_server 9 (Ok ?s) ?st () = (Reply 201 r, st', ())" by blast
  then show ?thesis using prepare_idempotent [of sample_server obliging_driver ?st 9 ?s "()" r st' "()" ?s 10] v
    by (auto simp: sample_server_def)
qed

end
