(* ===== verification/Session_Race.thy ===== *)
theory Session_Race
  imports Migration_Session
begin

text \<open>
  Interleavings of the handlers of \<open>internal/migration/server.go\<close> on one session. A handler is
  a thread that reads the session, may call the driver and writes the session back, each an
  atomic step; \<open>transition\<close> and \<open>reapOne\<close> hold the lock of \<open>lockFor\<close> from before the read until
  after the write, \<open>heartbeat\<close> takes no lock. The decisions and the written sessions are those
  of the handlers in \<open>Migration_Session\<close>.
\<close>

datatype Op = OpCommit | OpAbort | OpReap | OpHeartbeat

datatype Pc = Waiting | Locked | Loaded Session | Called Session | Finished

record Race =
  rc_session :: "Session option"
  rc_lock :: "nat option"
  rc_threads :: "(Op \<times> Pc) list"
  rc_calls :: "Op list"
    \<comment> \<open>the driver calls that succeeded, in order\<close>

definition op_proceeds :: "int \<Rightarrow> time \<Rightarrow> Op \<Rightarrow> Session \<Rightarrow> bool" where
  "op_proceeds ttl now op s = (case op of
     OpCommit \<Rightarrow> transition_verdict ''Committed'' s = Proceed
   | OpAbort \<Rightarrow> transition_verdict ''Aborted'' s = Proceed
   | OpReap \<Rightarrow> stale ttl now s
   | OpHeartbeat \<Rightarrow> ses_Phase s = ''Prepared'')"

definition op_result :: "int \<Rightarrow> time \<Rightarrow> Op \<Rightarrow> Session \<Rightarrow> Session" where
  "op_result ttl now op s = (case op of
     OpCommit \<Rightarrow> advance ''Committed'' now s
   | OpAbort \<Rightarrow> advance ''Aborted'' now s
   | OpReap \<Rightarrow> reaped ttl now s
   | OpHeartbeat \<Rightarrow> s\<lparr>ses_UpdatedAt := now\<rparr>)"

definition op_phase :: "Op \<Rightarrow> string" where
  "op_phase op = (case op of OpCommit \<Rightarrow> ''Committed'' | OpAbort \<Rightarrow> ''Aborted'' | OpReap \<Rightarrow> ''Aborted'' | OpHeartbeat \<Rightarrow> ''Prepared'')"

abbreviation goto :: "Race \<Rightarrow> nat \<Rightarrow> Op \<Rightarrow> Pc \<Rightarrow> Race" where
  "goto c i op pc \<equiv> c\<lparr>rc_threads := (rc_threads c)[i := (op, pc)]\<rparr>"

definition leave :: "Race \<Rightarrow> nat \<Rightarrow> Op \<Rightarrow> Race" where
  \<comment> \<open>the thread returns, and gives up the lock if it took it\<close>
  "leave c i op = (goto c i op Finished)\<lparr>rc_lock := (if op = OpHeartbeat then rc_lock c else None)\<rparr>"

inductive race_step :: "int \<Rightarrow> Race \<Rightarrow> Race \<Rightarrow> bool" for ttl where
  acquire: "race_step ttl c ((goto c i op Locked)\<lparr>rc_lock := Some i\<rparr>)"
    if "i < length (rc_threads c)" "rc_threads c ! i = (op, Waiting)" "op \<noteq> OpHeartbeat" "rc_lock c = None"
| load: "race_step ttl c (goto c i op (Loaded s))"
    if "i < length (rc_threads c)" "rc_threads c ! i = (op, if op = OpHeartbeat then Waiting else Locked)"
      "rc_session c = Some s" "op_proceeds ttl now op s"
| skip: "race_step ttl c (leave c i op)"
    if "i < length (rc_threads c)" "rc_threads c ! i = (op, if op = OpHeartbeat then Waiting else Locked)"
      "\<forall>s. rc_session c = Some s \<longrightarrow> \<not> op_proceeds ttl now op s"
| call: "race_step ttl c ((goto c i op (Called s))\<lparr>rc_calls := rc_calls c @ [op]\<rparr>)"
    if "i < length (rc_threads c)" "rc_threads c ! i = (op, Loaded s)" "op \<noteq> OpHeartbeat"
| call_fails: "race_step ttl c (leave c i op)"
    if "i < length (rc_threads c)" "rc_threads c ! i = (op, Loaded s)" "op \<noteq> OpHeartbeat"
| store: "race_step ttl c ((leave c i op)\<lparr>rc_session := Some (op_result ttl now op s)\<rparr>)"
    if "i < length (rc_threads c)" "rc_threads c ! i = (op, if op = OpHeartbeat then Loaded s else Called s)"

definition race_start :: "Session \<Rightarrow> Op list \<Rightarrow> Race" where
  "race_start s ops = \<lparr>rc_session = Some s, rc_lock = None, rc_threads = map (\<lambda>op. (op, Waiting)) ops, rc_calls = []\<rparr>"

abbreviation reaches :: "int \<Rightarrow> Race \<Rightarrow> Race \<Rightarrow> bool" where
  "reaches ttl \<equiv> (race_step ttl)\<^sup>*\<^sup>*"

section \<open>Commits, aborts and reaps exclude one another\<close>

definition open_phase :: "Session \<Rightarrow> bool" where
  "open_phase s \<longleftrightarrow> ses_Phase s \<notin> {''Committed'', ''Aborted''}"

definition thread_ok :: "Race \<Rightarrow> nat \<Rightarrow> Op \<times> Pc \<Rightarrow> bool" where
  "thread_ok c i t \<longleftrightarrow> fst t \<noteq> OpHeartbeat \<and> (case snd t of
     Waiting \<Rightarrow> True
   | Finished \<Rightarrow> True
   | Locked \<Rightarrow> rc_lock c = Some i
   | Loaded s \<Rightarrow> rc_lock c = Some i \<and> rc_session c = Some s \<and> open_phase s \<and> rc_calls c = []
   | Called s \<Rightarrow> rc_lock c = Some i \<and> rc_session c = Some s \<and> open_phase s \<and> rc_calls c = [fst t])"

definition settled :: "Race \<Rightarrow> bool" where
  \<comment> \<open>what the store says agrees with what the driver did\<close>
  "settled c \<longleftrightarrow> (\<exists>s. rc_session c = Some s \<and> (open_phase s \<and> rc_calls c = [] \<or>
     (\<exists>op. op \<noteq> OpHeartbeat \<and> rc_calls c = [op] \<and> ses_Phase s = op_phase op)))"

definition in_call :: "Race \<Rightarrow> bool" where
  "in_call c \<longleftrightarrow> (\<exists>i op s. i < length (rc_threads c) \<and> rc_threads c ! i = (op, Called s))"

definition race_inv :: "Race \<Rightarrow> bool" where
  "race_inv c \<longleftrightarrow> (\<forall>i < length (rc_threads c). thread_ok c i (rc_threads c ! i)) \<and> (in_call c \<or> settled c)"

lemma open_not_closed: "open_phase s \<Longrightarrow> op \<noteq> OpHeartbeat \<Longrightarrow> ses_Phase s \<noteq> op_phase op"
  by (cases op) (auto simp: open_phase_def op_phase_def)

lemma proceeds_open: "op_proceeds ttl now op s \<Longrightarrow> open_phase s"
  by (cases op) (auto simp: op_proceeds_def open_phase_def transition_verdict_Proceed stale_def)

lemma result_phase: "op \<noteq> OpHeartbeat \<Longrightarrow> ses_Phase (op_result ttl now op s) = op_phase op"
  by (cases op) (simp_all add: op_result_def op_phase_def advance_def reaped_def)

lemma race_start_inv: "open_phase s \<Longrightarrow> OpHeartbeat \<notin> set ops \<Longrightarrow> race_inv (race_start s ops)"
  by (auto simp: race_inv_def race_start_def thread_ok_def settled_def) (metis nth_mem)

text \<open>At most one thread, the one that holds the lock, is in its critical section.\<close>

definition idle :: "Op \<times> Pc \<Rightarrow> bool" where
  "idle t \<longleftrightarrow> fst t \<noteq> OpHeartbeat \<and> snd t \<in> {Waiting, Finished}"

lemma idle_ok: "idle t \<Longrightarrow> thread_ok c i t"
  by (auto simp: idle_def thread_ok_def)

lemma alone:
  assumes "race_inv c" "rc_lock c = None \<or> rc_lock c = Some i" "j < length (rc_threads c)" "j \<noteq> i"
  shows "idle (rc_threads c ! j)"
proof -
  have "thread_ok c j (rc_threads c ! j)" using assms(1,3) by (simp add: race_inv_def)
  then show ?thesis using assms(2,4) by (cases "snd (rc_threads c ! j)") (auto simp: thread_ok_def idle_def)
qed

lemma race_invI:
  assumes "\<forall>j < length (rc_threads c). j \<noteq> i \<longrightarrow> idle (rc_threads c ! j)"
    and "i < length (rc_threads c)" "rc_threads c' = (rc_threads c)[i := t]" "thread_ok c' i t"
    and "(\<exists>op s. t = (op, Called s)) \<or> settled c'"
  shows "race_inv c'"
  unfolding race_inv_def
proof (intro conjI allI impI)
  fix j assume "j < length (rc_threads c')"
  then show "thread_ok c' j (rc_threads c' ! j)"
    using assms(1,2,3,4) idle_ok [of "rc_threads c ! j" c' j] by (cases "j = i") simp_all
next
  have "in_call c'" if "t = (op, Called s)" for op s
    unfolding in_call_def using assms(2,3) that by (intro exI [of _ i]) simp
  then show "in_call c' \<or> settled c'" using assms(5) by blast
qed

lemma settled_unless_called:
  assumes "race_inv c" "rc_lock c = None \<or> rc_lock c = Some i" "i < length (rc_threads c)" "\<forall>op s. rc_threads c ! i \<noteq> (op, Called s)"
  shows "settled c"
proof -
  have "rc_threads c ! j \<noteq> (op, Called s)" if "j < length (rc_threads c)" for j op s
  proof (cases "j = i")
    case False
    then show ?thesis using alone [OF assms(1,2) that False] by (auto simp: idle_def)
  qed (use assms(4) in simp)
  then show ?thesis using assms(1) by (auto simp: race_inv_def in_call_def)
qed

lemma race_step_inv:
  assumes "race_step ttl c c'" "race_inv c"
  shows "race_inv c'"
proof -
  have ok: "thread_ok c i (rc_threads c ! i)" if "i < length (rc_threads c)" for i
    using assms(2) that by (simp add: race_inv_def)
  from assms(1) show ?thesis
  proof cases
    case (acquire i op)
    have "settled c" by (rule settled_unless_called [of _ i]) (use acquire assms(2) in auto)
    then show ?thesis using acquire alone [OF assms(2)]
      by (intro race_invI [of c i c' "(op, Locked)"]) (auto simp: thread_ok_def settled_def)
  next
    case (load i op s now)
    have op: "op \<noteq> OpHeartbeat" using ok [OF load(2)] load(3) by (auto simp: thread_ok_def)
    then have lock: "rc_lock c = Some i" using ok [OF load(2)] load(3) by (auto simp: thread_ok_def)
    have st: "settled c" by (rule settled_unless_called [of _ i]) (use load assms(2) lock op in auto)
    have o: "open_phase s" by (rule proceeds_open [OF load(5)])
    then have "rc_calls c = []" using st load(4) open_not_closed by (auto simp: settled_def)
    then show ?thesis using load alone [OF assms(2)] lock op o
      by (intro race_invI [of c i c' "(op, Loaded s)"]) (auto simp: thread_ok_def settled_def)
  next
    case (skip i op now)
    have op: "op \<noteq> OpHeartbeat" using ok [OF skip(2)] skip(3) by (auto simp: thread_ok_def)
    then have lock: "rc_lock c = Some i" using ok [OF skip(2)] skip(3) by (auto simp: thread_ok_def)
    have "settled c" by (rule settled_unless_called [of _ i]) (use skip assms(2) lock op in auto)
    then show ?thesis using skip alone [OF assms(2)] lock op
      by (intro race_invI [of c i c' "(op, Finished)"]) (auto simp: thread_ok_def settled_def leave_def)
  next
    case (call i op s)
    then show ?thesis using ok [OF call(2)] alone [OF assms(2)]
      by (intro race_invI [of c i c' "(op, Called s)"]) (auto simp: thread_ok_def)
  next
    case (call_fails i op s)
    then show ?thesis using ok [OF call_fails(2)] alone [OF assms(2)]
      by (intro race_invI [of c i c' "(op, Finished)"]) (auto simp: thread_ok_def settled_def leave_def)
  next
    case (store i op s now)
    have op: "op \<noteq> OpHeartbeat" using ok [OF store(2)] store(3) by (auto simp: thread_ok_def)
    then show ?thesis using store ok [OF store(2)] alone [OF assms(2)] result_phase [OF op]
      by (intro race_invI [of c i c' "(op, Finished)"]) (auto simp: thread_ok_def settled_def leave_def)
  qed
qed

lemma reaches_inv: "reaches ttl c c' \<Longrightarrow> race_inv c \<Longrightarrow> race_inv c'"
  by (induction rule: rtranclp_induct) (auto intro: race_step_inv)

lemma calls_once: "race_inv c \<Longrightarrow> length (rc_calls c) \<le> 1"
  by (auto simp: race_inv_def in_call_def settled_def) (fastforce simp: thread_ok_def)



definition duo :: "Session \<Rightarrow> nat option \<Rightarrow> Pc \<Rightarrow> Op list \<Rightarrow> Race" where
  "duo s l pc calls = \<lparr>rc_session = Some s, rc_lock = l, rc_threads = [(OpCommit, pc), (OpAbort, Waiting)], rc_calls = calls\<rparr>"

lemma duo_steps:
  "race_step ttl (duo s None Waiting calls) (duo s (Some 0) Locked calls)"
  "ses_Phase s = ''Prepared'' \<Longrightarrow> race_step ttl (duo s (Some 0) Locked calls) (duo s (Some 0) (Loaded s) calls)"
  "race_step ttl (duo s0 (Some 0) (Loaded s) calls) (duo s0 (Some 0) (Called s) (calls @ [OpCommit]))"
  "race_step ttl (duo s0 (Some 0) (Called s) calls) (duo (advance ''Committed'' now s) None Finished calls)"
  using race_step.acquire [of 0 "duo s None Waiting calls" OpCommit ttl]
    race_step.load [of 0 "duo s (Some 0) Locked calls" OpCommit s ttl 0]
    race_step.call [of 0 "duo s0 (Some 0) (Loaded s) calls" OpCommit s ttl]
    race_step.store [of 0 "duo s0 (Some 0) (Called s) calls" OpCommit s ttl now]
  by (simp_all add: duo_def leave_def op_result_def op_proceeds_def transition_verdict_Proceed)

lemma duo_run:
  assumes "ses_Phase s = ''Prepared''"
  shows "reaches ttl (race_start s [OpCommit, OpAbort]) (duo (advance ''Committed'' 1 s) None Finished [OpCommit])"
proof -
  note ahead = converse_rtranclp_into_rtranclp [where r = "race_step ttl"]
  have "reaches ttl (duo s None Waiting []) (duo (advance ''Committed'' 1 s) None Finished [OpCommit])"
    by (rule ahead [OF duo_steps(1)], rule ahead [OF duo_steps(2) [OF assms]], rule ahead [OF duo_steps(3)],
        rule ahead [OF duo_steps(4) [of _ _ _ _ 1]]) simp
  then show ?thesis by (simp add: race_start_def duo_def)
qed



section \<open>A heartbeat can undo a commit\<close>

definition trio :: "Session \<Rightarrow> nat option \<Rightarrow> Pc \<Rightarrow> Pc \<Rightarrow> Pc \<Rightarrow> Op list \<Rightarrow> Race" where
  "trio s l pc hb pa calls = \<lparr>rc_session = Some s, rc_lock = l,
     rc_threads = [(OpCommit, pc), (OpHeartbeat, hb), (OpAbort, pa)], rc_calls = calls\<rparr>"

lemma trio_steps:
  "ses_Phase s = ''Prepared'' \<Longrightarrow> race_step ttl (trio s l pc Waiting pa calls) (trio s l pc (Loaded s) pa calls)"
  "race_step ttl (trio s None Waiting hb pa calls) (trio s (Some 0) Locked hb pa calls)"
  "ses_Phase s = ''Prepared'' \<Longrightarrow> race_step ttl (trio s (Some 0) Locked hb pa calls) (trio s (Some 0) (Loaded s) hb pa calls)"
  "race_step ttl (trio s0 (Some 0) (Loaded s) hb pa calls) (trio s0 (Some 0) (Called s) hb pa (calls @ [OpCommit]))"
  "race_step ttl (trio s0 (Some 0) (Called s) hb pa calls) (trio (advance ''Committed'' now s) None Finished hb pa calls)"
  "race_step ttl (trio s0 l pc (Loaded s) pa calls) (trio (s\<lparr>ses_UpdatedAt := now\<rparr>) l pc Finished pa calls)"
  "race_step ttl (trio s None pc hb Waiting calls) (trio s (Some 2) pc hb Locked calls)"
  "ses_Phase s = ''Prepared'' \<Longrightarrow> race_step ttl (trio s (Some 2) pc hb Locked calls) (trio s (Some 2) pc hb (Loaded s) calls)"
  "race_step ttl (trio s0 (Some 2) pc hb (Loaded s) calls) (trio s0 (Some 2) pc hb (Called s) (calls @ [OpAbort]))"
  "race_step ttl (trio s0 (Some 2) pc hb (Called s) calls) (trio (advance ''Aborted'' now s) None pc hb Finished calls)"
  using race_step.load [of 1 "trio s l pc Waiting pa calls" OpHeartbeat s ttl 0]
    race_step.acquire [of 0 "trio s None Waiting hb pa calls" OpCommit ttl]
    race_step.load [of 0 "trio s (Some 0) Locked hb pa calls" OpCommit s ttl 0]
    race_step.call [of 0 "trio s0 (Some 0) (Loaded s) hb pa calls" OpCommit s ttl]
    race_step.store [of 0 "trio s0 (Some 0) (Called s) hb pa calls" OpCommit s ttl now]
    race_step.store [of 1 "trio s0 l pc (Loaded s) pa calls" OpHeartbeat s ttl now]
    race_step.acquire [of 2 "trio s None pc hb Waiting calls" OpAbort ttl]
    race_step.load [of 2 "trio s (Some 2) pc hb Locked calls" OpAbort s ttl 0]
    race_step.call [of 2 "trio s0 (Some 2) pc hb (Loaded s) calls" OpAbort s ttl]
    race_step.store [of 2 "trio s0 (Some 2) pc hb (Called s) calls" OpAbort s ttl now]
  by (simp_all add: trio_def leave_def op_result_def op_proceeds_def transition_verdict_Proceed numeral_2_eq_2)



end
