(* ===== verification/Lease.thy ===== *)
theory Lease
  imports Model_Types Go_Time
begin

text \<open>
  Kubernetes Leases as \<open>internal/model/coreconfig.go\<close> has them, and the node liveness Lease of
  \<open>internal/nodeliveness\<close>: what a node writes on every tick and when a reader takes the node for
  alive. A \<open>MicroTime\<close> loses what is below a microsecond when it is encoded, so a Lease holds
  truncated instants. The API server's answers are arguments.
\<close>

record LeaseObj =
  lease_Metadata :: ObjectMeta
  lease_HolderIdentity :: "string option"
  lease_DurationSeconds :: "int option"
  lease_AcquireTime :: "time option"
  lease_RenewTime :: "time option"
  lease_Transitions :: "int option"

definition MicroTime :: "time \<Rightarrow> time" where
  "MicroTime t = t div Microsecond * Microsecond"

definition seconds32 :: "int \<Rightarrow> int" where
  \<comment> \<open>\<open>int32(d.Seconds())\<close> of a positive duration\<close>
  "seconds32 d = sint (word_of_int (rtrunc (fl (of_int (d div Second) + fl (of_int (d mod Second) / 1000000000)))) :: 32 word)"

datatype LeaseAnswer = LeaseNotFound | LeaseErr err | LeaseFound LeaseObj

datatype WriteAnswer = Written | Conflict | WriteErr err

datatype LeaseCall = CreateLease LeaseObj | UpdateLease LeaseObj

lemma MicroTime_le: "MicroTime t \<le> t"
  by (simp add: MicroTime_def Microsecond_def)

lemma MicroTime_close: "t < MicroTime t + Microsecond"
  unfolding MicroTime_def Microsecond_def by presburger

lemma seconds32_whole:
  assumes "0 \<le> n" "n < 2 ^ 31"
  shows "seconds32 (n * Second) = n"
proof -
  have "fl (of_int n) = of_int n" using fl_exact [of n 0 "of_int n"] assms by (simp add: pow2_def)
  moreover have "n * Second div Second = n" "n * Second mod Second = 0" by (simp_all add: duration_defs)
  moreover have "sint (word_of_int n :: 32 word) = n" using assms by (simp add: sint_sbintrunc' signed_take_bit_int_eq_self_iff)
  ultimately show ?thesis using assms by (simp add: seconds32_def rtrunc_def)
qed

section \<open>Node liveness\<close>

definition NodeLeaseDuration :: int where "NodeLeaseDuration = 60 * Second"

definition LeaseName :: "string \<Rightarrow> string" where
  "LeaseName nodeName = ''kairon-node-'' @ nodeName"

definition fresh_lease :: "ObjectMeta \<Rightarrow> string \<Rightarrow> int \<Rightarrow> time \<Rightarrow> LeaseObj" where
  \<comment> \<open>a Lease created by its first holder\<close>
  "fresh_lease md identity dur now = \<lparr>lease_Metadata = md, lease_HolderIdentity = Some identity,
     lease_DurationSeconds = Some dur, lease_AcquireTime = Some (MicroTime now), lease_RenewTime = Some (MicroTime now),
     lease_Transitions = Some 1\<rparr>"

definition Renew :: "string \<Rightarrow> string \<Rightarrow> int \<Rightarrow> time \<Rightarrow> LeaseAnswer \<Rightarrow> WriteAnswer \<Rightarrow> err option \<times> LeaseCall list" where
  "Renew namespace nodeName leaseDuration now got answer =
     (let leaseDuration = (if leaseDuration \<le> 0 then NodeLeaseDuration else leaseDuration);
          name = LeaseName nodeName; dur = seconds32 leaseDuration in
      case got of
        LeaseNotFound \<Rightarrow>
          ((case answer of WriteErr e \<Rightarrow> Some e | _ \<Rightarrow> None),
           [CreateLease (fresh_lease (ObjectMeta0\<lparr>meta_Name := name, meta_Namespace := namespace\<rparr>) nodeName dur now)])
      | LeaseErr e \<Rightarrow> (Some (''get lease '' @ namespace @ ''/'' @ name @ '': '' @ e), [])
      | LeaseFound current \<Rightarrow>
          ((case answer of WriteErr e \<Rightarrow> Some (''update lease '' @ namespace @ ''/'' @ name @ '': '' @ e) | _ \<Rightarrow> None),
           [UpdateLease (current\<lparr>lease_HolderIdentity := Some nodeName, lease_DurationSeconds := Some dur,
              lease_RenewTime := Some (MicroTime now)\<rparr>)]))"

definition IsFresh :: "LeaseObj \<Rightarrow> int \<Rightarrow> time \<Rightarrow> bool" where
  "IsFresh lease leaseDuration now = (case lease_RenewTime lease of
     None \<Rightarrow> False
   | Some renewed \<Rightarrow>
       let d = (case lease_DurationSeconds lease of Some s \<Rightarrow> s * Second | None \<Rightarrow> leaseDuration);
           d = (if d \<le> 0 then NodeLeaseDuration else d)
       in now - renewed \<le> d)"

fun written_lease :: "LeaseCall \<Rightarrow> LeaseObj" where
  "written_lease (CreateLease l) = l"
| "written_lease (UpdateLease l) = l"

lemma Renew_writes:
  assumes "Renew ns node d now got answer = (r, [call])"
  shows "lease_RenewTime (written_lease call) = Some (MicroTime now)
    \<and> lease_HolderIdentity (written_lease call) = Some node
    \<and> lease_DurationSeconds (written_lease call) = Some (seconds32 (if d \<le> 0 then NodeLeaseDuration else d))"
  using assms by (cases got) (auto simp: Renew_def fresh_lease_def Let_def)

text \<open>
  A renewed liveness Lease counts as fresh for the duration it was renewed for and not
  longer. With a duration of whole seconds, a reader that looks within that time of the renewal
  (less the microsecond the encoding may lose) takes the node for alive, and one that looks
  later does not, whatever default the reader was configured with.
\<close>

theorem renewed_lease_fresh:
  assumes "Renew ns node (n * Second) now got answer = (r, [call])" and "0 < n" "n < 2 ^ 31"
   shows "(later + Microsecond \<le> now + n * Second \<longrightarrow> IsFresh (written_lease call) dflt later)
    \<and> (now + n * Second < later \<longrightarrow> \<not> IsFresh (written_lease call) dflt later)
    \<and> lease_HolderIdentity (written_lease call) = Some node"
proof -
  have pos: "\<not> n * Second \<le> 0" using assms(2) by (simp add: duration_defs)
  have "seconds32 (n * Second) = n" using assms(2,3) by (intro seconds32_whole) auto
  then have "IsFresh (written_lease call) dflt later \<longleftrightarrow> later - MicroTime now \<le> n * Second"
    using Renew_writes [OF assms(1)] pos by (simp add: IsFresh_def)
  then show ?thesis using MicroTime_close [of now] MicroTime_le [of now] Renew_writes [OF assms(1)] by auto
qed

theorem renewed_lease_fresh_witness:
  "IsFresh (written_lease (hd (snd (Renew ''kairon'' ''n1'' (60 * Second) 5 LeaseNotFound Written)))) 0 (30 * Second)
   \<and> \<not> IsFresh (written_lease (hd (snd (Renew ''kairon'' ''n1'' (60 * Second) 5 LeaseNotFound Written)))) 0 (61 * Second)"
proof -
  obtain call where r: "Renew ''kairon'' ''n1'' (60 * Second) 5 LeaseNotFound Written = (None, [call])"
    by (simp add: Renew_def Let_def)
  show ?thesis
    using renewed_lease_fresh [OF r, of "30 * Second" 0] renewed_lease_fresh [OF r, of "61 * Second" 0] r by (simp add: duration_defs)
qed


end
