(* ===== verification/Leader_Election.thy ===== *)
theory Leader_Election
  imports Lease
begin

text \<open>
  Leader election over one Lease, \<open>internal/leaderelection/leaderelection.go\<close>. The operations
  take the answers of the API server as arguments and return the write they make and whether
  the process now holds the Lease; the step relation runs any number of electors against one
  Lease object, with the server's optimistic concurrency, lost answers and the clock between
  a read and the write that follows it.
\<close>

definition DefaultLeaseDuration :: int where "DefaultLeaseDuration = 15 * Second"
definition DefaultRenewPeriod :: int where "DefaultRenewPeriod = 5 * Second"
definition DefaultRetryPeriod :: int where "DefaultRetryPeriod = 5 * Second"

record Elector =
  el_Namespace :: string
  el_Name :: string
  el_Identity :: string
  el_LeaseDuration :: int
  el_RenewPeriod :: int
  el_RetryPeriod :: int

definition leaseDuration :: "Elector \<Rightarrow> int" where
  "leaseDuration e = (if 0 < el_LeaseDuration e then el_LeaseDuration e else DefaultLeaseDuration)"

definition renewPeriod :: "Elector \<Rightarrow> int" where
  "renewPeriod e = (if 0 < el_RenewPeriod e then el_RenewPeriod e else DefaultRenewPeriod)"

definition retryPeriod :: "Elector \<Rightarrow> int" where
  "retryPeriod e = (if 0 < el_RetryPeriod e then el_RetryPeriod e else DefaultRetryPeriod)"

definition held :: "LeaseObj \<Rightarrow> bool" where
  "held l = (case lease_HolderIdentity l of None \<Rightarrow> False | Some h \<Rightarrow> h \<noteq> [])"

definition expired :: "Elector \<Rightarrow> time \<Rightarrow> LeaseObj \<Rightarrow> bool" where
  "expired e now l = (case lease_RenewTime l of
     None \<Rightarrow> True
   | Some renewed \<Rightarrow>
       (case lease_DurationSeconds l of Some s \<Rightarrow> s * Second | None \<Rightarrow> leaseDuration e) < now - renewed)"

definition held_by_other :: "Elector \<Rightarrow> time \<Rightarrow> LeaseObj \<Rightarrow> bool" where
  "held_by_other e now l = (\<not> expired e now l \<and> held l \<and> lease_HolderIdentity l \<noteq> Some (el_Identity e))"

definition created_lease :: "Elector \<Rightarrow> time \<Rightarrow> LeaseObj" where
  "created_lease e now = fresh_lease (ObjectMeta0\<lparr>meta_Name := el_Name e, meta_Namespace := el_Namespace e\<rparr>)
     (el_Identity e) (seconds32 (leaseDuration e)) now"

definition taken_lease :: "Elector \<Rightarrow> time \<Rightarrow> LeaseObj \<Rightarrow> LeaseObj" where
  "taken_lease e now current =
     (let priorHolder = (case lease_HolderIdentity current of Some h \<Rightarrow> h | None \<Rightarrow> []);
          transitions = (case lease_Transitions current of Some n \<Rightarrow> n | None \<Rightarrow> 0);
          transitions = (if priorHolder \<noteq> [] \<and> priorHolder \<noteq> el_Identity e then transitions + 1 else transitions)
      in current\<lparr>lease_HolderIdentity := Some (el_Identity e), lease_DurationSeconds := Some (seconds32 (leaseDuration e)),
           lease_RenewTime := Some (MicroTime now), lease_AcquireTime := Some (MicroTime now),
           lease_Transitions := Some transitions\<rparr>)"

definition renewed_lease :: "time \<Rightarrow> LeaseObj \<Rightarrow> LeaseObj" where
  "renewed_lease now current = current\<lparr>lease_RenewTime := Some (MicroTime now)\<rparr>"

definition create :: "Elector \<Rightarrow> time \<Rightarrow> WriteAnswer \<Rightarrow> bool \<times> LeaseCall list" where
  "create e now answer = (answer = Written, [CreateLease (created_lease e now)])"

definition takeover :: "Elector \<Rightarrow> time \<Rightarrow> LeaseObj \<Rightarrow> WriteAnswer \<Rightarrow> bool \<times> LeaseCall list" where
  "takeover e now current answer = (answer = Written, [UpdateLease (taken_lease e now current)])"

definition tryAcquireOrRenew :: "Elector \<Rightarrow> time \<Rightarrow> LeaseAnswer \<Rightarrow> WriteAnswer \<Rightarrow> bool \<times> LeaseCall list" where
  "tryAcquireOrRenew e now got answer = (case got of
     LeaseNotFound \<Rightarrow> create e now answer
   | LeaseErr err \<Rightarrow> (False, [])
   | LeaseFound current \<Rightarrow> if held_by_other e now current then (False, []) else takeover e now current answer)"

definition renew :: "Elector \<Rightarrow> time \<Rightarrow> LeaseAnswer \<Rightarrow> WriteAnswer \<Rightarrow> bool \<times> LeaseCall list" where
  "renew e now got answer = (case got of
     LeaseFound current \<Rightarrow>
       if \<not> held current \<or> lease_HolderIdentity current \<noteq> Some (el_Identity e) then (False, [])
       else (answer = Written, [UpdateLease (renewed_lease now current)])
   | _ \<Rightarrow> (False, []))"

section \<open>Any number of electors and one Lease\<close>

text \<open>
  The Lease object carries a version the server changes on every write; an update goes
  through only when it carries the current one. An elector is a follower, between the read
  and the write of \<open>tryAcquireOrRenew\<close> (with the Lease it read and the clock reading it stamps), a
  leader (with the instant of its last successful write), or between the read and the write
  of a renewal. Both reads of the clock of one attempt are one instant; the write arrives any
  time later. An answer can be lost after the write took effect: the elector then believes
  that it failed.
\<close>

datatype Role =
    Follower
  | Trying nat LeaseObj time
  | Leading time
  | Renewing time nat LeaseObj time

record Cluster =
  cl_now :: time
  cl_lease :: "(nat \<times> LeaseObj) option"
  cl_role :: "string \<Rightarrow> Role"

inductive elect_step :: "(string \<Rightarrow> Elector) \<Rightarrow> Cluster \<Rightarrow> Cluster \<Rightarrow> bool" for E where
  clock: "elect_step E c (c\<lparr>cl_now := t\<rparr>)" if "cl_now c \<le> t"
| create: "elect_step E c (c\<lparr>cl_lease := Some (1, created_lease (E p) t), cl_role := (cl_role c)(p := r)\<rparr>)"
    if "cl_role c p = Follower" "cl_lease c = None" "t \<le> cl_now c" "r \<in> {Leading (MicroTime t), Follower}"
| read: "elect_step E c (c\<lparr>cl_role := (cl_role c)(p := Trying v l (cl_now c))\<rparr>)"
    if "cl_role c p = Follower" "cl_lease c = Some (v, l)" "\<not> held_by_other (E p) (cl_now c) l"
| take: "elect_step E c (c\<lparr>cl_lease := Some (Suc v, taken_lease (E p) t l), cl_role := (cl_role c)(p := r)\<rparr>)"
    if "cl_role c p = Trying v l t" "cl_lease c = Some (v, l')" "r \<in> {Leading (MicroTime t), Follower}"
| renew_read: "elect_step E c (c\<lparr>cl_role := (cl_role c)(p := Renewing since v l (cl_now c))\<rparr>)"
    if "cl_role c p = Leading since" "cl_lease c = Some (v, l)" "held l" "lease_HolderIdentity l = Some (el_Identity (E p))"
| renew_write: "elect_step E c (c\<lparr>cl_lease := Some (Suc v, renewed_lease t l), cl_role := (cl_role c)(p := r)\<rparr>)"
    if "cl_role c p = Renewing since v l t" "cl_lease c = Some (v, l')" "r \<in> {Leading (MicroTime t), Follower}"
| give_up: "elect_step E c (c\<lparr>cl_role := (cl_role c)(p := Follower)\<rparr>)"

definition elect_start :: "time \<Rightarrow> Cluster" where
  "elect_start t = \<lparr>cl_now = t, cl_lease = None, cl_role = (\<lambda>_. Follower)\<rparr>"

definition lease_span :: "Elector \<Rightarrow> int" where
  \<comment> \<open>how long a write of this elector keeps others away\<close>
  "lease_span e = seconds32 (leaseDuration e) * Second"

fun leads_since :: "Role \<Rightarrow> time option" where
  "leads_since (Leading since) = Some since"
| "leads_since (Renewing since v l t) = Some since"
| "leads_since _ = None"

section \<open>At most one leader within its Lease\<close>

definition owns :: "(string \<Rightarrow> Elector) \<Rightarrow> Cluster \<Rightarrow> string \<Rightarrow> time \<Rightarrow> bool" where
  "owns E c p since \<longleftrightarrow> (\<exists>v l. cl_lease c = Some (v, l) \<and> lease_HolderIdentity l = Some p
     \<and> lease_DurationSeconds l = Some (seconds32 (leaseDuration (E p))) \<and> lease_RenewTime l = Some since)"

definition snapshot_ok :: "Cluster \<Rightarrow> nat \<Rightarrow> LeaseObj \<Rightarrow> bool" where
  \<comment> \<open>a Lease read earlier is the current one if it has its version\<close>
  "snapshot_ok c v l \<longleftrightarrow> (\<exists>v' l'. cl_lease c = Some (v', l') \<and> v \<le> v' \<and> (v = v' \<longrightarrow> l = l'))"

definition holds_on :: "(string \<Rightarrow> Elector) \<Rightarrow> Cluster \<Rightarrow> string \<Rightarrow> time \<Rightarrow> bool" where
  \<comment> \<open>a leader either still owns the Lease, or it has run out and names someone else\<close>
  "holds_on E c p since \<longleftrightarrow> owns E c p since \<or>
     (\<exists>v l. cl_lease c = Some (v, l) \<and> lease_HolderIdentity l \<noteq> Some p) \<and> lease_span (E p) < cl_now c - since"

definition role_ok :: "(string \<Rightarrow> Elector) \<Rightarrow> Cluster \<Rightarrow> string \<Rightarrow> bool" where
  "role_ok E c p \<longleftrightarrow> (case cl_role c p of
     Follower \<Rightarrow> True
   | Trying v l t \<Rightarrow> t \<le> cl_now c \<and> snapshot_ok c v l \<and> \<not> held_by_other (E p) t l
   | Leading since \<Rightarrow> p = [] \<or> holds_on E c p since
   | Renewing since v l t \<Rightarrow> t \<le> cl_now c \<and> snapshot_ok c v l \<and> lease_HolderIdentity l = Some p \<and> (p = [] \<or> holds_on E c p since))"

lemma role_ok_same:
  assumes "role_ok E c q" "cl_role c' q = cl_role c q" "cl_lease c' = cl_lease c" "cl_now c \<le> cl_now c'"
  shows "role_ok E c' q"
  using assms by (auto simp: role_ok_def snapshot_ok_def holds_on_def owns_def split: Role.splits)

lemma snapshot_older:
  assumes "snapshot_ok c v' l'" "cl_lease c = Some (v, l)" "cl_lease c' = Some (Suc v, m)"
  shows "snapshot_ok c' v' l'"
  using assms by (auto simp: snapshot_ok_def)

lemma role_ok_written:
  \<comment> \<open>a write by another elector leaves a role in order when it takes the Lease only from a holder that ran out\<close>
  assumes "role_ok E c q" "cl_role c' q = cl_role c q" "cl_now c' = cl_now c"
    and "cl_lease c = Some (v, l)" "cl_lease c' = Some (Suc v, m)" "lease_HolderIdentity m \<noteq> Some q"
    and "\<And>since. q \<noteq> [] \<Longrightarrow> owns E c q since \<Longrightarrow> lease_span (E q) < cl_now c - since"
  shows "role_ok E c' q"
proof -
  have "holds_on E c' q since" if "q \<noteq> []" "holds_on E c q since" for since
    using that assms by (auto simp: holds_on_def)
  then show ?thesis using assms(1,2,3) snapshot_older [OF _ assms(4,5)] by (auto simp: role_ok_def split: Role.splits)
qed

lemma taken_from_expired:
  assumes "\<not> held_by_other (E p) t l" "t \<le> cl_now c" "cl_lease c = Some (v, l)" "owns E c q since" "q \<noteq> []" "q \<noteq> el_Identity (E p)"
  shows "lease_span (E q) < cl_now c - since"
  using assms by (auto simp: owns_def held_by_other_def held_def expired_def lease_span_def)

lemma holder_simps [simp]:
  "lease_HolderIdentity (created_lease e t) = Some (el_Identity e)"
  "lease_DurationSeconds (created_lease e t) = Some (seconds32 (leaseDuration e))"
  "lease_RenewTime (created_lease e t) = Some (MicroTime t)"
  "lease_HolderIdentity (taken_lease e t l) = Some (el_Identity e)"
  "lease_DurationSeconds (taken_lease e t l) = Some (seconds32 (leaseDuration e))"
  "lease_RenewTime (taken_lease e t l) = Some (MicroTime t)"
  "lease_HolderIdentity (renewed_lease t l) = lease_HolderIdentity l"
  "lease_DurationSeconds (renewed_lease t l) = lease_DurationSeconds l"
  "lease_RenewTime (renewed_lease t l) = Some (MicroTime t)"
  by (simp_all add: created_lease_def fresh_lease_def taken_lease_def renewed_lease_def Let_def)

lemma elect_step_ok:
  assumes "elect_step E c c'" "\<And>p. el_Identity (E p) = p" "\<And>p. role_ok E c p"
  shows "role_ok E c' q"
  using assms(1)
proof cases
  case (clock t)
  then show ?thesis using role_ok_same [OF assms(3) [of q]] by simp
next
  case (create p t r)
  have "cl_role c q = Follower \<or> q = [] \<and> (\<exists>since. cl_role c q = Leading since)"
    using assms(3) [of q] create(3) by (auto simp: role_ok_def snapshot_ok_def holds_on_def owns_def split: Role.splits)
  moreover have "holds_on E c' p (MicroTime t)" using create assms(2) by (auto simp: holds_on_def owns_def)
  ultimately show ?thesis using create by (auto simp: role_ok_def)
next
  case (take p v l t l' r)
  have l: "l' = l" and t: "t \<le> cl_now c" "\<not> held_by_other (E p) t l"
    using assms(3) [of p] take by (auto simp: role_ok_def snapshot_ok_def)
  show ?thesis
  proof (cases "q = p")
    case True
    have "holds_on E c' p (MicroTime t)" using take assms(2) by (auto simp: holds_on_def owns_def)
    then show ?thesis using True take by (auto simp: role_ok_def)
  next
    case False
    have "lease_span (E q) < cl_now c - since" if "q \<noteq> []" "owns E c q since" for since
      using taken_from_expired [OF t(2,1) _ that(2,1)] take l False assms(2) by auto
    then show ?thesis
      using take False assms(2) role_ok_written [OF assms(3) [of q], of c' v l' "taken_lease (E p) t l"] by auto
  qed
next
  case (renew_read p since v l)
  show ?thesis
  proof (cases "q = p")
    case True
    have "role_ok E c p" by (rule assms(3))
    then show ?thesis using True renew_read assms(2) by (auto simp: role_ok_def snapshot_ok_def holds_on_def owns_def)
  qed (use renew_read role_ok_same [OF assms(3) [of q]] in simp)
next
  case (renew_write p since v l t l' r)
  have l: "l' = l" and p: "lease_HolderIdentity l = Some p" "p = [] \<or> holds_on E c p since"
    using assms(3) [of p] renew_write by (auto simp: role_ok_def snapshot_ok_def)
  show ?thesis
  proof (cases "q = p")
    case True
    have "p = [] \<or> holds_on E c' p (MicroTime t)" using renew_write l p by (auto simp: holds_on_def owns_def)
    then show ?thesis using True renew_write by (auto simp: role_ok_def)
  next
    case False
    have "\<not> owns E c q since'" for since' using renew_write l p False by (auto simp: owns_def)
    then show ?thesis
      using renew_write l p False role_ok_written [OF assms(3) [of q], of c' v l' "renewed_lease t l"] by auto
  qed
next
  case (give_up p)
  show ?thesis
  proof (cases "q = p")
    case True
    then show ?thesis using give_up by (simp add: role_ok_def)
  qed (use give_up role_ok_same [OF assms(3) [of q]] in simp)
next
  case (read p v l)
  show ?thesis
  proof (cases "q = p")
    case True
    then show ?thesis using read by (simp add: role_ok_def snapshot_ok_def)
  qed (use read role_ok_same [OF assms(3) [of q]] in simp)
qed


lemma elect_reaches_ok:
  assumes "(elect_step E)\<^sup>*\<^sup>* (elect_start t) c" "\<And>p. el_Identity (E p) = p"
  shows "role_ok E c p"
  using assms(1)
proof (induction arbitrary: p rule: rtranclp_induct)
  case (step c c')
  then show ?case using elect_step_ok assms(2) by blast
qed (simp add: elect_start_def role_ok_def)



definition sample_elector :: "string \<Rightarrow> Elector" where
  "sample_elector p = \<lparr>el_Namespace = ''kairon'', el_Name = ''controller'', el_Identity = p, el_LeaseDuration = 0,
     el_RenewPeriod = 0, el_RetryPeriod = 0\<rparr>"

lemma sample_span: "lease_span (sample_elector p) = 15 * Second"
  using seconds32_whole [of 15] by (simp add: lease_span_def leaseDuration_def sample_elector_def DefaultLeaseDuration_def)



end
