(* ===== verification/Call_Log.thy ===== *)
theory Call_Log
  imports Kairon_Prelude "HOL-Library.State_Monad"
begin

text \<open>
  Code that talks to other processes: a computation in the state monad over the calls made so far.
  What a call answers is a function of those calls, so a statement about every such function
  covers every order of failures. The predicates and rules here say which calls a computation may
  make, and which only as its last one.
\<close>

type_synonym ('c, 'a) io = "('c list, 'a) state"

definition ask :: "('c list \<Rightarrow> 'a) \<Rightarrow> 'c \<Rightarrow> ('c, 'a) io" where
  \<comment> \<open>makes a call and returns its answer\<close>
  "ask answer c = State (\<lambda>h. (answer h, h @ [c]))"

definition attempt :: "('c list \<Rightarrow> 'c \<Rightarrow> 'e option) \<Rightarrow> 'c \<Rightarrow> ('c, 'e option) io" where
  \<comment> \<open>a call whose answer is only whether it failed\<close>
  "attempt api c = ask (\<lambda>h. api h c) c"

datatype 'a ListAnswer = ListFailed err | KindNotFound | Listed 'a
  \<comment> \<open>what listing objects answers; a cluster without the definition of their kind answers not-found\<close>

named_theorems call_intros

definition only_calls :: "('c \<Rightarrow> bool) \<Rightarrow> ('c, 'a) io \<Rightarrow> bool" where
  "only_calls ok m \<longleftrightarrow> (\<forall>h. \<exists>r cs. run_state m h = (r, h @ cs) \<and> list_all ok cs)"

definition ends_in :: "('c \<Rightarrow> bool) \<Rightarrow> ('c list \<Rightarrow> 'c \<Rightarrow> bool) \<Rightarrow> 'c list \<Rightarrow> 'c list \<Rightarrow> bool" where
  \<comment> \<open>of the calls made after \<open>h\<close> only the last may break \<open>ok\<close>, and then \<open>Q\<close> holds of it\<close>
  "ends_in ok Q h cs \<longleftrightarrow> list_all ok cs \<or> (\<exists>pre c. cs = pre @ [c] \<and> list_all ok pre \<and> Q (h @ pre) c)"

definition last_call :: "('c \<Rightarrow> bool) \<Rightarrow> ('c list \<Rightarrow> 'c \<Rightarrow> bool) \<Rightarrow> ('c, 'a) io \<Rightarrow> bool" where
  "last_call ok Q m \<longleftrightarrow> (\<forall>h. \<exists>r cs. run_state m h = (r, h @ cs) \<and> ends_in ok Q h cs)"

lemma ends_in_append: "list_all ok cs \<Longrightarrow> ends_in ok Q (h @ cs) cs' \<Longrightarrow> ends_in ok Q h (cs @ cs')"
  unfolding ends_in_def by (metis append.assoc list_all_append)

lemma only_calls_return [call_intros]: "only_calls ok (State_Monad.return x)"
  by (simp add: only_calls_def State_Monad.return_def)

lemma only_calls_ask [call_intros]: "ok c \<Longrightarrow> only_calls ok (ask answer c)"
  by (simp add: only_calls_def ask_def)

lemma only_calls_attempt [call_intros]: "ok c \<Longrightarrow> only_calls ok (attempt api c)"
  by (simp add: attempt_def only_calls_ask)

lemma only_calls_bind [call_intros]:
  assumes "only_calls ok m" "\<And>x. only_calls ok (f x)"
  shows "only_calls ok (State_Monad.bind m f)"
  unfolding only_calls_def
proof
  fix h
  obtain r cs where 1: "run_state m h = (r, h @ cs)" "list_all ok cs" using assms(1) unfolding only_calls_def by blast
  obtain r' cs' where 2: "run_state (f r) (h @ cs) = (r', (h @ cs) @ cs')" "list_all ok cs'" using assms(2) unfolding only_calls_def by blast
  have "run_state (State_Monad.bind m f) h = (r', h @ (cs @ cs'))" using 1 2 by (simp add: State_Monad.bind_def)
  then show "\<exists>r cs. run_state (State_Monad.bind m f) h = (r, h @ cs) \<and> list_all ok cs" using 1 2 by force
qed

lemma only_calls_last: "only_calls ok m \<Longrightarrow> last_call ok Q m"
  unfolding only_calls_def last_call_def ends_in_def by blast

lemma last_call_return [call_intros]: "last_call ok Q (State_Monad.return x)"
  by (rule only_calls_last [OF only_calls_return])

lemma last_call_bind_result:
  assumes "only_calls ok m" "\<And>h x h'. run_state m h = (x, h') \<Longrightarrow> last_call ok Q (f x)"
  shows "last_call ok Q (State_Monad.bind m f)"
  unfolding last_call_def
proof
  fix h
  obtain r cs where 1: "run_state m h = (r, h @ cs)" "list_all ok cs" using assms(1) unfolding only_calls_def by blast
  obtain r' cs' where 2: "run_state (f r) (h @ cs) = (r', (h @ cs) @ cs')" "ends_in ok Q (h @ cs) cs'"
    using assms(2) [OF 1(1)] unfolding last_call_def by blast
  have "run_state (State_Monad.bind m f) h = (r', h @ (cs @ cs'))" using 1 2 by (simp add: State_Monad.bind_def)
  then show "\<exists>r cs. run_state (State_Monad.bind m f) h = (r, h @ cs) \<and> ends_in ok Q h cs"
    using ends_in_append [OF 1(2) 2(2)] by blast
qed

lemma last_call_bind [call_intros]: "only_calls ok m \<Longrightarrow> (\<And>x. last_call ok Q (f x)) \<Longrightarrow> last_call ok Q (State_Monad.bind m f)"
  by (rule last_call_bind_result)

lemma only_calls_mono: "only_calls ok m \<Longrightarrow> (\<And>c. ok c \<Longrightarrow> ok' c) \<Longrightarrow> only_calls ok' m"
  unfolding only_calls_def list_all_iff by meson

lemma only_calls_run: "only_calls ok m \<Longrightarrow> run_state m h = (x, h1) \<Longrightarrow> \<exists>cs. h1 = h @ cs \<and> list_all ok cs"
  unfolding only_calls_def by (metis Pair_inject)

end
