(* ===== verification/Snapshot_Schedule.thy ===== *)
theory Snapshot_Schedule
  imports Model_Types Go_Time Call_Log
begin

text \<open>
  Scheduled snapshots: the schedule itself (\<open>internal/model/machinesnapshotschedule.go\<close>), with
  its slots, deadlines and pruning, and the controller step that fires the schedules
  (\<open>internal/controller/machinesnapshotschedule.go\<close>). A run-time panic is the value \<open>None\<close>.
\<close>

section \<open>Objects\<close>

definition SnapshotScheduleLabel :: string where
  "SnapshotScheduleLabel = ''kairon.zyvor.dev/snapshot-schedule''"

definition AnnotationSnapshotScheduleTriggerNow :: string where
  "AnnotationSnapshotScheduleTriggerNow = ''kairon.zyvor.dev/trigger-now''"

record VolumeSnapshotReference =
  vsr_VolumeName :: string
  vsr_VolumeSnapshotName :: string
  vsr_ReadyToUse :: bool
  vsr_AtlasSnapshotID :: string
  vsr_AtlasJobID :: string

record MachineSnapshotSpec =
  snap_MachineName :: string
  snap_VolumeSnapshotClassName :: string
  snap_VolumeNames :: "string list"

record MachineSnapshotStatus =
  snap_Phase :: string
  snap_Message :: string
  snap_ReadyToUse :: bool
  snap_VolumeSnapshots :: "VolumeSnapshotReference list"

record MachineSnapshot =
  snap_Metadata :: ObjectMeta
  snap_Spec :: MachineSnapshotSpec
  snap_Status :: MachineSnapshotStatus

definition MachineSnapshotStatus0 :: MachineSnapshotStatus where
  "MachineSnapshotStatus0 = \<lparr>snap_Phase = [], snap_Message = [], snap_ReadyToUse = False, snap_VolumeSnapshots = []\<rparr>"

abbreviation created_at :: "MachineSnapshot \<Rightarrow> time" where
  "created_at s \<equiv> meta_CreationTimestamp (snap_Metadata s)"

record MachineSnapshotScheduleSpec =
  sch_Selector :: smap
  sch_IntervalSeconds :: int
  sch_VolumeSnapshotClassName :: string
  sch_Suspend :: bool
  sch_KeepLast :: int
  sch_StartingDeadlineSeconds :: int
  sch_DailyAt :: string
  sch_JitterSeconds :: int
  sch_MaxAgeSeconds :: int

record MachineSnapshotScheduleStatus =
  sst_LastRunTime :: time
  sst_LastRunSnapshotCount :: int
  sst_LastRunError :: string
  sst_NextRunTime :: time
  sst_LastHandledTriggerTime :: string

record MachineSnapshotSchedule =
  sched_Metadata :: ObjectMeta
  sched_Spec :: MachineSnapshotScheduleSpec
  sched_Status :: MachineSnapshotScheduleStatus

abbreviation sched_name :: "MachineSnapshotSchedule \<Rightarrow> string" where
  "sched_name s \<equiv> meta_Name (sched_Metadata s)"

definition sched_ns :: "MachineSnapshotSchedule \<Rightarrow> string" where
  \<comment> \<open>\<open>Namespace\<close>, with no default\<close>
  "sched_ns s = meta_Namespace (sched_Metadata s)"

section \<open>Slots\<close>

definition two_digits :: "char \<Rightarrow> char \<Rightarrow> int option" where
  "two_digits a b = (if is_digit a \<and> is_digit b then Some (10 * int (digit_val a) + int (digit_val b)) else None)"

definition parse_clock :: "string \<Rightarrow> (int \<times> int) option" where
  \<comment> \<open>\<open>time.Parse("15:04", v)\<close> on a text of five characters: the hour and the minute\<close>
  "parse_clock v = (case v of
     [a, b, c, d, e] \<Rightarrow>
       (case (two_digits a b, two_digits d e) of
          (Some h, Some m) \<Rightarrow> if c = CHR '':'' \<and> h < 24 \<and> m < 60 then Some (h, m) else None
        | _ \<Rightarrow> None)
   | _ \<Rightarrow> None)"

definition ParseDailyAt :: "string \<Rightarrow> int res" where
  "ParseDailyAt v = (case parse_clock v of
     None \<Rightarrow> Err (''dailyAt '' @ Quote v @ '': want HH:MM (24h, UTC)'')
   | Some (h, m) \<Rightarrow> Ok (h * Hour + m * Minute))"

definition ScheduleValidate :: "MachineSnapshotScheduleSpec \<Rightarrow> err option" where
  "ScheduleValidate s =
     (let negative = (if sch_JitterSeconds s < 0 \<or> sch_MaxAgeSeconds s < 0
            then Some ''jitterSeconds and maxAgeSeconds must not be negative'' else None) in
      if sch_DailyAt s \<noteq> [] then
        (if sch_IntervalSeconds s \<noteq> 0 then Some ''set either intervalSeconds or dailyAt, not both''
         else case ParseDailyAt (sch_DailyAt s) of
           Inl e \<Rightarrow> Some e
         | Inr _ \<Rightarrow> if 86400 \<le> sch_JitterSeconds s then Some ''jitterSeconds must be below 86400 with dailyAt'' else negative)
      else if sch_IntervalSeconds s < 60 then Some ''intervalSeconds must be at least 60 (or set dailyAt)''
      else if sch_IntervalSeconds s \<le> sch_JitterSeconds s then Some ''jitterSeconds must be below intervalSeconds''
      else negative)"

definition JitterOffset :: "MachineSnapshotSchedule \<Rightarrow> int option" where
  \<comment> \<open>the modulus is the low 32 bits of the setting; the remainder by 0 panics\<close>
  "JitterOffset s =
     (let j = sch_JitterSeconds (sched_Spec s); modulus = (word_of_int j :: 32 word) in
      if j \<le> 0 then Some 0
      else if modulus = 0 then None
      else Some (seconds (uint (fnv32a (sched_ns s @ ''/'' @ sched_name s) mod modulus))))"

definition slotted :: "MachineSnapshotScheduleSpec \<Rightarrow> bool" where
  "slotted s = (sch_DailyAt s \<noteq> [] \<or> 0 < sch_JitterSeconds s)"

function slot_forward :: "time \<Rightarrow> time \<Rightarrow> time" where
  \<comment> \<open>\<open>for !slot.After(ref) { slot = slot.AddDate(0, 0, 1) }\<close>\<close>
  "slot_forward ref slot = (if \<not> ref < slot then slot_forward ref (slot + Day) else slot)"
  by auto
termination by (relation "measure (\<lambda>(ref, slot). nat (ref - slot + 1))") (auto simp: Day_def duration_defs)

function slot_back :: "time \<Rightarrow> time \<Rightarrow> time" where
  \<comment> \<open>\<open>for slot.Add(-24 * time.Hour).After(ref) { slot = slot.AddDate(0, 0, -1) }\<close>\<close>
  "slot_back ref slot = (if ref < slot - Day then slot_back ref (slot - Day) else slot)"
  by auto
termination by (relation "measure (\<lambda>(ref, slot). nat (slot - ref))") (auto simp: Day_def duration_defs)

declare slot_forward.simps [simp del] slot_back.simps [simp del]

definition nextSlot :: "MachineSnapshotScheduleSpec \<Rightarrow> time \<Rightarrow> int \<Rightarrow> time" where
  "nextSlot s ref offset =
     (if sch_DailyAt s \<noteq> [] then
        (case ParseDailyAt (sch_DailyAt s) of
           Inl _ \<Rightarrow> 0
         | Inr clock \<Rightarrow> slot_back ref (slot_forward ref (ref div Day * Day + (clock + offset))))
      else
        let interval = seconds (sch_IntervalSeconds s); base = unix_epoch + offset in
        if interval \<le> 0 then 0
        else let k = (if ref < base then 0 else wrap64 (quot (time_Sub ref base) interval + 1))
             in base + wrap64 (k * interval))"

section \<open>When a run is due\<close>

definition spec_Due :: "MachineSnapshotScheduleSpec \<Rightarrow> time \<Rightarrow> time \<Rightarrow> bool" where
  "spec_Due s lastRun now =
     (if sch_Suspend s then False
      else if lastRun = 0 then True
      else seconds (sch_IntervalSeconds s) \<le> time_Sub now lastRun)"

definition spec_DeadlineExceeded :: "MachineSnapshotScheduleSpec \<Rightarrow> time \<Rightarrow> time \<Rightarrow> bool" where
  "spec_DeadlineExceeded s lastRun now =
     (if sch_StartingDeadlineSeconds s \<le> 0 \<or> lastRun = 0 then False
      else seconds (sch_StartingDeadlineSeconds s) < time_Sub now (lastRun + seconds (sch_IntervalSeconds s)))"

definition spec_NextRunAfter :: "MachineSnapshotScheduleSpec \<Rightarrow> time \<Rightarrow> time" where
  "spec_NextRunAfter s firedAt = firedAt + seconds (sch_IntervalSeconds s)"

definition dueAt :: "MachineSnapshotSchedule \<Rightarrow> time \<Rightarrow> time option" where
  "dueAt s lastRun =
     (let spec = sched_Spec s in
      if \<not> slotted spec then Some (if lastRun = 0 then 0 else lastRun + seconds (sch_IntervalSeconds spec))
      else let ref = (if lastRun = 0 then meta_CreationTimestamp (sched_Metadata s) else lastRun) in
        if ref = 0 then Some 0 else map_option (nextSlot spec ref) (JitterOffset s))"

definition Due :: "MachineSnapshotSchedule \<Rightarrow> time \<Rightarrow> time \<Rightarrow> bool option" where
  "Due s lastRun now =
     (if sch_Suspend (sched_Spec s) then Some False
      else if \<not> slotted (sched_Spec s) then Some (spec_Due (sched_Spec s) lastRun now)
      else map_option (\<lambda>t. \<not> now < t) (dueAt s lastRun))"

definition DeadlineExceeded :: "MachineSnapshotSchedule \<Rightarrow> time \<Rightarrow> time \<Rightarrow> bool option" where
  "DeadlineExceeded s lastRun now =
     (if \<not> slotted (sched_Spec s) then Some (spec_DeadlineExceeded (sched_Spec s) lastRun now)
      else if sch_StartingDeadlineSeconds (sched_Spec s) \<le> 0 \<or> lastRun = 0 then Some False
      else map_option (\<lambda>t. seconds (sch_StartingDeadlineSeconds (sched_Spec s)) < time_Sub now t) (dueAt s lastRun))"

definition NextRunAfter :: "MachineSnapshotSchedule \<Rightarrow> time \<Rightarrow> time option" where
  "NextRunAfter s firedAt =
     (if \<not> slotted (sched_Spec s) then Some (spec_NextRunAfter (sched_Spec s) firedAt)
      else map_option (nextSlot (sched_Spec s) firedAt) (JitterOffset s))"

definition TriggerNowRequested :: "string \<Rightarrow> string \<Rightarrow> bool" where
  "TriggerNowRequested annotationValue lastHandled = (annotationValue \<noteq> [] \<and> annotationValue \<noteq> lastHandled)"


section \<open>Pruning\<close>

definition newer :: "MachineSnapshot \<Rightarrow> MachineSnapshot \<Rightarrow> bool" where
  "newer a b = (created_at b < created_at a)"

definition prunable :: "int \<Rightarrow> int \<Rightarrow> time \<Rightarrow> nat \<Rightarrow> MachineSnapshot \<Rightarrow> bool" where
  \<comment> \<open>the body of the loop, at an index of the list sorted newest first\<close>
  "prunable keepLast maxAge now i snap =
     (if i = 0 then False
      else 0 < keepLast \<and> keepLast \<le> int i \<or> 0 < maxAge \<and> seconds maxAge < time_Sub now (created_at snap))"

definition prune_from :: "int \<Rightarrow> int \<Rightarrow> time \<Rightarrow> MachineSnapshot list \<Rightarrow> MachineSnapshot list" where
  "prune_from keepLast maxAge now snaps =
     map snd (filter (\<lambda>(i, snap). prunable keepLast maxAge now i snap) (enumerate 0 snaps))"

definition ScheduledSnapshotsToPrune :: "MachineSnapshot list \<Rightarrow> int \<Rightarrow> int \<Rightarrow> time \<Rightarrow> MachineSnapshot list" where
  \<comment> \<open>\<open>sort.Slice\<close> may order snapshots of the same instant in any way; the model keeps their order,
      and the lemmas below hold for every list sorted newest first\<close>
  "ScheduledSnapshotsToPrune snaps keepLast maxAge now = prune_from keepLast maxAge now (sort_by newer snaps)"

section \<open>The controller step\<close>

datatype SchedCall =
    SetScheduleError string string string
  | ListSnapshots string
  | CreateSnapshot string MachineSnapshot
  | DeleteSnapshot string string
  | PatchScheduleStatus string string MachineSnapshotScheduleStatus

text \<open>
  What the API server answers is a function of the calls made so far and the call: an error, or
  a list of snapshots (used by the list call only).
\<close>

type_synonym sched_api = "SchedCall list \<Rightarrow> SchedCall \<Rightarrow> MachineSnapshot list res"

definition owned_ready :: "string \<Rightarrow> string \<Rightarrow> MachineSnapshot \<Rightarrow> bool" where
  "owned_ready scheduleName machineName s =
     (mget (meta_Labels (snap_Metadata s)) SnapshotScheduleLabel = scheduleName
      \<and> snap_MachineName (snap_Spec s) = machineName \<and> snap_ReadyToUse (snap_Status s))"

definition pruneScheduledSnapshots ::
  "sched_api \<Rightarrow> string \<Rightarrow> string \<Rightarrow> string \<Rightarrow> int \<Rightarrow> int \<Rightarrow> time \<Rightarrow> SchedCall list \<Rightarrow> SchedCall list" where
  \<comment> \<open>the last argument and the result are the calls made so far; an error of a delete is only logged\<close>
  "pruneScheduledSnapshots api ns scheduleName machineName keepLast maxAge now calls =
     (let calls' = calls @ [ListSnapshots ns] in
      case api calls (ListSnapshots ns) of
        Inl _ \<Rightarrow> calls'
      | Inr everything \<Rightarrow> calls' @ map (\<lambda>old. DeleteSnapshot ns (meta_Name (snap_Metadata old)))
          (ScheduledSnapshotsToPrune (filter (owned_ready scheduleName machineName) everything) keepLast maxAge now))"

definition scheduled_snapshot :: "MachineSnapshotSchedule \<Rightarrow> Machine \<Rightarrow> time \<Rightarrow> MachineSnapshot" where
  "scheduled_snapshot sched m now =
     \<lparr>snap_Metadata = ObjectMeta0\<lparr>meta_Name := sched_name sched @ ''-'' @ m_name m @ ''-'' @ show_int (time_Unix now),
        meta_Namespace := sched_ns sched, meta_Labels := [(SnapshotScheduleLabel, sched_name sched)]\<rparr>,
      snap_Spec = \<lparr>snap_MachineName = m_name m,
        snap_VolumeSnapshotClassName = sch_VolumeSnapshotClassName (sched_Spec sched), snap_VolumeNames = []\<rparr>,
      snap_Status = MachineSnapshotStatus0\<rparr>"

definition scheduled_for :: "MachineSnapshotSchedule \<Rightarrow> Machine \<Rightarrow> bool" where
  "scheduled_for sched m =
     (Namespace m = sched_ns sched \<and> LabelsMatch (meta_Labels (mach_Metadata m)) (sch_Selector (sched_Spec sched)))"

fun snapshot_loop ::
  "sched_api \<Rightarrow> MachineSnapshotSchedule \<Rightarrow> time \<Rightarrow> Machine list \<Rightarrow> int \<times> err option \<times> SchedCall list \<Rightarrow> int \<times> err option \<times> SchedCall list" where
  \<comment> \<open>the loop over the Machines: the count of snapshots created, the first error and the calls\<close>
  "snapshot_loop api sched now [] acc = acc"
| "snapshot_loop api sched now (m # ms) (n, firstErr, calls) =
     (if \<not> scheduled_for sched m then snapshot_loop api sched now ms (n, firstErr, calls)
      else let call = CreateSnapshot (sched_ns sched) (scheduled_snapshot sched m now); calls' = calls @ [call] in
        case api calls call of
          Inl e \<Rightarrow> snapshot_loop api sched now ms (n, if firstErr = None then Some e else firstErr, calls')
        | Inr _ \<Rightarrow>
            let spec = sched_Spec sched;
                calls'' = (if 0 < sch_KeepLast spec \<or> 0 < sch_MaxAgeSeconds spec
                  then pruneScheduledSnapshots api (sched_ns sched) (sched_name sched) (m_name m) (sch_KeepLast spec)
                    (sch_MaxAgeSeconds spec) now calls'
                  else calls')
            in snapshot_loop api sched now ms (n + 1, firstErr, calls''))"

definition run_schedule :: "sched_api \<Rightarrow> MachineSnapshotSchedule \<Rightarrow> time \<Rightarrow> bool \<Rightarrow> Machine list \<Rightarrow> SchedCall list \<Rightarrow> SchedCall list option" where
  \<comment> \<open>a schedule that fires\<close>
  "run_schedule api sched now manual machines calls =
     (case snapshot_loop api sched now machines (0, None, calls) of (n, firstErr, calls') \<Rightarrow>
        map_option (\<lambda>nextRun. calls' @ [PatchScheduleStatus (sched_ns sched) (sched_name sched)
            \<lparr>sst_LastRunTime = now, sst_LastRunSnapshotCount = n,
             sst_LastRunError = (case firstErr of None \<Rightarrow> [] | Some e \<Rightarrow> e), sst_NextRunTime = nextRun,
             sst_LastHandledTriggerTime =
               (if manual then mget (meta_Annotations (sched_Metadata sched)) AnnotationSnapshotScheduleTriggerNow else [])\<rparr>])
          (NextRunAfter sched now))"

definition skip_schedule :: "MachineSnapshotSchedule \<Rightarrow> time \<Rightarrow> SchedCall list \<Rightarrow> SchedCall list option" where
  \<comment> \<open>a run whose starting deadline has passed\<close>
  "skip_schedule sched now calls =
     map_option (\<lambda>nextRun. calls @ [PatchScheduleStatus (sched_ns sched) (sched_name sched)
         \<lparr>sst_LastRunTime = now, sst_LastRunSnapshotCount = 0,
          sst_LastRunError = ''skipped: this run was more than startingDeadlineSeconds (''
            @ show_int (sch_StartingDeadlineSeconds (sched_Spec sched)) @ ''s) late'',
          sst_NextRunTime = nextRun, sst_LastHandledTriggerTime = []\<rparr>])
       (NextRunAfter sched now)"

definition reconcile_schedule :: "sched_api \<Rightarrow> time \<Rightarrow> Machine list \<Rightarrow> MachineSnapshotSchedule \<Rightarrow> SchedCall list \<Rightarrow> SchedCall list option" where
  \<comment> \<open>one turn of the loop over the schedules\<close>
  "reconcile_schedule api now machines sched calls =
     (let status = sched_Status sched; lastRun = sst_LastRunTime status;
          manual = TriggerNowRequested (mget (meta_Annotations (sched_Metadata sched)) AnnotationSnapshotScheduleTriggerNow)
            (sst_LastHandledTriggerTime status) in
      case ScheduleValidate (sched_Spec sched) of
        Some e \<Rightarrow> Some (if sst_LastRunError status \<noteq> ''invalid spec: '' @ e
          then calls @ [SetScheduleError (sched_ns sched) (sched_name sched) (''invalid spec: '' @ e)] else calls)
      | None \<Rightarrow>
          if manual then run_schedule api sched now manual machines calls
          else Option.bind (Due sched lastRun now) (\<lambda>due.
            if \<not> due then Some calls
            else Option.bind (DeadlineExceeded sched lastRun now) (\<lambda>late.
              if late then skip_schedule sched now calls
              else run_schedule api sched now manual machines calls)))"

fun schedules_loop :: "sched_api \<Rightarrow> time \<Rightarrow> Machine list \<Rightarrow> MachineSnapshotSchedule list \<Rightarrow> SchedCall list \<Rightarrow> SchedCall list option" where
  "schedules_loop api now machines [] calls = Some calls"
| "schedules_loop api now machines (sched # scheds) calls =
     Option.bind (reconcile_schedule api now machines sched calls) (schedules_loop api now machines scheds)"

definition patched_status :: "MachineSnapshotScheduleStatus \<Rightarrow> MachineSnapshotScheduleStatus \<Rightarrow> MachineSnapshotScheduleStatus" where
  \<comment> \<open>what the merge patch of \<open>PatchMachineSnapshotScheduleStatus\<close> makes of the stored status: the fields
      tagged \<open>omitempty\<close> are left out of the patch when they are empty, instants never are\<close>
  "patched_status old new =
     \<lparr>sst_LastRunTime = sst_LastRunTime new,
      sst_LastRunSnapshotCount = (if sst_LastRunSnapshotCount new = 0 then sst_LastRunSnapshotCount old else sst_LastRunSnapshotCount new),
      sst_LastRunError = (if sst_LastRunError new = [] then sst_LastRunError old else sst_LastRunError new),
      sst_NextRunTime = sst_NextRunTime new,
      sst_LastHandledTriggerTime = (if sst_LastHandledTriggerTime new = [] then sst_LastHandledTriggerTime old else sst_LastHandledTriggerTime new)\<rparr>"

definition reconcileMachineSnapshotSchedules ::
  "sched_api \<Rightarrow> MachineSnapshotSchedule list ListAnswer \<Rightarrow> time \<Rightarrow> Machine list \<Rightarrow> SchedCall list res option" where
  "reconcileMachineSnapshotSchedules api schedules now machines =
     (case schedules of
        KindNotFound \<Rightarrow> Some (Ok [])
      | ListFailed e \<Rightarrow> Some (Err e)
      | Listed scheds \<Rightarrow> map_option Ok (schedules_loop api now machines scheds []))"


section \<open>Slots: lemmas\<close>

definition is_slot :: "MachineSnapshotScheduleSpec \<Rightarrow> int \<Rightarrow> time \<Rightarrow> bool" where
  \<comment> \<open>the instants at which a slotted schedule fires: once a day at its time of day, or on the grid
      of its interval from the Unix epoch on, both shifted by the offset\<close>
  "is_slot s offset t \<longleftrightarrow>
     (if sch_DailyAt s \<noteq> [] then \<exists>k clock. ParseDailyAt (sch_DailyAt s) = Ok clock \<and> t = k * Day + clock + offset
      else \<exists>k. 0 \<le> k \<and> t = unix_epoch + offset + k * seconds (sch_IntervalSeconds s))"

lemma Day_pos: "0 < Day"
  by (simp add: Day_def duration_defs)

lemma slot_forward_spec: "\<exists>k. slot_forward ref slot = slot + k * Day \<and> ref < slot_forward ref slot"
proof (induction ref slot rule: slot_forward.induct)
  case (1 ref slot)
  show ?case
  proof (cases "ref < slot")
    case False
    with 1 obtain k where "slot_forward ref (slot + Day) = (slot + Day) + k * Day" "ref < slot_forward ref (slot + Day)" by blast
    with False have "slot_forward ref slot = slot + (k + 1) * Day \<and> ref < slot_forward ref slot"
      by (simp add: slot_forward.simps [of ref slot] algebra_simps)
    then show ?thesis by blast
  qed (auto simp: slot_forward.simps [of ref slot] intro: exI [of _ 0])
qed

lemma slot_back_spec:
  "ref < slot \<Longrightarrow> \<exists>k. slot_back ref slot = slot + k * Day \<and> ref < slot_back ref slot \<and> slot_back ref slot \<le> ref + Day"
proof (induction ref slot rule: slot_back.induct)
  case (1 ref slot)
  show ?case
  proof (cases "ref < slot - Day")
    case True
    with 1 obtain k where "slot_back ref (slot - Day) = (slot - Day) + k * Day" "ref < slot_back ref (slot - Day)"
      "slot_back ref (slot - Day) \<le> ref + Day" by blast
    with True have "slot_back ref slot = slot + (k - 1) * Day \<and> ref < slot_back ref slot \<and> slot_back ref slot \<le> ref + Day"
      by (simp add: slot_back.simps [of ref slot] algebra_simps)
    then show ?thesis by blast
  qed (use 1 in \<open>auto simp: slot_back.simps [of ref slot] intro: exI [of _ 0]\<close>)
qed

lemma first_multiple:
  \<comment> \<open>a point of a grid within one step after the reference is the first one after it\<close>
  fixes d :: int
  assumes "0 < d" "x = a + k * d" "x \<le> ref + d" "t = a + j * d" "ref < t"
  shows "x \<le> t"
proof (rule ccontr)
  assume "\<not> x \<le> t"
  then have "j * d < k * d" using assms by simp
  then have "j + 1 \<le> k" using assms(1) by simp
  then have "(j + 1) * d \<le> k * d" using assms(1) by (intro mult_right_mono) auto
  then show False using assms by (simp add: algebra_simps)
qed

definition in_range :: "MachineSnapshotScheduleSpec \<Rightarrow> time \<Rightarrow> bool" where
  \<comment> \<open>where no 64-bit duration overflows: an interval and a time within 146 years\<close>
  "in_range s t \<longleftrightarrow> sch_IntervalSeconds s \<le> 4600000000 \<and> 0 \<le> t \<and> t < unix_epoch + 2 ^ 62"

lemma nextSlot_interval:
  assumes "sch_DailyAt s = []" "60 \<le> sch_IntervalSeconds s" "in_range s ref" "0 \<le> offset" "unix_epoch + offset \<le> ref"
  shows "nextSlot s ref offset
    = unix_epoch + offset + ((ref - (unix_epoch + offset)) div seconds (sch_IntervalSeconds s) + 1) * seconds (sch_IntervalSeconds s)"
proof -
  let ?i = "seconds (sch_IntervalSeconds s)" and ?b = "unix_epoch + offset"
  have i: "?i = sch_IntervalSeconds s * Second" using assms by (intro seconds_id) (auto simp: in_range_def)
  have pos: "1 \<le> ?i" and le: "?i < 2 ^ 62" using assms unfolding i by (auto simp: in_range_def duration_defs)
  have d: "0 \<le> ref - ?b" "ref - ?b < 2 ^ 62" using assms by (auto simp: in_range_def)
  let ?k = "(ref - ?b) div ?i"
  have k0: "0 \<le> ?k" using d pos by (simp add: pos_imp_zdiv_nonneg_iff)
  have ki: "?k * ?i \<le> ref - ?b" using div_mult_mod_eq [of "ref - ?b" ?i] pos pos_mod_sign [of ?i "ref - ?b"] by linarith
  have "?k * 1 \<le> ?k * ?i" using k0 pos by (intro mult_left_mono) auto
  then have k: "0 \<le> ?k" "?k \<le> ref - ?b" using k0 ki by auto
  note ki
  then have m: "(?k + 1) * ?i < 2 ^ 63" "0 \<le> (?k + 1) * ?i" using k le d pos by (auto simp: algebra_simps)
  have "time_Sub ref ?b = ref - ?b" using d by (intro time_Sub_id) auto
  moreover have "quot (ref - ?b) ?i = ?k" using d pos by (cases "ref = ?b") (auto simp: quot_def sgn_if)
  moreover have "wrap64 (?k + 1) = ?k + 1" using k d by (intro wrap64_id) auto
  moreover have "wrap64 ((?k + 1) * ?i) = (?k + 1) * ?i" using m by (intro wrap64_id) auto
  ultimately show ?thesis using assms pos by (simp add: nextSlot_def Let_def)
qed


lemma nextSlot_before_epoch: "sch_DailyAt s = [] \<Longrightarrow> 0 < seconds (sch_IntervalSeconds s) \<Longrightarrow> ref < unix_epoch + offset
    \<Longrightarrow> nextSlot s ref offset = unix_epoch + offset"
  by (simp add: nextSlot_def Let_def wrap64_def)

lemma ScheduleValidate_None:
  "ScheduleValidate s = None \<Longrightarrow> (if sch_DailyAt s \<noteq> [] then \<exists>c. ParseDailyAt (sch_DailyAt s) = Ok c else 60 \<le> sch_IntervalSeconds s)"
  by (auto simp: ScheduleValidate_def Let_def split: if_splits sum.splits)

lemma nextSlot_daily:
  assumes "sch_DailyAt s \<noteq> []" "ParseDailyAt (sch_DailyAt s) = Ok clock"
  obtains k where "nextSlot s ref offset = k * Day + clock + offset" "ref < nextSlot s ref offset" "nextSlot s ref offset \<le> ref + Day"
proof -
  let ?a = "ref div Day * Day + (clock + offset)"
  obtain k where k: "slot_forward ref ?a = ?a + k * Day" "ref < slot_forward ref ?a" using slot_forward_spec by blast
  obtain j where j: "slot_back ref (slot_forward ref ?a) = slot_forward ref ?a + j * Day"
    "ref < slot_back ref (slot_forward ref ?a)" "slot_back ref (slot_forward ref ?a) \<le> ref + Day"
    using slot_back_spec [OF k(2)] by blast
  have n: "nextSlot s ref offset = slot_back ref (slot_forward ref ?a)" using assms by (simp add: nextSlot_def)
  have "slot_back ref (slot_forward ref ?a) = (ref div Day + k + j) * Day + clock + offset"
    using j(1) k(1) by (simp add: algebra_simps)
  then show thesis using that [of "ref div Day + k + j"] j unfolding n by blast
qed

section \<open>Pruning: lemmas\<close>

interpretation newest: weak_order newer
  by unfold_locales (auto simp: newer_def)

lemma prune_from_mem:
  "old \<in> set (prune_from k a now xs) \<longleftrightarrow> (\<exists>i < length xs. xs ! i = old \<and> prunable k a now i old)"
  by (auto simp: prune_from_def in_set_enumerate_eq image_iff)

text \<open>
  In a list of distinct snapshots sorted newest first, a snapshot that is pruned is older than
  the first, which is not, and is beyond the limit or too old.
\<close>

lemma prune_from_old:
  assumes "sorted_wrt (\<lambda>a b. \<not> newer b a) xs" "distinct xs" "old \<in> set (prune_from k a now xs)"
  shows "\<exists>keep \<in> set xs. keep \<noteq> old \<and> keep \<notin> set (prune_from k a now xs) \<and> (\<forall>s \<in> set xs. created_at s \<le> created_at keep)"
    and "0 < k \<and> k \<le> int (card {s \<in> set xs. s \<noteq> old \<and> created_at old \<le> created_at s})
      \<or> 0 < a \<and> seconds a < time_Sub now (created_at old)"
proof -
  obtain i where i: "i < length xs" "xs ! i = old" "prunable k a now i old" using assms(3) prune_from_mem by blast
  then have pos: "0 < i" by (cases i) (auto simp: prunable_def)
  have ne: "xs \<noteq> []" "0 < length xs" using i(1) by auto
  have hd: "created_at (xs ! j) \<le> created_at (xs ! l)" if "l < j" "j < length xs" for l j
    using sorted_wrt_nth_less [OF assms(1) that] by (simp add: newer_def)
  have "created_at s \<le> created_at (xs ! 0)" if "s \<in> set xs" for s
    using that hd [of 0] by (auto simp: in_set_conv_nth) (metis not_gr_zero order_refl)
  moreover have "xs ! 0 \<notin> set (prune_from k a now xs)"
  proof
    assume "xs ! 0 \<in> set (prune_from k a now xs)"
    then obtain j where "j < length xs" "xs ! j = xs ! 0" "prunable k a now j (xs ! 0)" using prune_from_mem by blast
    then have "j = 0" using nth_eq_iff_index_eq [OF assms(2)] ne by blast
    then show False using \<open>prunable k a now j (xs ! 0)\<close> by (simp add: prunable_def)
  qed
  moreover have "xs ! 0 \<noteq> old" using assms(2) i pos ne nth_eq_iff_index_eq [of xs 0 i] by auto
  ultimately show "\<exists>keep \<in> set xs. keep \<noteq> old \<and> keep \<notin> set (prune_from k a now xs) \<and> (\<forall>s \<in> set xs. created_at s \<le> created_at keep)"
    using ne by (intro bexI [of _ "xs ! 0"]) auto
  have "set (take i xs) \<subseteq> {s \<in> set xs. s \<noteq> old \<and> created_at old \<le> created_at s}"
  proof
    fix s assume "s \<in> set (take i xs)"
    then obtain j where j: "j < i" "s = xs ! j" using i(1) by (auto simp: in_set_conv_nth)
    then have "s \<noteq> old" using assms(2) i nth_eq_iff_index_eq [of xs j i] by auto
    then show "s \<in> {s \<in> set xs. s \<noteq> old \<and> created_at old \<le> created_at s}" using j i hd [of j i] by auto
  qed
  then have "card (set (take i xs)) \<le> card {s \<in> set xs. s \<noteq> old \<and> created_at old \<le> created_at s}" by (intro card_mono) auto
  moreover have "card (set (take i xs)) = i" using assms(2) i(1) by (simp add: distinct_card)
  ultimately show "0 < k \<and> k \<le> int (card {s \<in> set xs. s \<noteq> old \<and> created_at old \<le> created_at s})
      \<or> 0 < a \<and> seconds a < time_Sub now (created_at old)"
    using i(3) pos by (auto simp: prunable_def)
qed

abbreviation snap_name :: "MachineSnapshot \<Rightarrow> string" where
  "snap_name s \<equiv> meta_Name (snap_Metadata s)"

text \<open>A delete call is justified by what an earlier list call of the same tick answered.\<close>

definition may_prune :: "sched_api \<Rightarrow> Machine list \<Rightarrow> MachineSnapshotSchedule set \<Rightarrow> time \<Rightarrow> SchedCall list \<Rightarrow> string \<Rightarrow> string \<Rightarrow> bool" where
  \<comment> \<open>the list call made after these calls answered a snapshot of this name that one of the schedules
      made for one of its Machines, that is ready, beyond the limits and older than another one that
      is kept\<close>
  "may_prune api machines scheds now history ns name \<longleftrightarrow>
     (\<exists>listing sched m old keep.
        api history (ListSnapshots ns) = Ok listing
        \<and> sched \<in> scheds \<and> sched_ns sched = ns \<and> m \<in> set machines \<and> scheduled_for sched m
        \<and> old \<in> set listing \<and> snap_name old = name \<and> owned_ready (sched_name sched) (m_name m) old
        \<and> keep \<in> set listing \<and> snap_name keep \<noteq> name \<and> owned_ready (sched_name sched) (m_name m) keep
        \<and> (\<forall>s \<in> set listing. owned_ready (sched_name sched) (m_name m) s \<longrightarrow> created_at s \<le> created_at keep)
        \<and> keep \<notin> set (ScheduledSnapshotsToPrune (filter (owned_ready (sched_name sched) (m_name m)) listing)
             (sch_KeepLast (sched_Spec sched)) (sch_MaxAgeSeconds (sched_Spec sched)) now)
        \<and> (0 < sch_KeepLast (sched_Spec sched) \<and> sch_KeepLast (sched_Spec sched)
              \<le> int (card {s \<in> set listing. owned_ready (sched_name sched) (m_name m) s \<and> s \<noteq> old \<and> created_at old \<le> created_at s})
           \<or> 0 < sch_MaxAgeSeconds (sched_Spec sched) \<and> seconds (sch_MaxAgeSeconds (sched_Spec sched)) < time_Sub now (created_at old)))"

definition justified :: "sched_api \<Rightarrow> Machine list \<Rightarrow> MachineSnapshotSchedule set \<Rightarrow> time \<Rightarrow> SchedCall list \<Rightarrow> nat \<Rightarrow> string \<Rightarrow> string \<Rightarrow> bool" where
  "justified api machines scheds now calls i ns name \<longleftrightarrow>
     (\<exists>j < i. calls ! j = ListSnapshots ns \<and> may_prune api machines scheds now (take j calls) ns name)"

definition all_justified :: "sched_api \<Rightarrow> Machine list \<Rightarrow> MachineSnapshotSchedule set \<Rightarrow> time \<Rightarrow> SchedCall list \<Rightarrow> bool" where
  "all_justified api machines scheds now calls \<longleftrightarrow>
     (\<forall>i ns name. i < length calls \<and> calls ! i = DeleteSnapshot ns name \<longrightarrow> justified api machines scheds now calls i ns name)"

lemma justified_append:
  "justified api ms S now calls i ns name \<Longrightarrow> i \<le> length calls \<Longrightarrow> justified api ms S now (calls @ xs) i ns name"
proof -
  assume j: "justified api ms S now calls i ns name" and i: "i \<le> length calls"
  have "\<And>j. j < i \<Longrightarrow> (calls @ xs) ! j = calls ! j \<and> take j (calls @ xs) = take j calls"
    using i by (simp add: nth_append)
  then show ?thesis using j unfolding justified_def by metis
qed

lemma all_justified_append:
  assumes "all_justified api ms S now calls"
    and "\<And>i ns name. i < length xs \<Longrightarrow> xs ! i = DeleteSnapshot ns name \<Longrightarrow> justified api ms S now (calls @ xs) (length calls + i) ns name"
  shows "all_justified api ms S now (calls @ xs)"
  unfolding all_justified_def
proof (intro allI impI)
  fix i ns name
  assume i: "i < length (calls @ xs) \<and> (calls @ xs) ! i = DeleteSnapshot ns name"
  show "justified api ms S now (calls @ xs) i ns name"
  proof (cases "i < length calls")
    case True
    then show ?thesis using assms(1) i justified_append by (simp add: all_justified_def nth_append)
  next
    case False
    then have "i - length calls < length xs" "xs ! (i - length calls) = DeleteSnapshot ns name" "length calls + (i - length calls) = i"
      using i by (auto simp: nth_append)
    then show ?thesis using assms(2) [of "i - length calls" ns name] by metis
  qed
qed

lemma all_justified_snoc:
  "all_justified api ms S now calls \<Longrightarrow> (\<And>ns name. c \<noteq> DeleteSnapshot ns name) \<Longrightarrow> all_justified api ms S now (calls @ [c])"
  by (rule all_justified_append) auto

definition distinct_listings :: "sched_api \<Rightarrow> bool" where
  \<comment> \<open>the names of the objects of a namespace are unique\<close>
  "distinct_listings api \<longleftrightarrow> (\<forall>h ns xs. api h (ListSnapshots ns) = Ok xs \<longrightarrow> distinct (map snap_name xs))"

lemma prune_justified:
  assumes "all_justified api ms S now calls" "distinct_listings api"
    and "sched \<in> S" "m \<in> set ms" "scheduled_for sched m"
  shows "all_justified api ms S now (pruneScheduledSnapshots api (sched_ns sched) (sched_name sched) (m_name m)
    (sch_KeepLast (sched_Spec sched)) (sch_MaxAgeSeconds (sched_Spec sched)) now calls)"
proof (cases "api calls (ListSnapshots (sched_ns sched))")
  case (Inl e)
  then show ?thesis using assms(1) by (simp add: pruneScheduledSnapshots_def all_justified_snoc)
next
  case (Inr listing)
  let ?ns = "sched_ns sched" and ?k = "sch_KeepLast (sched_Spec sched)" and ?a = "sch_MaxAgeSeconds (sched_Spec sched)"
  let ?own = "filter (owned_ready (sched_name sched) (m_name m)) listing"
  let ?old = "ScheduledSnapshotsToPrune ?own ?k ?a now"
  let ?calls = "(calls @ [ListSnapshots ?ns]) @ map (\<lambda>old. DeleteSnapshot ?ns (snap_name old)) ?old"
  have d: "distinct (map snap_name listing)" using assms(2) Inr by (auto simp: distinct_listings_def)
  then have own: "distinct ?own" by (simp add: distinct_map distinct_filter)
  have "justified api ms S now ?calls (length (calls @ [ListSnapshots ?ns]) + i) ns name"
    if i: "i < length ?old" "map (\<lambda>old. DeleteSnapshot ?ns (snap_name old)) ?old ! i = DeleteSnapshot ns name" for i ns name
  proof -
    let ?o = "?old ! i"
    have n: "ns = ?ns" "name = snap_name ?o" using i by auto
    have o: "?o \<in> set (prune_from ?k ?a now (sort_by newer ?own))" using i by (simp add: ScheduledSnapshotsToPrune_def)
    have s: "sorted_wrt (\<lambda>a b. \<not> newer b a) (sort_by newer ?own)" "distinct (sort_by newer ?own)"
      using own newest.sorted_sort_by by auto
    obtain keep where keep: "keep \<in> set ?own" "keep \<noteq> ?o" "keep \<notin> set ?old" "\<forall>s \<in> set ?own. created_at s \<le> created_at keep"
      using prune_from_old(1) [OF s o] by (auto simp: ScheduledSnapshotsToPrune_def)
    have mem: "?o \<in> set ?own" using o prune_from_mem by (metis nth_mem set_sort_by)
    then have "snap_name keep \<noteq> snap_name ?o" using keep d by (auto simp: distinct_map inj_on_def)
    moreover have "{s \<in> set ?own. s \<noteq> ?o \<and> created_at ?o \<le> created_at s}
      = {s \<in> set listing. owned_ready (sched_name sched) (m_name m) s \<and> s \<noteq> ?o \<and> created_at ?o \<le> created_at s}" by auto
    ultimately have "may_prune api ms S now calls ns name"
      using prune_from_old(2) [OF s o] keep mem Inr assms(3-5) n
      unfolding may_prune_def by (intro exI [of _ listing] exI [of _ sched] exI [of _ m] exI [of _ ?o] exI [of _ keep]) auto
    then show ?thesis unfolding justified_def using n by (intro exI [of _ "length calls"]) (simp add: nth_append)
  qed
  then have "all_justified api ms S now ?calls"
    by (intro all_justified_append all_justified_snoc assms(1)) auto
  then show ?thesis using Inr by (simp add: pruneScheduledSnapshots_def)
qed

lemma snapshot_loop_justified:
  assumes "distinct_listings api" "sched \<in> S" "set machines \<subseteq> set ms"
  shows "all_justified api ms S now calls \<Longrightarrow> all_justified api ms S now (snd (snd (snapshot_loop api sched now machines (n, firstErr, calls))))"
  using assms(3)
proof (induction machines arbitrary: n firstErr calls)
  case (Cons m machines)
  let ?c = "CreateSnapshot (sched_ns sched) (scheduled_snapshot sched m now)" and ?spec = "sched_Spec sched"
  have c: "all_justified api ms S now (calls @ [?c])" by (rule all_justified_snoc [OF Cons.prems(1)]) simp
  have sub: "set machines \<subseteq> set ms" using Cons.prems(2) by simp
  show ?case
  proof (cases "scheduled_for sched m")
    case True
    then have "all_justified api ms S now (pruneScheduledSnapshots api (sched_ns sched) (sched_name sched) (m_name m)
        (sch_KeepLast ?spec) (sch_MaxAgeSeconds ?spec) now (calls @ [?c]))"
      using prune_justified [OF c assms(1,2)] Cons.prems(2) by simp
    then show ?thesis using True Cons.IH [OF c sub] Cons.IH [OF _ sub] c
      by (cases "api calls ?c") (simp_all add: Let_def)
  qed (use Cons sub in simp)
qed simp

lemma run_schedule_justified:
  assumes "distinct_listings api" "sched \<in> S" "all_justified api ms S now calls"
    and "run_schedule api sched now manual ms calls = Some calls'"
  shows "all_justified api ms S now calls'"
proof -
  obtain n firstErr cs where l: "snapshot_loop api sched now ms (0, None, calls) = (n, firstErr, cs)" by (rule prod_cases3)
  then have "all_justified api ms S now cs" using snapshot_loop_justified [OF assms(1,2) subset_refl assms(3), of 0 None] by simp
  then show ?thesis using assms(4) l by (auto simp: run_schedule_def intro: all_justified_snoc)
qed

lemma reconcile_schedule_justified:
  assumes "distinct_listings api" "sched \<in> S" "all_justified api ms S now calls"
    and "reconcile_schedule api now ms sched calls = Some calls'"
  shows "all_justified api ms S now calls'"
  using assms run_schedule_justified [OF assms(1-3)]
  by (auto simp: reconcile_schedule_def skip_schedule_def Let_def bind_eq_Some_conv intro: all_justified_snoc split: option.splits if_splits)

lemma schedules_loop_justified:
  assumes "distinct_listings api"
  shows "set scheds \<subseteq> S \<Longrightarrow> all_justified api ms S now calls \<Longrightarrow> schedules_loop api now ms scheds calls = Some calls'
    \<Longrightarrow> all_justified api ms S now calls'"
proof (induction scheds arbitrary: calls)
  case (Cons sched scheds)
  then obtain cs where "reconcile_schedule api now ms sched calls = Some cs" "schedules_loop api now ms scheds cs = Some calls'"
    by (auto simp: bind_eq_Some_conv)
  with Cons show ?case using reconcile_schedule_justified [OF assms] by (metis insert_subset list.simps(15))
qed simp

lemma Due_after_run:
  assumes "ScheduleValidate (sched_Spec s) = None" "sch_IntervalSeconds (sched_Spec s) \<le> 4600000000" "now \<noteq> 0"
    and "NextRunAfter s now = Some nextRun" "\<not> sch_Suspend (sched_Spec s)"
  shows "Due s now t = Some (nextRun \<le> t)"
proof (cases "slotted (sched_Spec s)")
  case True
  then show ?thesis using assms by (auto simp: Due_def NextRunAfter_def dueAt_def Let_def not_less)
next
  case False
  then have "60 \<le> sch_IntervalSeconds (sched_Spec s)"
    using ScheduleValidate_None [OF assms(1)] by (simp add: slotted_def)
  then have i: "seconds (sch_IntervalSeconds (sched_Spec s)) = sch_IntervalSeconds (sched_Spec s) * Second"
    and pos: "0 \<le> sch_IntervalSeconds (sched_Spec s)"
    using assms(2) by (auto intro: seconds_id)
  let ?i = "sch_IntervalSeconds (sched_Spec s) * Second"
  have "0 \<le> ?i" "?i < 2 ^ 63" using pos assms(2) by (auto simp: duration_defs)
  then have "?i \<le> time_Sub t now \<longleftrightarrow> now + ?i \<le> t" by (auto simp: time_Sub_def max_def min_def)
  then show ?thesis using assms(3-5) False
    by (simp add: Due_def NextRunAfter_def spec_Due_def spec_NextRunAfter_def i)
qed

section \<open>Properties\<close>

text \<open>
  C14. \<open>nextSlot\<close> is the first slot strictly after its reference: for every valid schedule the
  loops over days end, and they and the arithmetic on the grid of an interval give an instant
  that is a slot, lies after the reference, and has no other slot before it.
\<close>

theorem next_slot_is_first:
  assumes "ScheduleValidate s = None" "in_range s ref" "0 \<le> offset"
  shows "is_slot s offset (nextSlot s ref offset) \<and> ref < nextSlot s ref offset
    \<and> (\<forall>t. is_slot s offset t \<and> ref < t \<longrightarrow> nextSlot s ref offset \<le> t)"
proof (cases "sch_DailyAt s = []")
  case False
  then obtain clock where clock: "ParseDailyAt (sch_DailyAt s) = Ok clock" using ScheduleValidate_None [OF assms(1)] by auto
  obtain k where k: "nextSlot s ref offset = k * Day + clock + offset" "ref < nextSlot s ref offset" "nextSlot s ref offset \<le> ref + Day"
    using nextSlot_daily [OF False clock] .
  have "nextSlot s ref offset \<le> t" if t: "is_slot s offset t" "ref < t" for t
  proof -
    obtain j where "t = j * Day + clock + offset" using t(1) False clock by (auto simp: is_slot_def)
    then show ?thesis using first_multiple [OF Day_pos, of _ "clock + offset" k ref t j] k t(2) by (simp add: algebra_simps)
  qed
  moreover have "is_slot s offset (nextSlot s ref offset)" unfolding is_slot_def using k(1) clock False by auto
  ultimately show ?thesis using k(2) by blast
next
  case True
  let ?i = "seconds (sch_IntervalSeconds s)" and ?b = "unix_epoch + offset"
  have iv: "60 \<le> sch_IntervalSeconds s" using ScheduleValidate_None [OF assms(1)] True by simp
  have "?i = sch_IntervalSeconds s * Second" using iv assms(2) by (intro seconds_id) (auto simp: in_range_def)
  then have pos: "0 < ?i" using iv by (simp add: duration_defs)
  show ?thesis
  proof (cases "?b \<le> ref")
    case late: True
    let ?k = "(ref - ?b) div ?i + 1"
    have n: "nextSlot s ref offset = ?b + ?k * ?i" using nextSlot_interval [OF True iv assms(2,3) late] .
    have m: "(ref - ?b) div ?i * ?i + (ref - ?b) mod ?i = ref - ?b" "0 \<le> (ref - ?b) mod ?i" "(ref - ?b) mod ?i < ?i"
      using pos by simp_all
    have after: "ref < nextSlot s ref offset" and near: "nextSlot s ref offset \<le> ref + ?i"
      using m unfolding n distrib_right by linarith+
    have "0 \<le> ?k" using late pos by (simp add: pos_imp_zdiv_nonneg_iff)
    then have "is_slot s offset (nextSlot s ref offset)" using n True by (auto simp: is_slot_def)
    moreover have "nextSlot s ref offset \<le> t" if "is_slot s offset t" "ref < t" for t
      using that True first_multiple [OF pos n near] by (auto simp: is_slot_def)
    ultimately show ?thesis using after by blast
  next
    case early: False
    then have n: "nextSlot s ref offset = ?b" using nextSlot_before_epoch True pos by simp
    have "is_slot s offset ?b" using True by (auto simp: is_slot_def intro!: exI [of _ 0])
    moreover have "?b \<le> t" if "is_slot s offset t" for t
      using that True pos by (auto simp: is_slot_def)
    ultimately show ?thesis using early unfolding n by auto
  qed
qed


definition sample_spec :: MachineSnapshotScheduleSpec where
  "sample_spec = \<lparr>sch_Selector = [(''app'', ''db'')], sch_IntervalSeconds = 0, sch_VolumeSnapshotClassName = [], sch_Suspend = False,
     sch_KeepLast = 2, sch_StartingDeadlineSeconds = 0, sch_DailyAt = ''02:30'', sch_JitterSeconds = 0, sch_MaxAgeSeconds = 0\<rparr>"

lemma sample_clock: "ParseDailyAt ''02:30'' = Ok 9000000000000"
  by (simp add: ParseDailyAt_def parse_clock_def two_digits_def is_digit_def digit_val_def duration_defs)

theorem next_slot_is_first_witness:
  "is_slot sample_spec 0 (nextSlot sample_spec unix_epoch 0) \<and> unix_epoch < nextSlot sample_spec unix_epoch 0"
proof -
  have "ScheduleValidate sample_spec = None" by (simp add: ScheduleValidate_def sample_spec_def sample_clock)
  moreover have "in_range sample_spec unix_epoch" by (simp add: in_range_def sample_spec_def unix_epoch_def duration_defs)
  ultimately show ?thesis using next_slot_is_first [of sample_spec unix_epoch 0] by simp
qed


text \<open>
  C21. Pruning never takes the last good backup. Whatever the API server answers, a snapshot
  that a tick deletes was listed, during that tick, as ready and as made by one of the schedules
  for one of the Machines it selects; it is beyond the limit on number or age; and the newest
  such snapshot of that listing is another one, which is kept.
\<close>

theorem prune_keeps_newest_ready:
  assumes "distinct_listings api" "reconcileMachineSnapshotSchedules api (Listed scheds) now machines = Some (Ok calls)"
    and "i < length calls" "calls ! i = DeleteSnapshot ns name"
  shows "\<exists>j < i. calls ! j = ListSnapshots ns \<and> may_prune api machines (set scheds) now (take j calls) ns name"
proof -
  have "schedules_loop api now machines scheds [] = Some calls"
    using assms(2) by (simp add: reconcileMachineSnapshotSchedules_def)
  moreover have "all_justified api machines (set scheds) now []" by (simp add: all_justified_def)
  ultimately have "all_justified api machines (set scheds) now calls"
    using schedules_loop_justified [OF assms(1) subset_refl] by blast
  then have "justified api machines (set scheds) now calls i ns name" using assms(3,4) unfolding all_justified_def by blast
  then show ?thesis unfolding justified_def .
qed

definition sample_sched :: MachineSnapshotSchedule where
  "sample_sched = \<lparr>sched_Metadata = ObjectMeta0\<lparr>meta_Name := ''nightly'', meta_Namespace := ''prod''\<rparr>,
     sched_Spec = sample_spec\<lparr>sch_KeepLast := 1\<rparr>,
     sched_Status = \<lparr>sst_LastRunTime = 0, sst_LastRunSnapshotCount = 0, sst_LastRunError = ''quota exceeded'', sst_NextRunTime = 0,
       sst_LastHandledTriggerTime = []\<rparr>\<rparr>"

definition sample_db :: Machine where
  "sample_db = Machine0\<lparr>mach_Metadata := ObjectMeta0\<lparr>meta_Name := ''db-0'', meta_Namespace := ''prod'', meta_Labels := [(''app'', ''db'')]\<rparr>\<rparr>"

definition old_snapshot :: "string \<Rightarrow> time \<Rightarrow> MachineSnapshot" where
  "old_snapshot name t = \<lparr>snap_Metadata = ObjectMeta0\<lparr>meta_Name := name, meta_CreationTimestamp := t,
       meta_Labels := [(SnapshotScheduleLabel, ''nightly'')]\<rparr>,
     snap_Spec = \<lparr>snap_MachineName = ''db-0'', snap_VolumeSnapshotClassName = [], snap_VolumeNames = []\<rparr>,
     snap_Status = MachineSnapshotStatus0\<lparr>snap_ReadyToUse := True\<rparr>\<rparr>"

definition sample_api :: sched_api where
  "sample_api h c = Ok [old_snapshot ''s1'' 1, old_snapshot ''s2'' 2]"

lemma sample_prune:
  "ScheduledSnapshotsToPrune (filter (owned_ready ''nightly'' ''db-0'') [old_snapshot ''s1'' 1, old_snapshot ''s2'' 2]) 1 0 now
     = [old_snapshot ''s1'' 1]"
  by (simp add: ScheduledSnapshotsToPrune_def prune_from_def prunable_def owned_ready_def newer_def old_snapshot_def mget_def)

lemma sample_for: "scheduled_for sample_sched sample_db"
  by (simp add: scheduled_for_def sample_sched_def sample_db_def sample_spec_def sched_ns_def Namespace_def meta_ns_def
      LabelsMatch_def mget_def Machine0_def)

lemma sample_sel [simp]:
  "sched_ns sample_sched = ''prod''" "sched_name sample_sched = ''nightly''" "m_name sample_db = ''db-0''"
  "sch_KeepLast (sched_Spec sample_sched) = 1" "sch_MaxAgeSeconds (sched_Spec sample_sched) = 0"
  "sch_Suspend (sched_Spec sample_sched) = False" "sch_IntervalSeconds (sched_Spec sample_sched) = 0"
  "slotted (sched_Spec sample_sched)" "ScheduleValidate (sched_Spec sample_sched) = None"
  "sst_LastRunTime (sched_Status sample_sched) = 0" "meta_CreationTimestamp (sched_Metadata sample_sched) = 0"
  "sst_LastHandledTriggerTime (sched_Status sample_sched) = []" "meta_Annotations (sched_Metadata sample_sched) = []"
  "JitterOffset sample_sched = Some 0" "sch_StartingDeadlineSeconds (sched_Spec sample_sched) = 0"
  by (simp_all add: sample_sched_def sample_spec_def sample_db_def sched_ns_def slotted_def ScheduleValidate_def sample_clock JitterOffset_def
      Machine0_def)

lemma sample_run:
  "run_schedule sample_api sample_sched 5 False [sample_db] []
     = Some ([CreateSnapshot ''prod'' (scheduled_snapshot sample_sched sample_db 5), ListSnapshots ''prod'', DeleteSnapshot ''prod'' ''s1'']
         @ [PatchScheduleStatus ''prod'' ''nightly'' \<lparr>sst_LastRunTime = 5, sst_LastRunSnapshotCount = 1, sst_LastRunError = [],
           sst_NextRunTime = nextSlot (sched_Spec sample_sched) 5 0, sst_LastHandledTriggerTime = []\<rparr>])"
  using sample_prune [of 5]
  by (simp add: run_schedule_def sample_for sample_api_def pruneScheduledSnapshots_def NextRunAfter_def Let_def old_snapshot_def)

lemma sample_tick:
  "reconcileMachineSnapshotSchedules sample_api (Listed [sample_sched]) 5 [sample_db]
     = map_option Ok (run_schedule sample_api sample_sched 5 False [sample_db] [])"
  by (simp add: reconcileMachineSnapshotSchedules_def reconcile_schedule_def TriggerNowRequested_def mget_def Due_def dueAt_def
      DeadlineExceeded_def Let_def split: Option.bind_split)

theorem prune_keeps_newest_ready_witness:
  "may_prune sample_api [sample_db] {sample_sched} 5 [CreateSnapshot ''prod'' (scheduled_snapshot sample_sched sample_db 5)] ''prod'' ''s1''"
proof -
  let ?calls = "[CreateSnapshot ''prod'' (scheduled_snapshot sample_sched sample_db 5), ListSnapshots ''prod'', DeleteSnapshot ''prod'' ''s1'']
         @ [PatchScheduleStatus ''prod'' ''nightly'' \<lparr>sst_LastRunTime = 5, sst_LastRunSnapshotCount = 1, sst_LastRunError = [],
           sst_NextRunTime = nextSlot (sched_Spec sample_sched) 5 0, sst_LastHandledTriggerTime = []\<rparr>]"
  have "distinct_listings sample_api" by (simp add: distinct_listings_def sample_api_def old_snapshot_def)
  moreover have "reconcileMachineSnapshotSchedules sample_api (Listed [sample_sched]) 5 [sample_db] = Some (Ok ?calls)"
    by (simp add: sample_tick sample_run)
  ultimately obtain j where "j < 2" "?calls ! j = ListSnapshots ''prod''"
    "may_prune sample_api [sample_db] (set [sample_sched]) 5 (take j ?calls) ''prod'' ''s1''"
    using prune_keeps_newest_ready [of sample_api "[sample_sched]" 5 "[sample_db]" ?calls 2 "''prod''" "''s1''"] by auto
  then show ?thesis by (auto simp: less_2_cases_iff)
qed

text \<open>
  C31. A run is not repeated before its next slot and not missed at it. After a schedule fired,
  with the status the run wrote, no later tick before the recorded next run does anything for
  it, also when the run was triggered by hand; from that instant on it is due unless it is
  suspended.
\<close>

theorem schedule_fires_once:
  assumes "ScheduleValidate (sched_Spec sched) = None" "sch_IntervalSeconds (sched_Spec sched) \<le> 4600000000" "now \<noteq> 0"
    and "manual = TriggerNowRequested (mget (meta_Annotations (sched_Metadata sched)) AnnotationSnapshotScheduleTriggerNow)
           (sst_LastHandledTriggerTime (sched_Status sched))"
    and "run_schedule api sched now manual machines calls = Some (calls' @ [PatchScheduleStatus ns name status])"
    and "after = sched\<lparr>sched_Status := patched_status (sched_Status sched) status\<rparr>"
  shows "(t < sst_NextRunTime status \<longrightarrow> reconcile_schedule api2 t machines2 after calls2 = Some calls2)
    \<and> (sst_NextRunTime status \<le> t \<and> \<not> sch_Suspend (sched_Spec sched) \<longrightarrow> Due after now t = Some True)"
proof -
  have st: "sst_LastRunTime status = now" "NextRunAfter sched now = Some (sst_NextRunTime status)"
    "sst_LastHandledTriggerTime status = (if manual
       then mget (meta_Annotations (sched_Metadata sched)) AnnotationSnapshotScheduleTriggerNow else [])"
    using assms(5) by (auto simp: run_schedule_def split: prod.splits)
  have same: "sched_Spec after = sched_Spec sched" "sched_Metadata after = sched_Metadata sched"
    "sst_LastRunTime (sched_Status after) = now" using assms(6) st by (auto simp: patched_status_def)
  have handled: "\<not> TriggerNowRequested (mget (meta_Annotations (sched_Metadata after)) AnnotationSnapshotScheduleTriggerNow)
      (sst_LastHandledTriggerTime (sched_Status after))"
    using assms(4,6) st(3) by (auto simp: TriggerNowRequested_def patched_status_def)
  have "JitterOffset after = JitterOffset sched" by (simp only: JitterOffset_def sched_ns_def same)
  then have "NextRunAfter after now = Some (sst_NextRunTime status)" using st(2) by (simp only: NextRunAfter_def same)
  then have due: "Due after now t = Some (sst_NextRunTime status \<le> t)" if "\<not> sch_Suspend (sched_Spec sched)"
    using Due_after_run [of after now "sst_NextRunTime status" t] assms(1-3) same that by simp
  moreover have "Due after now t = Some False" if "sch_Suspend (sched_Spec sched)"
    using that same by (simp add: Due_def)
  ultimately have "\<exists>d. Due after now t = Some d \<and> (d \<longrightarrow> sst_NextRunTime status \<le> t)"
    by (cases "sch_Suspend (sched_Spec sched)") auto
  then have "reconcile_schedule api2 t machines2 after calls2 = Some calls2" if "t < sst_NextRunTime status"
    using that assms(1) same handled by (auto simp: reconcile_schedule_def Let_def)
  then show ?thesis using due by auto
qed


theorem schedule_fires_once_witness:
  "reconcile_schedule sample_api unix_epoch [sample_db]
     (sample_sched\<lparr>sched_Status := patched_status (sched_Status sample_sched)
        \<lparr>sst_LastRunTime = unix_epoch, sst_LastRunSnapshotCount = 0, sst_LastRunError = [],
         sst_NextRunTime = nextSlot (sched_Spec sample_sched) unix_epoch 0, sst_LastHandledTriggerTime = []\<rparr>\<rparr>) [] = Some []"
proof -
  have "run_schedule sample_api sample_sched unix_epoch False [] [] = Some ([] @ [PatchScheduleStatus ''prod'' ''nightly''
      \<lparr>sst_LastRunTime = unix_epoch, sst_LastRunSnapshotCount = 0, sst_LastRunError = [],
       sst_NextRunTime = nextSlot (sched_Spec sample_sched) unix_epoch 0, sst_LastHandledTriggerTime = []\<rparr>])"
    by (simp add: run_schedule_def NextRunAfter_def)
  moreover have "unix_epoch \<noteq> 0" by (simp add: unix_epoch_def duration_defs)
  moreover have "unix_epoch < nextSlot (sched_Spec sample_sched) unix_epoch 0"
    by (rule nextSlot_daily [of "sched_Spec sample_sched" 9000000000000 unix_epoch 0])
      (simp_all add: sample_sched_def sample_spec_def sample_clock)
  ultimately show ?thesis
    using schedule_fires_once [of sample_sched unix_epoch False sample_api "[]" "[]" "[]" "''prod''" "''nightly''" _ _ unix_epoch sample_api "[sample_db]" "[]"]
    by (simp add: TriggerNowRequested_def mget_def)
qed

text \<open>
  The error of an old run is never cleared. A run in which every call succeeds writes an
  empty error; the field is left out of the merge patch, so the stored status keeps the error of
  an earlier run.
\<close>

theorem old_run_error_sticks:
  assumes "\<And>h c. \<exists>xs. api h c = Ok xs"
    and "run_schedule api sched now manual machines calls = Some (calls' @ [PatchScheduleStatus ns name status])"
  shows "sst_LastRunError status = [] \<and> sst_LastRunError (patched_status old status) = sst_LastRunError old"
proof -
  have ok: "\<exists>n' cs'. snapshot_loop api sched now ms (n, None, cs) = (n', None, cs')" for ms n cs
  proof (induction ms arbitrary: n cs)
    case (Cons m ms)
    obtain xs where "api cs (CreateSnapshot (sched_ns sched) (scheduled_snapshot sched m now)) = Ok xs" using assms(1) by blast
    then show ?case using Cons.IH by (simp add: Let_def)
  qed simp
  obtain n' cs' where "snapshot_loop api sched now machines (0, None, calls) = (n', None, cs')" using ok by blast
  then have "sst_LastRunError status = []" using assms(2) by (auto simp: run_schedule_def)
  then show ?thesis by (simp add: patched_status_def)
qed

theorem old_run_error_sticks_witness:
  "sst_LastRunError (patched_status (sched_Status sample_sched) \<lparr>sst_LastRunTime = 5, sst_LastRunSnapshotCount = 1, sst_LastRunError = [],
     sst_NextRunTime = nextSlot (sched_Spec sample_sched) 5 0, sst_LastHandledTriggerTime = []\<rparr>) = ''quota exceeded''"
  using old_run_error_sticks [OF _ sample_run, of "sched_Status sample_sched"] by (simp add: sample_api_def sample_sched_def)

text \<open>
  A jitter of a multiple of \<open>2 ^ 32\<close> seconds, which validation admits below a longer interval,
  makes the controller divide by zero.
\<close>

lemma jitter_divides_by_zero:
  assumes "sch_JitterSeconds (sched_Spec s) = 4294967296" "ref \<noteq> 0" "\<not> sch_Suspend (sched_Spec s)"
  shows "Due s ref now = None"
  using assms by (simp add: Due_def dueAt_def slotted_def JitterOffset_def)

end
