(* ===== verification/Go_Hash.thy ===== *)
theory Go_Hash
  imports Go_Strings
begin

text \<open>
  SHA-256 and SHA-512 as \<open>crypto/sha256\<close> and \<open>crypto/sha512\<close> compute them, on byte strings, and the
  hexadecimal text \<open>%x\<close> gives. The two share everything but the width of a word, the shifts and the
  number of rounds.
\<close>

unbundle bit_operations_syntax

definition rotr :: "nat \<Rightarrow> 'a::len word \<Rightarrow> 'a word" where
  "rotr n x = drop_bit n x OR push_bit (LENGTH('a) - n) x"

fun root_bits :: "nat \<Rightarrow> nat \<Rightarrow> nat \<Rightarrow> nat \<Rightarrow> nat" where
  \<comment> \<open>the integer root of \<open>n\<close>, bit by bit from the top, above what \<open>r\<close> already holds\<close>
  "root_bits k n r 0 = r"
| "root_bits k n r (Suc b) = root_bits k n (if (r + 2 ^ b) ^ k \<le> n then r + 2 ^ b else r) b"

definition frac_root :: "nat \<Rightarrow> nat \<Rightarrow> 'a::len word" where
  \<comment> \<open>the first bits of the fraction of a root, which is where the constants of SHA-2 come from\<close>
  "frac_root k p = word_of_nat (root_bits k (p * 2 ^ (LENGTH('a) * k)) 0 (LENGTH('a) + 8))"

definition small_primes :: "nat list" where
  "small_primes = filter (\<lambda>p. list_all (\<lambda>d. p mod d \<noteq> 0) [2..<p]) [2..<410]"

definition sha_h0 :: "'a::len word list" where "sha_h0 = map (frac_root 2) [2, 3, 5, 7, 11, 13, 17, 19]"

fun be_bytes :: "nat \<Rightarrow> nat \<Rightarrow> nat list" where
  \<comment> \<open>the low bytes of a number, most significant first\<close>
  "be_bytes 0 n = []"
| "be_bytes (Suc k) n = be_bytes k (n div 256) @ [n mod 256]"

definition sha_pad :: "nat \<Rightarrow> nat list \<Rightarrow> nat list" where
  \<comment> \<open>to a multiple of the block size, the length at the end\<close>
  "sha_pad block bs = (let l = length bs; n = block div 8; z = (2 * block - n - 1 - l mod block) mod block
     in bs @ [128] @ replicate z 0 @ be_bytes n (8 * l))"

function be_words :: "nat \<Rightarrow> nat list \<Rightarrow> 'a::len word list" where
  "be_words k bs = (if length bs < k \<or> k = 0 then [] else word_of_nat (foldl (\<lambda>n b. n * 256 + b) 0 (take k bs)) # be_words k (drop k bs))"
  by auto
termination by (relation "measure (length \<circ> snd)") auto

declare be_words.simps [simp del]

record sha_shifts =
  sh_s0 :: "nat \<times> nat \<times> nat"  \<comment> \<open>of the schedule, the last a shift\<close>
  sh_s1 :: "nat \<times> nat \<times> nat"
  sh_e :: "nat \<times> nat \<times> nat"  \<comment> \<open>of a round\<close>
  sh_a :: "nat \<times> nat \<times> nat"

fun mix3 :: "nat \<times> nat \<times> nat \<Rightarrow> 'a::len word \<Rightarrow> 'a word" where
  "mix3 (i, j, k) x = rotr i x XOR rotr j x XOR rotr k x"

fun mix2 :: "nat \<times> nat \<times> nat \<Rightarrow> 'a::len word \<Rightarrow> 'a word" where
  "mix2 (i, j, k) x = rotr i x XOR rotr j x XOR drop_bit k x"

fun sha_schedule :: "sha_shifts \<Rightarrow> nat \<Rightarrow> 'a::len word list \<Rightarrow> 'a word list" where
  \<comment> \<open>extends the message schedule, kept latest word first\<close>
  "sha_schedule sh 0 ws = ws"
| "sha_schedule sh (Suc k) ws = sha_schedule sh k ((ws ! 15 + mix2 (sh_s0 sh) (ws ! 14) + ws ! 6 + mix2 (sh_s1 sh) (ws ! 1)) # ws)"

fun sha_round :: "sha_shifts \<Rightarrow> 'a::len word list \<Rightarrow> 'a word \<times> 'a word \<Rightarrow> 'a word list" where
  "sha_round sh [a, b, c, d, e, f, g, h] (k, w) =
     (let ch = (e AND f) XOR (NOT e AND g);
          t1 = h + mix3 (sh_e sh) e + ch + k + w;
          maj = (a AND b) XOR (a AND c) XOR (b AND c)
      in [t1 + (mix3 (sh_a sh) a + maj), a, b, c, d + t1, e, f, g])"
| "sha_round sh st _ = st"

definition sha_block :: "sha_shifts \<Rightarrow> nat \<Rightarrow> 'a::len word list \<Rightarrow> 'a word list \<Rightarrow> 'a word list" where
  "sha_block sh rounds h ws = map2 (+) h (foldl (sha_round sh) h
     (zip (map (frac_root 3) (take rounds small_primes)) (rev (sha_schedule sh (rounds - 16) (rev ws)))))"

function sha_blocks :: "sha_shifts \<Rightarrow> nat \<Rightarrow> 'a::len word list \<Rightarrow> 'a word list \<Rightarrow> 'a word list" where
  "sha_blocks sh rounds h ws = (if length ws < 16 then h else sha_blocks sh rounds (sha_block sh rounds h (take 16 ws)) (drop 16 ws))"
  by auto
termination by (relation "measure (length \<circ> snd \<circ> snd \<circ> snd)") auto

declare sha_blocks.simps [simp del]

definition Sum256 :: "string \<Rightarrow> nat list" where
  \<comment> \<open>the 32 bytes of the digest\<close>
  "Sum256 s = concat (map (be_bytes 4 \<circ> unat) (sha_blocks \<lparr>sh_s0 = (7, 18, 3), sh_s1 = (17, 19, 10), sh_e = (6, 11, 25), sh_a = (2, 13, 22)\<rparr>
     64 (sha_h0 :: 32 word list) (be_words 4 (sha_pad 64 (map of_char s)))))"

definition Sum512 :: "string \<Rightarrow> nat list" where
  \<comment> \<open>the 64 bytes of the digest\<close>
  "Sum512 s = concat (map (be_bytes 8 \<circ> unat) (sha_blocks \<lparr>sh_s0 = (1, 8, 7), sh_s1 = (19, 61, 6), sh_e = (14, 18, 41), sh_a = (28, 34, 39)\<rparr>
     80 (sha_h0 :: 64 word list) (be_words 8 (sha_pad 128 (map of_char s)))))"

definition hex_char :: "nat \<Rightarrow> char" where
  "hex_char n = (if n < 10 then char_of (48 + n) else char_of (87 + n))"

definition hex :: "nat list \<Rightarrow> string" where
  "hex bs = concat (map (\<lambda>b. [hex_char (b div 16), hex_char (b mod 16)]) bs)"

lemma root_bits_root:
  assumes "r ^ k \<le> n" "n < (r + 2 ^ b) ^ k"
  shows "root_bits k n r b ^ k \<le> n \<and> n < (root_bits k n r b + 1) ^ k"
  using assms
proof (induction b arbitrary: r)
  case (Suc b)
  then show ?case using Suc.IH [of r] Suc.IH [of "r + 2 ^ b"] by (simp add: mult_2 add.assoc)
qed simp

lemma length_be_bytes [simp]: "length (be_bytes k n) = k"
  by (induction k n rule: be_bytes.induct) auto

lemma be_bytes_byte: "b \<in> set (be_bytes k n) \<Longrightarrow> b < 256"
  by (induction k n rule: be_bytes.induct) auto

lemma length_sha_round [simp]: "length (sha_round sh st kw) = length st"
  by (cases "(sh, st, kw)" rule: sha_round.cases) (auto simp: Let_def)

lemma length_sha_rounds [simp]: "length (foldl (sha_round sh) st kws) = length st"
  by (induction kws arbitrary: st) auto

lemma length_sha_block [simp]: "length (sha_block sh rounds h ws) = length h"
  by (simp add: sha_block_def)

lemma length_sha_blocks: "length (sha_blocks sh rounds h ws) = length h"
proof (induction sh rounds h ws rule: sha_blocks.induct)
  case (1 sh rounds h ws)
  then show ?case by (cases "length ws < 16") (simp_all add: sha_blocks.simps [of sh rounds h ws])
qed

lemma length_be_words: "length (concat (map (be_bytes k \<circ> unat) (ws :: 'a::len word list))) = k * length ws"
  by (induction ws) auto

lemma Sum256_bytes: "length (Sum256 s) = 32" "b \<in> set (Sum256 s) \<Longrightarrow> b < 256"
  unfolding Sum256_def by (simp add: length_be_words length_sha_blocks sha_h0_def) (auto dest: be_bytes_byte)

lemma Sum512_bytes: "length (Sum512 s) = 64" "b \<in> set (Sum512 s) \<Longrightarrow> b < 256"
  unfolding Sum512_def by (simp add: length_be_words length_sha_blocks sha_h0_def) (auto dest: be_bytes_byte)

lemma length_hex: "length (hex bs) = 2 * length bs"
  by (induction bs) (auto simp: hex_def)

end
