(* ===== verification/Agent_Migration.thy ===== *)
theory Agent_Migration
  imports Migration_Session Go_Hash Call_Log
begin

text \<open>
  The source side of a live migration, in the node agent (\<open>internal/agent/agent.go\<close>): the steps of
  a migration that starts or runs, its cancellation, and the recovery of one whose commit is in
  doubt.

  The agent talks to the API server, to FluxVM, to the source driver and to the migration server
  of the destination. Its code is a computation in the state monad over the calls made so far;
  what a call answers is a function of those calls, so every interleaving of failures is covered.
\<close>

section \<open>Objects\<close>

record VMNic =
  nic_Bridge :: string
  nic_MAC :: string
  nic_TapName :: string

record Cdrom =
  cd_Name :: string
  cd_Path :: string

record VMRecord =
  vm_IDValue :: string
  vm_UUID :: string
  vm_Name :: string
  vm_Status :: string
  vm_GuestIP :: string
  vm_TapName :: string
  vm_Disk :: string
  vm_Workspace :: string
  vm_VCPUs :: "32 word"
  vm_MemoryMiB :: "64 word"
  vm_MAC :: string
  vm_Extra :: "VMNic list"
  vm_Cdroms :: "Cdrom list"

definition vm_ID :: "VMRecord \<Rightarrow> string" where
  "vm_ID r = (if vm_IDValue r \<noteq> [] then vm_IDValue r else vm_UUID r)"

record SourceOptions =
  opt_Mode :: string
  opt_BandwidthMbps :: nat
  opt_MaxDowntimeMs :: nat
  opt_MultifdChannels :: nat

record SourceRequest =
  sr_Session :: Session
  sr_RuntimeID :: string
  sr_Endpoint :: string
  sr_Options :: SourceOptions

record TransferStatus =
  ts_TransferID :: string
  ts_Phase :: string
  ts_Message :: string
  ts_RAMTransferred :: nat
  ts_RAMRemaining :: nat
  ts_RAMTotal :: nat
  ts_TotalTimeMs :: nat
  ts_DowntimeMs :: nat

datatype TransferErr = TransferUnsupported err | TransferFailed err

fun transfer_msg :: "TransferErr \<Rightarrow> err" where
  "transfer_msg (TransferUnsupported e) = e"
| "transfer_msg (TransferFailed e) = e"

definition UnsupportedSourceStart :: "string \<Rightarrow> TransferErr + TransferStatus" where
  "UnsupportedSourceStart r = (let reason = TrimSpace r;
     reason = (if reason = [] then ''no source migration adapter is configured'' else reason)
   in Inl (TransferUnsupported (ErrUnsupported @ '': '' @ reason)))"

section \<open>Calls and answers\<close>

datatype AgentCall =
    KGetMachine string string
  | KListNodes
  | KMigStatus string string MachineMigrationStatus
  | HookURL string
  | FGet string
  | FLookup string
  | FDelete string
  | FQuiesce string
  | FExport string
  | FConntrack string
  | FResume string
  | PPrepare string Session
  | PCommit string string
  | PAbort string string
  | PHeartbeat string string
  | PDiagnose string string
  | SStart SourceRequest
  | SStatus Session string
  | SAbort Session string

record Answers =
  ans_err :: "AgentCall list \<Rightarrow> AgentCall \<Rightarrow> err option"
  ans_Machine :: "AgentCall list \<Rightarrow> Machine res"
  ans_Nodes :: "AgentCall list \<Rightarrow> Node list res"
  ans_URL :: "AgentCall list \<Rightarrow> string res"
  ans_Get :: "AgentCall list \<Rightarrow> VMRecord res"
  ans_Lookup :: "AgentCall list \<Rightarrow> VMRecord option res"
  ans_Snapshot :: "AgentCall list \<Rightarrow> AgentCall \<Rightarrow> string res"
  ans_Prepare :: "AgentCall list \<Rightarrow> AgentCall \<Rightarrow> PrepareResponse res"
  ans_Transfer :: "AgentCall list \<Rightarrow> AgentCall \<Rightarrow> TransferErr + TransferStatus"
  ans_Diagnose :: "AgentCall list \<Rightarrow> AgentCall \<Rightarrow> DiagnosisResult res"
  ans_Now :: "AgentCall list \<Rightarrow> time"

type_synonym 'a agent_io = "(AgentCall, 'a) io"

definition clock :: "Answers \<Rightarrow> time agent_io" where
  "clock ans = State (\<lambda>h. (ans_Now ans h, h))"

definition perform :: "Answers \<Rightarrow> AgentCall \<Rightarrow> err option agent_io" where
  \<comment> \<open>a call whose answer is only whether it failed\<close>
  "perform ans c = ask (\<lambda>h. ans_err ans h c) c"

record Agent =
  ag_NodeName :: string
  ag_MigrationPeer :: bool
  ag_SourceMigrator :: bool
  ag_MigrationPeerURL :: bool
  ag_MigrationPort :: int

section \<open>Helpers of the agent\<close>

definition patch_status :: "Answers \<Rightarrow> MachineMigration \<Rightarrow> MachineMigrationStatus \<Rightarrow> err option agent_io" where
  "patch_status ans item status = perform ans (KMigStatus (mm_ns item) (mm_name item) status)"

definition blockLiveMigrationWithStatus ::
  "Answers \<Rightarrow> MachineMigration \<Rightarrow> MachineMigrationStatus \<Rightarrow> string \<Rightarrow> err option agent_io" where
  "blockLiveMigrationWithStatus ans item status message =
     patch_status ans item (status\<lparr>ms_Phase := ''Blocked'', ms_Message := message\<rparr>)"

definition blockLiveMigration :: "Answers \<Rightarrow> MachineMigration \<Rightarrow> string \<Rightarrow> err option agent_io" where
  "blockLiveMigration ans item message = blockLiveMigrationWithStatus ans item (mm_Status item) message"

definition migrationSessionID :: "MachineMigration \<Rightarrow> string" where
  "migrationSessionID item =
     (let seed = meta_UID (mm_Metadata item); seed = (if seed = [] then mm_ns item @ ''/'' @ mm_name item else seed)
      in ''kmm-'' @ hex (take 16 (Sum256 seed)))"

fun internal_ip :: "NodeAddress list \<Rightarrow> string" where
  \<comment> \<open>the inner loop of \<open>targetControlURL\<close>, with its \<open>break\<close>\<close>
  "internal_ip [] = []"
| "internal_ip (a # as) =
     (if addr_Type a = ''InternalIP'' \<and> TrimSpace (addr_Address a) \<noteq> [] then TrimSpace (addr_Address a) else internal_ip as)"

fun node_address :: "Node list \<Rightarrow> string \<Rightarrow> string" where
  \<comment> \<open>the outer loop, which stops at the first node of that name\<close>
  "node_address [] name = []"
| "node_address (n # ns) name =
     (if node_name n \<noteq> name then node_address ns name else internal_ip (nst_Addresses (node_Status n)))"

definition JoinHostPort :: "string \<Rightarrow> string \<Rightarrow> string" where
  "JoinHostPort host port = (if CHR '':'' \<in> set host \<or> CHR ''%'' \<in> set host then ''['' @ host @ '']:'' @ port else host @ '':'' @ port)"

definition control_url :: "int \<Rightarrow> string \<Rightarrow> string \<Rightarrow> string res" where
  "control_url configured targetNode address =
     (if address = [] then Err (''target node '' @ Quote targetNode @ '' has no InternalIP for the mTLS migration control plane'')
      else let port = (if configured = 0 then 9443 else configured) in
        if port < 1 \<or> 65535 < port then Err (''invalid migration port '' @ show_int port)
        else Ok (''https://'' @ JoinHostPort address (show_int port)))"

definition targetControlURL :: "Agent \<Rightarrow> Answers \<Rightarrow> string \<Rightarrow> string res agent_io" where
  "targetControlURL ag ans targetNode =
     (if targetNode = [] then State_Monad.return (Err ''migration target node is empty'')
      else do {
        nodes \<leftarrow> ask (ans_Nodes ans) KListNodes;
        State_Monad.return (case nodes of
          Inl e \<Rightarrow> Err e
        | Inr ns \<Rightarrow> control_url (ag_MigrationPort ag) targetNode (node_address ns targetNode))
      })"

definition peer_url :: "Agent \<Rightarrow> Answers \<Rightarrow> string \<Rightarrow> string res agent_io" where
  \<comment> \<open>the hook when it is set, else \<open>targetControlURL\<close>\<close>
  "peer_url ag ans targetNode =
     (if ag_MigrationPeerURL ag then ask (ans_URL ans) (HookURL targetNode) else targetControlURL ag ans targetNode)"

definition current :: "Answers \<Rightarrow> Machine \<Rightarrow> VMRecord option res agent_io" where
  "current ans m = (let lookup = ask (ans_Lookup ans) (FLookup (RuntimeName m)) in
     if st_RuntimeID (mach_Status m) \<noteq> [] then do {
       r \<leftarrow> ask (ans_Get ans) (FGet (st_RuntimeID (mach_Status m)));
       (case r of Inr rec \<Rightarrow> State_Monad.return (Ok (Some rec)) | Inl _ \<Rightarrow> lookup)
     } else lookup)"

definition edgeRequested :: "Machine \<Rightarrow> bool" where
  "edgeRequested m = (let n = spec_Network (mach_Spec m) in
     if net_AntiSpoof n \<or> net_LearnIP n \<or> net_QoS n \<noteq> None then True else EqualFold (net_DataplaneMode n) ''ebpf'')"

definition exportConntrackSnapshot :: "Answers \<Rightarrow> Machine \<Rightarrow> string \<Rightarrow> string agent_io" where
  \<comment> \<open>the answer is the encoded snapshot, stamped with the identity of the Machine; every failure
      leaves it empty\<close>
  "exportConntrackSnapshot ans m runtimeID =
     (if \<not> edgeRequested m \<or> runtimeID = [] then State_Monad.return []
      else do {
        r \<leftarrow> ask (\<lambda>h. ans_Snapshot ans h (FConntrack runtimeID)) (FConntrack runtimeID);
        State_Monad.return (case r of Inl _ \<Rightarrow> [] | Inr snap \<Rightarrow> snap)
      })"

definition resumeSourceNetworkQuiesce :: "Answers \<Rightarrow> string \<Rightarrow> unit agent_io" where
  "resumeSourceNetworkQuiesce ans runtimeID =
     (if runtimeID = [] then State_Monad.return () else do { _ \<leftarrow> perform ans (FResume runtimeID); State_Monad.return () })"


section \<open>The transfer\<close>

definition transfer_status :: "MachineMigrationStatus \<Rightarrow> TransferStatus \<Rightarrow> MachineMigrationStatus" where
  \<comment> \<open>the progress \<open>projectTransfer\<close> copies into the status\<close>
  "transfer_status status t = status\<lparr>ms_TransferPhase := ToLower (TrimSpace (ts_Phase t)),
     ms_RAMTransferred := ts_RAMTransferred t, ms_RAMRemaining := ts_RAMRemaining t, ms_RAMTotal := ts_RAMTotal t,
     ms_TotalTimeMs := ts_TotalTimeMs t, ms_DowntimeMs := ts_DowntimeMs t,
     ms_TransferID := (if ts_TransferID t \<noteq> [] then ts_TransferID t else ms_TransferID status)\<rparr>"

definition projectTransfer ::
  "Answers \<Rightarrow> MachineMigration \<Rightarrow> MachineMigrationStatus \<Rightarrow> Session \<Rightarrow> string \<Rightarrow> TransferStatus \<Rightarrow> err option agent_io" where
  "projectTransfer ans item status session targetURL t =
     (let phase = ToLower (TrimSpace (ts_Phase t)); status = transfer_status status t in
      if phase \<in> {''completed'', ''transferred''} then do {
        e \<leftarrow> perform ans (PCommit targetURL (ses_ID session));
        patch_status ans item (case e of
          Some e \<Rightarrow> status\<lparr>ms_Phase := ''NeedsRecovery'', ms_Message :=
            ''source transfer completed but target commit failed; automatic cutover is stopped to avoid split brain: '' @ e\<rparr>
        | None \<Rightarrow> status\<lparr>ms_Phase := ''Cutover'',
            ms_Message := ''source transfer completed and target committed; waiting for guarded target adoption''\<rparr>)
      }
      else if phase \<in> {''failed'', ''cancelled'', ''canceled'', ''aborted''} then do {
        _ \<leftarrow> perform ans (PAbort targetURL (ses_ID session));
        _ \<leftarrow> resumeSourceNetworkQuiesce ans (ses_RuntimeID session);
        patch_status ans item (status\<lparr>ms_Phase := ''Failed'', ms_Message :=
          (if ts_Message t = [] then ''source transfer '' @ phase @ ''; prepared target aborted'' else ts_Message t)\<rparr>)
      }
      else patch_status ans item (status\<lparr>ms_Phase := ''Running'', ms_Message := ''live migration transfer in progress''\<rparr>))"

definition live_session :: "MachineMigration \<Rightarrow> VMRecord \<Rightarrow> Session" where
  "live_session item rec =
     \<lparr>ses_ID = migrationSessionID item, ses_Namespace = mm_ns item, ses_Machine = mig_MachineName (mm_Spec item),
      ses_SourceNode = ms_SourceNode (mm_Status item), ses_TargetNode = ms_TargetNode (mm_Status item),
      ses_RuntimeID = vm_ID rec, ses_Phase = [], ses_Backend = [], ses_Endpoint = [], ses_TransferSupported = False,
      ses_Reason = [], ses_TransferID = [], ses_DataPlaneEncrypted = False, ses_NetworkSnapshot = [], ses_ConntrackSnapshot = [],
      ses_DiskPath = vm_Disk rec, ses_MAC = vm_MAC rec, ses_VCPUs = vm_VCPUs rec, ses_MemoryMiB = vm_MemoryMiB rec,
      ses_MigrationNetwork = mig_MigrationNetwork (mm_Spec item), ses_CreatedAt = 0, ses_UpdatedAt = 0\<rparr>"

definition export_snapshots :: "Answers \<Rightarrow> Machine \<Rightarrow> Session \<Rightarrow> string \<Rightarrow> Session agent_io" where
  \<comment> \<open>quiesces the source network and takes its snapshots, each of them best effort\<close>
  "export_snapshots ans m session runtimeID = do {
     q \<leftarrow> perform ans (FQuiesce runtimeID);
     session \<leftarrow> (if q \<noteq> None then State_Monad.return session
       else do {
         r \<leftarrow> ask (\<lambda>h. ans_Snapshot ans h (FExport runtimeID)) (FExport runtimeID);
         State_Monad.return (case r of Inl _ \<Rightarrow> session | Inr snap \<Rightarrow> session\<lparr>ses_NetworkSnapshot := snap\<rparr>)
       });
     ct \<leftarrow> exportConntrackSnapshot ans m runtimeID;
     State_Monad.return (session\<lparr>ses_ConntrackSnapshot := ct\<rparr>)
   }"

definition source_request :: "MachineMigration \<Rightarrow> Session \<Rightarrow> string \<Rightarrow> string \<Rightarrow> string \<Rightarrow> SourceRequest" where
  "source_request item session runtimeID endpoint mode =
     \<lparr>sr_Session = session, sr_RuntimeID = runtimeID, sr_Endpoint = endpoint,
      sr_Options = \<lparr>opt_Mode = mode, opt_BandwidthMbps = mig_BandwidthMbps (mm_Spec item),
        opt_MaxDowntimeMs = mig_MaxDowntimeMs (mm_Spec item), opt_MultifdChannels = mig_MultifdChannels (mm_Spec item)\<rparr>\<rparr>"

definition start_transfer ::
  "Answers \<Rightarrow> MachineMigration \<Rightarrow> MachineMigrationStatus \<Rightarrow> Session \<Rightarrow> string \<Rightarrow> PrepareResponse \<Rightarrow> string \<Rightarrow> err option agent_io" where
  \<comment> \<open>from a target that is prepared on: the mode, the start of the source driver, the first progress\<close>
  "start_transfer ans item status session targetURL prepared runtimeID =
     (let mode = (if mig_Mode (mm_Spec item) = [] then ''pre-copy'' else mig_Mode (mm_Spec item));
          request = source_request item session runtimeID (resp_Endpoint prepared) mode;
          undo = do { _ \<leftarrow> perform ans (PAbort targetURL (ses_ID session)); resumeSourceNetworkQuiesce ans runtimeID } in
      if mode \<noteq> ''pre-copy'' \<and> mode \<noteq> ''post-copy'' then do {
        _ \<leftarrow> undo;
        State_Monad.return (Some (''unsupported migration mode '' @ Quote mode))
      }
      else do {
        t \<leftarrow> ask (\<lambda>h. ans_Transfer ans h (SStart request)) (SStart request);
        (case t of
           Inl (TransferUnsupported e) \<Rightarrow> do {
             _ \<leftarrow> undo;
             blockLiveMigrationWithStatus ans item status (e @ ''; prepared target was aborted and source runtime was left untouched'')
           }
         | Inl (TransferFailed e) \<Rightarrow> do {
             _ \<leftarrow> undo;
             patch_status ans item (status\<lparr>ms_Phase := ''Failed'', ms_TransferPhase := ''start-failed'',
               ms_Message := ''start source transfer failed; prepared target was aborted: '' @ e\<rparr>)
           }
         | Inr t \<Rightarrow> projectTransfer ans item (status\<lparr>ms_TransferID := ts_TransferID t\<rparr>) session targetURL t)
      })"

definition prepared_status :: "MachineMigrationStatus \<Rightarrow> PrepareResponse \<Rightarrow> string \<Rightarrow> MachineMigrationStatus" where
  "prepared_status status p runtimeID = status\<lparr>ms_SessionID := resp_SessionID p, ms_RuntimeID := runtimeID,
     ms_Backend := resp_Backend p, ms_TransferPhase := resp_Phase p, ms_DataPlaneEncrypted := resp_DataPlaneEncrypted p\<rparr>"

definition begin_migration ::
  "Answers \<Rightarrow> MachineMigration \<Rightarrow> Machine \<Rightarrow> Session \<Rightarrow> string \<Rightarrow> string \<Rightarrow> err option agent_io" where
  \<comment> \<open>the branch of phase \<open>Starting\<close>\<close>
  "begin_migration ans item m session targetURL runtimeID = do {
     session \<leftarrow> export_snapshots ans m session runtimeID;
     p \<leftarrow> ask (\<lambda>h. ans_Prepare ans h (PPrepare targetURL session)) (PPrepare targetURL session);
     (case p of
        Inl e \<Rightarrow> State_Monad.return (Some (''prepare target '' @ ms_TargetNode (mm_Status item) @ '': '' @ e))
      | Inr prepared \<Rightarrow>
          let status = prepared_status (mm_Status item) prepared runtimeID in
          if \<not> resp_TransferSupported prepared then do {
            _ \<leftarrow> resumeSourceNetworkQuiesce ans runtimeID;
            blockLiveMigrationWithStatus ans item status
              ((if resp_Reason prepared = [] then ''target node has no live migration backend'' else resp_Reason prepared)
               @ ''; source runtime was left untouched'')
          }
          else start_transfer ans item status session targetURL prepared runtimeID)
   }"

definition poll_migration ::
  "Answers \<Rightarrow> MachineMigration \<Rightarrow> Session \<Rightarrow> string \<Rightarrow> err option agent_io" where
  \<comment> \<open>the branch of phase \<open>Running\<close>\<close>
  "poll_migration ans item session targetURL =
     (let status = mm_Status item; poll = SStatus session (ms_TransferID status) in
      if ms_SessionID status = [] \<or> ms_TransferID status = []
      then State_Monad.return (Some ''running migration is missing sessionID or transferID'')
      else do {
        t \<leftarrow> ask (\<lambda>h. ans_Transfer ans h poll) poll;
        (case t of
           Inl e \<Rightarrow> State_Monad.return (Some (''poll source transfer: '' @ transfer_msg e))
         | Inr t \<Rightarrow> do {
             _ \<leftarrow> perform ans (PHeartbeat targetURL (ses_ID session));
             projectTransfer ans item status session targetURL t
           })
      })"


section \<open>Cancellation\<close>

definition Session0 :: Session where
  "Session0 =
     \<lparr>ses_ID = [], ses_Namespace = [], ses_Machine = [], ses_SourceNode = [], ses_TargetNode = [], ses_RuntimeID = [],
      ses_Phase = [], ses_Backend = [], ses_Endpoint = [], ses_TransferSupported = False, ses_Reason = [], ses_TransferID = [],
      ses_DataPlaneEncrypted = False, ses_NetworkSnapshot = [], ses_ConntrackSnapshot = [], ses_DiskPath = [], ses_MAC = [],
      ses_VCPUs = 0, ses_MemoryMiB = 0, ses_MigrationNetwork = [], ses_CreatedAt = 0, ses_UpdatedAt = 0\<rparr>"

definition cancelled_status :: "MachineMigrationStatus \<Rightarrow> MachineMigrationStatus" where
  "cancelled_status status = status\<lparr>ms_Phase := ''Cancelled'', ms_Message :=
     ''operator requested cancel (spec.cancel); in-flight live migration aborted before target commit, source runtime was left untouched''\<rparr>"

definition cancelLiveMigration :: "Agent \<Rightarrow> Answers \<Rightarrow> MachineMigration \<Rightarrow> err option agent_io" where
  "cancelLiveMigration ag ans item =
     (let status = mm_Status item;
          sessionID = (if ms_SessionID status = [] then migrationSessionID item else ms_SessionID status) in do {
      _ \<leftarrow> (if ag_SourceMigrator ag \<and> ms_TransferID status \<noteq> []
        then perform ans (SAbort (Session0\<lparr>ses_ID := sessionID\<rparr>) (ms_TransferID status)) else State_Monad.return None);
      _ \<leftarrow> (if ag_MigrationPeer ag \<and> ms_SessionID status \<noteq> [] then do {
          u \<leftarrow> peer_url ag ans (ms_TargetNode status);
          (case u of Inl _ \<Rightarrow> State_Monad.return None | Inr url \<Rightarrow> perform ans (PAbort url (ms_SessionID status)))
        } else State_Monad.return None);
      _ \<leftarrow> resumeSourceNetworkQuiesce ans (ms_RuntimeID status);
      patch_status ans item (cancelled_status status)
    })"

section \<open>Recovery\<close>

definition RecoveryStatus0 :: MachineMigrationRecoveryStatus where
  "RecoveryStatus0 = \<lparr>rec_SourceRuntimeStatus = [], rec_DestinationSessionPhase = [], rec_DestinationRuntimeStatus = [],
     rec_DestinationRuntimeFound = False, rec_DiagnosedAt = None, rec_AppliedAction = [], rec_AppliedReason = [],
     rec_AppliedAcknowledgedDiagnosis = [], rec_AppliedAt = None\<rparr>"

definition diagnose :: "Answers \<Rightarrow> MachineMigrationStatus \<Rightarrow> string \<Rightarrow> MachineMigrationRecoveryStatus agent_io" where
  \<comment> \<open>what is known of both runtimes, each lookup best effort\<close>
  "diagnose ans status targetURL = do {
     now \<leftarrow> clock ans;
     let recovery = (case ms_Recovery status of None \<Rightarrow> RecoveryStatus0 | Some r \<Rightarrow> r)\<lparr>rec_DiagnosedAt := Some now\<rparr>;
     recovery \<leftarrow> (if ms_RuntimeID status = [] then State_Monad.return recovery
       else do {
         r \<leftarrow> ask (ans_Get ans) (FGet (ms_RuntimeID status));
         State_Monad.return (recovery\<lparr>rec_SourceRuntimeStatus := (case r of Inl _ \<Rightarrow> [] | Inr vm \<Rightarrow> vm_Status vm)\<rparr>)
       });
     (if ms_SessionID status = [] then State_Monad.return recovery
      else do {
        d \<leftarrow> ask (\<lambda>h. ans_Diagnose ans h (PDiagnose targetURL (ms_SessionID status))) (PDiagnose targetURL (ms_SessionID status));
        State_Monad.return (case d of
          Inl _ \<Rightarrow> recovery
        | Inr diag \<Rightarrow> recovery\<lparr>rec_DestinationSessionPhase := diag_SessionPhase diag,
            rec_DestinationRuntimeFound := diag_DestinationRuntimeFound diag,
            rec_DestinationRuntimeStatus := diag_DestinationRuntimeStatus diag\<rparr>)
      })
   }"

definition ConfirmDestinationCommitted :: string where "ConfirmDestinationCommitted = ''ConfirmDestinationCommitted''"
definition ConfirmDestinationNotCommitted :: string where "ConfirmDestinationNotCommitted = ''ConfirmDestinationNotCommitted''"
definition ForceAbort :: string where "ForceAbort = ''ForceAbort''"
definition DestinationCommitted :: string where "DestinationCommitted = ''DestinationCommitted''"
definition DestinationNotCommitted :: string where "DestinationNotCommitted = ''DestinationNotCommitted''"

definition diagnosisMatches :: smap where
  "diagnosisMatches = [(ConfirmDestinationCommitted, DestinationCommitted), (ConfirmDestinationNotCommitted, DestinationNotCommitted)]"

definition recovery_refusal :: "MachineMigrationRecoverySpec \<Rightarrow> string option" where
  \<comment> \<open>why the requested action is not taken\<close>
  "recovery_refusal action =
     (if TrimSpace (rs_Reason action) = [] then
        Some ''spec.recovery.reason is required -- refusing to act without the operator's attested evidence''
      else case map_of diagnosisMatches (rs_Action action) of
        Some want \<Rightarrow> if rs_AcknowledgedDiagnosis action \<noteq> want then
            Some (''spec.recovery.acknowledgedDiagnosis ('' @ rs_AcknowledgedDiagnosis action @ '') does not match spec.recovery.action (''
              @ rs_Action action @ ''); refusing to act -- update spec.recovery to match what you actually observed'')
          else None
      | None \<Rightarrow> if rs_Action action \<noteq> ForceAbort then Some (''unknown spec.recovery.action '' @ Quote (rs_Action action)) else None)"

definition remove_source :: "Answers \<Rightarrow> MachineMigrationStatus \<Rightarrow> unit agent_io" where
  "remove_source ans status =
     (if ms_RuntimeID status = [] then State_Monad.return ()
      else do { _ \<leftarrow> perform ans (FDelete (ms_RuntimeID status)); State_Monad.return () })"

definition apply_recovery :: "Answers \<Rightarrow> MachineMigrationRecoverySpec \<Rightarrow> MachineMigrationStatus \<Rightarrow> string \<Rightarrow> MachineMigrationStatus agent_io" where
  "apply_recovery ans action status targetURL =
     (if rs_Action action = ConfirmDestinationCommitted then do {
        _ \<leftarrow> perform ans (PCommit targetURL (ms_SessionID status));
        _ \<leftarrow> remove_source ans status;
        State_Monad.return (status\<lparr>ms_Phase := ''Cutover'', ms_Message :=
          ''recovery: operator confirmed destination committed; source runtime removed, handing off to normal cutover''\<rparr>)
      }
      else if rs_Action action = ConfirmDestinationNotCommitted then do {
        e \<leftarrow> perform ans (PCommit targetURL (ms_SessionID status));
        (case e of
           Some e \<Rightarrow> do {
             _ \<leftarrow> perform ans (PAbort targetURL (ms_SessionID status));
             State_Monad.return (status\<lparr>ms_Phase := ''Failed'', ms_Message :=
               ''recovery: retried commit failed, confirming destination never committed: '' @ e
               @ ''; host-level inspection is required before reusing this Machine''\<rparr>)
           }
         | None \<Rightarrow> do {
             _ \<leftarrow> remove_source ans status;
             State_Monad.return (status\<lparr>ms_Phase := ''Cutover'', ms_Message :=
               ''recovery: retried commit succeeded; source runtime removed, handing off to normal cutover''\<rparr>)
           })
      }
      else if rs_Action action = ForceAbort then do {
        _ \<leftarrow> perform ans (PAbort targetURL (ms_SessionID status));
        State_Monad.return (status\<lparr>ms_Phase := ''Failed'', ms_Message :=
          ''recovery: operator forced abort; source runtime was left untouched -- verify its state before reuse''\<rparr>)
      }
      else State_Monad.return status)"

definition act_on_recovery ::
  "Answers \<Rightarrow> MachineMigration \<Rightarrow> MachineMigrationRecoverySpec \<Rightarrow> MachineMigrationRecoveryStatus \<Rightarrow> string \<Rightarrow> err option agent_io" where
  "act_on_recovery ans item action recovery targetURL = do {
     appliedAt \<leftarrow> clock ans;
     status \<leftarrow> apply_recovery ans action
       ((mm_Status item)\<lparr>ms_Recovery := Some (recovery\<lparr>rec_AppliedAction := rs_Action action, rec_AppliedReason := rs_Reason action,
          rec_AppliedAcknowledgedDiagnosis := rs_AcknowledgedDiagnosis action, rec_AppliedAt := Some appliedAt\<rparr>)\<rparr>) targetURL;
     patch_status ans item status
   }"

definition resolve_recovery :: "Answers \<Rightarrow> MachineMigration \<Rightarrow> string \<Rightarrow> err option agent_io" where
  \<comment> \<open>from the URL of the destination on\<close>
  "resolve_recovery ans item targetURL = do {
     recovery \<leftarrow> diagnose ans (mm_Status item) targetURL;
     (case mig_Recovery (mm_Spec item) of
        None \<Rightarrow> patch_status ans item ((mm_Status item)\<lparr>ms_Recovery := Some recovery\<rparr>)
      | Some action \<Rightarrow>
          (case recovery_refusal action of
             Some message \<Rightarrow> patch_status ans item ((mm_Status item)\<lparr>ms_Recovery := Some recovery, ms_Message := message\<rparr>)
           | None \<Rightarrow> act_on_recovery ans item action recovery targetURL))
   }"

definition reconcileNeedsRecovery :: "Agent \<Rightarrow> Answers \<Rightarrow> MachineMigration \<Rightarrow> err option agent_io" where
  "reconcileNeedsRecovery ag ans item =
     (if \<not> ag_MigrationPeer ag then
        State_Monad.return (Some ''secure migration control plane is not configured; cannot diagnose NeedsRecovery'')
      else do {
        u \<leftarrow> peer_url ag ans (ms_TargetNode (mm_Status item));
        (case u of Inl e \<Rightarrow> State_Monad.return (Some e) | Inr targetURL \<Rightarrow> resolve_recovery ans item targetURL)
      })"

section \<open>One migration, and the loop over them\<close>

definition source_refusal :: "Agent \<Rightarrow> Machine \<Rightarrow> err option" where
  "source_refusal ag m =
     (let backend = rt_Backend (spec_Runtime (mach_Spec m)) in
      if m_node m \<noteq> ag_NodeName ag then Some (''source Machine is assigned to '' @ m_node m @ '', not '' @ ag_NodeName ag)
      else if backend \<noteq> [] \<and> backend \<noteq> ''auto'' \<and> backend \<noteq> ''qemu''
      then Some (''live migration currently requires qemu backend, Machine requests '' @ backend)
      else None)"

definition continue_migration :: "Agent \<Rightarrow> Answers \<Rightarrow> MachineMigration \<Rightarrow> Machine \<Rightarrow> err option agent_io" where
  \<comment> \<open>from a Machine that may be migrated on\<close>
  "continue_migration ag ans item m = do {
     r \<leftarrow> current ans m;
     (case r of
        Inl e \<Rightarrow> State_Monad.return (Some e)
      | Inr None \<Rightarrow> State_Monad.return (Some ''source FluxVM runtime not found'')
      | Inr (Some rec) \<Rightarrow>
          if vm_ID rec = [] then State_Monad.return (Some ''source FluxVM runtime not found'')
          else do {
            u \<leftarrow> peer_url ag ans (ms_TargetNode (mm_Status item));
            (case u of
               Inl e \<Rightarrow> State_Monad.return (Some e)
             | Inr targetURL \<Rightarrow>
                 if mm_phase item = ''Starting'' then begin_migration ans item m (live_session item rec) targetURL (vm_ID rec)
                 else poll_migration ans item (live_session item rec) targetURL)
          })
   }"

definition agent_reconcileMigration :: "Agent \<Rightarrow> Answers \<Rightarrow> MachineMigration \<Rightarrow> err option agent_io" where
  "agent_reconcileMigration ag ans item =
     (let phase = mm_phase item in
      if phase = ''NeedsRecovery'' then reconcileNeedsRecovery ag ans item
      else if phase \<noteq> ''Starting'' \<and> phase \<noteq> ''Running'' then State_Monad.return None
      else if ms_EffectiveStrategy (mm_Status item) \<noteq> ''live'' then State_Monad.return None
      else if mig_Cancel (mm_Spec item) then cancelLiveMigration ag ans item
      else do {
        g \<leftarrow> ask (ans_Machine ans) (KGetMachine (mm_ns item) (mig_MachineName (mm_Spec item)));
        (case g of
           Inl e \<Rightarrow> State_Monad.return (Some e)
         | Inr m \<Rightarrow>
             (case source_refusal ag m of
                Some e \<Rightarrow> State_Monad.return (Some e)
              | None \<Rightarrow>
                  if \<not> ag_MigrationPeer ag \<or> \<not> ag_SourceMigrator ag then
                    blockLiveMigration ans item
                      ''secure migration control plane or source adapter is not configured; source runtime was left untouched''
                  else continue_migration ag ans item m))
      })"

fun agent_migrations :: "Agent \<Rightarrow> Answers \<Rightarrow> MachineMigration list \<Rightarrow> unit agent_io" where
  \<comment> \<open>the loop of \<open>Reconcile\<close> over the migrations whose source label names this node\<close>
  "agent_migrations ag ans [] = State_Monad.return ()"
| "agent_migrations ag ans (item # items) =
     (if ms_SourceNode (mm_Status item) \<noteq> ag_NodeName ag then agent_migrations ag ans items
      else do {
        e \<leftarrow> agent_reconcileMigration ag ans item;
        _ \<leftarrow> (case e of None \<Rightarrow> State_Monad.return None
          | Some e \<Rightarrow> patch_status ans item ((mm_Status item)\<lparr>ms_Phase := ''Failed'', ms_Message := e\<rparr>));
        agent_migrations ag ans items
      })"


section \<open>Reasoning about calls\<close>

text \<open>
  Two judgements on a computation: every call it makes is of a kind, and a call of another kind
  is made last and only under a condition on what came before.
\<close>

lemma only_calls_perform [call_intros]: "ok c \<Longrightarrow> only_calls ok (perform ans c)"
  by (simp add: perform_def only_calls_ask)

lemma only_calls_clock [call_intros]: "only_calls ok (clock ans)"
  by (simp add: only_calls_def clock_def)

lemma last_call_perform [call_intros]: "ok c \<Longrightarrow> last_call ok Q (perform ans c)"
  by (rule only_calls_last [OF only_calls_perform])

lemma last_call_perform_if:
  \<comment> \<open>a call followed by a status that depends on its answer\<close>
  assumes "ok c" "\<And>h. ans_err ans h c = None \<Longrightarrow> \<not> ok (d None) \<Longrightarrow> Q (h @ [c]) (d None)"
    and "\<And>e. ok (d (Some e))"
  shows "last_call ok Q (State_Monad.bind (perform ans c) (\<lambda>e. perform ans (d e)))"
  unfolding last_call_def
proof
  fix h
  let ?e = "ans_err ans h c"
  have "run_state (State_Monad.bind (perform ans c) (\<lambda>e. perform ans (d e))) h = (ans_err ans (h @ [c]) (d ?e), h @ [c, d ?e])"
    by (simp add: State_Monad.bind_def perform_def ask_def)
  moreover have "ends_in ok Q h ([c] @ [d ?e])"
    using assms by (cases ?e; cases "ok (d None)") (auto simp: ends_in_def intro!: exI [of _ "[c]"])
  ultimately show "\<exists>r cs. run_state (State_Monad.bind (perform ans c) (\<lambda>e. perform ans (d e))) h = (r, h @ cs) \<and> ends_in ok Q h cs"
    by auto
qed

fun cuts_over :: "AgentCall \<Rightarrow> bool" where
  "cuts_over (KMigStatus ns name st) = (ms_Phase st = ''Cutover'')"
| "cuts_over _ = False"

fun deletes_source :: "AgentCall \<Rightarrow> bool" where
  "deletes_source (FDelete rid) = True"
| "deletes_source _ = False"

fun plain :: "AgentCall \<Rightarrow> bool" where
  "plain (KMigStatus ns name st) = False"
| "plain (FDelete rid) = False"
| "plain _ = True"

definition committed :: "Answers \<Rightarrow> string \<Rightarrow> AgentCall list \<Rightarrow> bool" where
  \<comment> \<open>the last call of a history committed the session at the destination\<close>
  "committed ans sid h \<longleftrightarrow> (\<exists>h' url. h = h' @ [PCommit url sid] \<and> ans_err ans h' (PCommit url sid) = None)"

lemma plain_calls: "plain c \<Longrightarrow> \<not> cuts_over c" "plain c \<Longrightarrow> \<not> deletes_source c"
  by (cases c; simp)+

lemma helper_calls:
  "only_calls plain (targetControlURL ag ans targetNode)"
  "only_calls plain (peer_url ag ans targetNode)"
  "only_calls plain (current ans m)"
  "only_calls plain (exportConntrackSnapshot ans m rid)"
  "only_calls plain (resumeSourceNetworkQuiesce ans rid)"
  "only_calls plain (export_snapshots ans m session rid)"
  "only_calls plain (diagnose ans status url)"
  unfolding peer_url_def targetControlURL_def current_def exportConntrackSnapshot_def resumeSourceNetworkQuiesce_def
    export_snapshots_def diagnose_def Let_def
  by (auto intro!: call_intros split: sum.split)

lemmas quiet_helpers [call_intros] =
  helper_calls [THEN only_calls_mono, OF plain_calls(1)] helper_calls [THEN only_calls_mono, OF plain_calls(2)]

lemma patch_status_calls [call_intros]:
  "ok (KMigStatus (mm_ns item) (mm_name item) status) \<Longrightarrow> only_calls ok (patch_status ans item status)"
  by (simp add: patch_status_def call_intros)

lemma block_calls [call_intros]:
  "ok (KMigStatus (mm_ns item) (mm_name item) (status\<lparr>ms_Phase := ''Blocked'', ms_Message := msg\<rparr>))
     \<Longrightarrow> only_calls ok (blockLiveMigrationWithStatus ans item status msg)"
  by (simp add: blockLiveMigrationWithStatus_def call_intros)

lemmas last_leaves [call_intros] = patch_status_calls [THEN only_calls_last] block_calls [THEN only_calls_last]

lemma projectTransfer_cutover [call_intros]:
  "last_call (\<lambda>c. \<not> cuts_over c) (\<lambda>h c. committed ans (ses_ID session) h) (projectTransfer ans item status session url t)"
proof -
  let ?st = "transfer_status status t"
  let ?d = "\<lambda>e. KMigStatus (mm_ns item) (mm_name item) (case e of
          Some e \<Rightarrow> ?st\<lparr>ms_Phase := ''NeedsRecovery'', ms_Message :=
            ''source transfer completed but target commit failed; automatic cutover is stopped to avoid split brain: '' @ e\<rparr>
        | None \<Rightarrow> ?st\<lparr>ms_Phase := ''Cutover'',
            ms_Message := ''source transfer completed and target committed; waiting for guarded target adoption''\<rparr>)"
  have "last_call (\<lambda>c. \<not> cuts_over c) (\<lambda>h c. committed ans (ses_ID session) h)
      (State_Monad.bind (perform ans (PCommit url (ses_ID session))) (\<lambda>e. perform ans (?d e)))"
    by (rule last_call_perform_if) (auto simp: committed_def)
  then show ?thesis unfolding projectTransfer_def Let_def patch_status_def
    by (auto intro!: call_intros)
qed

lemma projectTransfer_keeps_source [call_intros]:
  "only_calls (\<lambda>c. \<not> deletes_source c) (projectTransfer ans item status session url t)"
  unfolding projectTransfer_def Let_def by (auto intro!: call_intros)


lemma start_transfer_cutover [call_intros]:
  "last_call (\<lambda>c. \<not> cuts_over c) (\<lambda>h c. committed ans (ses_ID session) h) (start_transfer ans item status session url prepared rid)"
  unfolding start_transfer_def Let_def by (auto intro!: call_intros split: sum.split TransferErr.split)

lemma start_transfer_keeps_source [call_intros]:
  "only_calls (\<lambda>c. \<not> deletes_source c) (start_transfer ans item status session url prepared rid)"
  unfolding start_transfer_def Let_def by (auto intro!: call_intros split: sum.split TransferErr.split)

lemma poll_migration_cutover [call_intros]:
  "last_call (\<lambda>c. \<not> cuts_over c) (\<lambda>h c. committed ans (ses_ID session) h) (poll_migration ans item session url)"
  unfolding poll_migration_def Let_def by (auto intro!: call_intros split: sum.split)

lemma poll_migration_keeps_source [call_intros]:
  "only_calls (\<lambda>c. \<not> deletes_source c) (poll_migration ans item session url)"
  unfolding poll_migration_def Let_def by (auto intro!: call_intros split: sum.split)


lemma export_snapshots_ID:
  "run_state (export_snapshots ans m session rid) h = (session', h') \<Longrightarrow> ses_ID session' = ses_ID session"
  by (auto simp: export_snapshots_def exportConntrackSnapshot_def perform_def ask_def State_Monad.bind_def State_Monad.return_def
      split: if_splits sum.splits prod.splits)

lemma begin_migration_cutover [call_intros]:
  "last_call (\<lambda>c. \<not> cuts_over c) (\<lambda>h c. committed ans (ses_ID session) h) (begin_migration ans item m session url rid)"
  unfolding begin_migration_def Let_def
proof (rule last_call_bind_result)
  show "only_calls (\<lambda>c. \<not> cuts_over c) (export_snapshots ans m session rid)" by (rule quiet_helpers)
next
  fix h s' h'
  assume "run_state (export_snapshots ans m session rid) h = (s', h')"
  then have same: "ses_ID session = ses_ID s'" using export_snapshots_ID by metis
  show "last_call (\<lambda>c. \<not> cuts_over c) (\<lambda>h c. committed ans (ses_ID session) h)
     (State_Monad.bind (ask (\<lambda>h. ans_Prepare ans h (PPrepare url s')) (PPrepare url s')) (\<lambda>p. case p of
        Inl e \<Rightarrow> State_Monad.return (Some (''prepare target '' @ ms_TargetNode (mm_Status item) @ '': '' @ e))
      | Inr prepared \<Rightarrow>
          if \<not> resp_TransferSupported prepared then State_Monad.bind (resumeSourceNetworkQuiesce ans rid) (\<lambda>_.
            blockLiveMigrationWithStatus ans item (prepared_status (mm_Status item) prepared rid)
              ((if resp_Reason prepared = [] then ''target node has no live migration backend'' else resp_Reason prepared)
               @ ''; source runtime was left untouched''))
          else start_transfer ans item (prepared_status (mm_Status item) prepared rid) s' url prepared rid))"
    unfolding same by (auto intro!: call_intros split: sum.split)
qed

lemma begin_migration_keeps_source [call_intros]:
  "only_calls (\<lambda>c. \<not> deletes_source c) (begin_migration ans item m session url rid)"
  unfolding begin_migration_def Let_def by (auto intro!: call_intros split: sum.split)

lemma continue_migration_cutover [call_intros]:
  "last_call (\<lambda>c. \<not> cuts_over c) (\<lambda>h c. committed ans (migrationSessionID item) h) (continue_migration ag ans item m)"
proof -
  let ?J = "\<lambda>m. last_call (\<lambda>c. \<not> cuts_over c) (\<lambda>h c. committed ans (migrationSessionID item) h) m"
  have sid: "ses_ID (live_session item rec) = migrationSessionID item" for rec by (simp add: live_session_def)
  have "?J (begin_migration ans item m (live_session item rec) url rid)" for rec url rid
    using begin_migration_cutover [of ans "live_session item rec"] by (simp add: sid)
  moreover have "?J (poll_migration ans item (live_session item rec) url)" for rec url
    using poll_migration_cutover [of ans "live_session item rec"] by (simp add: sid)
  ultimately show ?thesis unfolding continue_migration_def
    by (auto intro!: call_intros split: sum.split option.split)
qed

lemma continue_migration_keeps_source [call_intros]:
  "only_calls (\<lambda>c. \<not> deletes_source c) (continue_migration ag ans item m)"
  unfolding continue_migration_def by (auto intro!: call_intros split: sum.split option.split)

lemma cancel_calls [call_intros]:
  "last_call (\<lambda>c. \<not> cuts_over c) Q (cancelLiveMigration ag ans item)"
  "only_calls (\<lambda>c. \<not> deletes_source c) (cancelLiveMigration ag ans item)"
  unfolding cancelLiveMigration_def Let_def by (auto simp: cancelled_status_def intro!: call_intros split: sum.split)

lemma reconcile_cutover:
  "mm_phase item \<noteq> ''NeedsRecovery'' \<Longrightarrow>
   last_call (\<lambda>c. \<not> cuts_over c) (\<lambda>h c. committed ans (migrationSessionID item) h) (agent_reconcileMigration ag ans item)"
  unfolding agent_reconcileMigration_def Let_def blockLiveMigration_def
  by (auto intro!: call_intros split: sum.split option.split)

lemma reconcile_keeps_source:
  "mm_phase item \<noteq> ''NeedsRecovery'' \<Longrightarrow> only_calls (\<lambda>c. \<not> deletes_source c) (agent_reconcileMigration ag ans item)"
  unfolding agent_reconcileMigration_def Let_def blockLiveMigration_def
  by (auto intro!: call_intros split: sum.split option.split)


lemma safe_hex: "list_all (\<lambda>b. b < 256) bs \<Longrightarrow> list_all alnum (hex bs)"
proof -
  have "alnum (hex_char n)" if "n < 16" for n
  proof -
    have "n \<in> set [0..<16]" using that by simp
    then show ?thesis by (simp add: upt_conv_Cons) (elim disjE; simp add: hex_char_def alnum_def in_class_def)
  qed
  then have digit: "alnum (hex_char (b div 16))" "alnum (hex_char (b mod 16))" if "b < 256" for b using that by auto
  show "list_all (\<lambda>b. b < 256) bs \<Longrightarrow> list_all alnum (hex bs)"
    by (induction bs) (auto simp: hex_def digit)
qed

lemma safe_session_id: "safeID (migrationSessionID item)"
proof -
  obtain seed where id: "migrationSessionID item = ''kmm-'' @ hex (take 16 (Sum256 seed))"
    by (auto simp: migrationSessionID_def Let_def)
  have "list_all (\<lambda>b. b < 256) (take 16 (Sum256 seed))" using Sum256_bytes(2) by (auto simp: list_all_iff dest: in_set_takeD)
  then have "list_all alnum (hex (take 16 (Sum256 seed)))" by (rule safe_hex)
  moreover have "length (hex (take 16 (Sum256 seed))) = 32" by (simp add: length_hex Sum256_bytes)
  moreover have "alnum (CHR ''k'')" "alnum (CHR ''m'')" by (simp_all add: alnum_def in_class_def)
  ultimately show ?thesis
    by (simp add: id safeID_def safe_text_def list_all_iff)
qed

lemma reconcile_last_cutover:
  assumes "mm_phase item \<noteq> ''NeedsRecovery''" "run_state (agent_reconcileMigration ag ans item) h = (r, calls)"
    and "c \<in> set (drop (length h) calls)" "cuts_over c"
  shows "\<exists>cs. calls = (h @ cs) @ [c] \<and> list_all (\<lambda>c. \<not> cuts_over c) cs \<and> committed ans (migrationSessionID item) (h @ cs)"
proof -
  obtain r' cs where cs: "run_state (agent_reconcileMigration ag ans item) h = (r', h @ cs)"
    "ends_in (\<lambda>c. \<not> cuts_over c) (\<lambda>h c. committed ans (migrationSessionID item) h) h cs"
    using reconcile_cutover [OF assms(1), of ans ag] unfolding last_call_def by blast
  then have "calls = h @ cs" using assms(2) by simp
  then show ?thesis using assms(3,4) cs(2) unfolding ends_in_def by (auto simp: list_all_iff)
qed

section \<open>Properties\<close>

text \<open>
  C32. The session the agent builds is well formed: for every migration between two different
  nodes whose names the server admits, whatever the UID of the migration, its id is a safe file
  name and the session passes the validation of the destination.
\<close>

theorem live_session_validates:
  assumes "safeName (mm_ns item)" "safeName (mig_MachineName (mm_Spec item))"
    and "safeName (ms_SourceNode (mm_Status item))" "safeName (ms_TargetNode (mm_Status item))"
    and "ms_SourceNode (mm_Status item) \<noteq> ms_TargetNode (mm_Status item)"
    and "mig_MigrationNetwork (mm_Spec item) = [] \<or> safeName (mig_MigrationNetwork (mm_Spec item))"
  shows "SessionValidate (live_session item rec) = None"
  using assms safe_session_id [of item] by (auto simp: SessionValidate_def live_session_def)

text \<open>
  The agent hands a migration over to the cutover only after the destination committed.
  Unless an operator resolves a recovery, the call before the status that says \<open>Cutover\<close> is a
  commit of the session of that migration, and it succeeded; whatever else fails.
\<close>

theorem cutover_only_after_commit:
  assumes "mm_phase item \<noteq> ''NeedsRecovery''" "run_state (agent_reconcileMigration ag ans item) h = (r, calls)"
    and "KMigStatus ns name st \<in> set (drop (length h) calls)" "ms_Phase st = ''Cutover''"
  shows "\<exists>before url. calls = before @ [PCommit url (migrationSessionID item), KMigStatus ns name st]
    \<and> ans_err ans before (PCommit url (migrationSessionID item)) = None"
  using reconcile_last_cutover [OF assms(1-3)] assms(4) unfolding committed_def by fastforce

definition one_vm :: VMRecord where
  "one_vm = \<lparr>vm_IDValue = ''r1'', vm_UUID = [], vm_Name = ''vm'', vm_Status = ''running'', vm_GuestIP = [], vm_TapName = [],
     vm_Disk = ''/d'', vm_Workspace = [], vm_VCPUs = 1, vm_MemoryMiB = 512, vm_MAC = [], vm_Extra = [], vm_Cdroms = []\<rparr>"

definition done_transfer :: TransferStatus where
  "done_transfer = \<lparr>ts_TransferID = [], ts_Phase = ''completed'', ts_Message = [], ts_RAMTransferred = 0, ts_RAMRemaining = 0,
     ts_RAMTotal = 0, ts_TotalTimeMs = 0, ts_DowntimeMs = 0\<rparr>"

definition smooth_answers :: Answers where
  "smooth_answers = \<lparr>ans_err = (\<lambda>_ _. None), ans_Machine = (\<lambda>_. Ok (Machine0\<lparr>mach_Spec := (mach_Spec Machine0)\<lparr>spec_NodeName := ''a''\<rparr>\<rparr>)),
     ans_Nodes = (\<lambda>_. Ok []), ans_URL = (\<lambda>_. Ok ''https://b''), ans_Get = (\<lambda>_. Ok one_vm), ans_Lookup = (\<lambda>_. Ok (Some one_vm)),
     ans_Snapshot = (\<lambda>_ _. Ok ''{}''), ans_Prepare = (\<lambda>_ _. Err ''unused''), ans_Transfer = (\<lambda>_ _. Inr done_transfer),
     ans_Diagnose = (\<lambda>_ _. Err ''unused''), ans_Now = (\<lambda>_. 0)\<rparr>"

definition source_agent :: Agent where
  "source_agent = \<lparr>ag_NodeName = ''a'', ag_MigrationPeer = True, ag_SourceMigrator = True, ag_MigrationPeerURL = True, ag_MigrationPort = 0\<rparr>"

definition running_item :: MachineMigration where
  "running_item = MachineMigration0\<lparr>mm_Metadata := ObjectMeta0\<lparr>meta_Name := ''m1''\<rparr>,
     mm_Spec := (mm_Spec MachineMigration0)\<lparr>mig_MachineName := ''vm''\<rparr>,
     mm_Status := (mm_Status MachineMigration0)\<lparr>ms_Phase := ''Running'', ms_SourceNode := ''a'', ms_TargetNode := ''b'',
       ms_EffectiveStrategy := ''live'', ms_SessionID := ''s'', ms_TransferID := ''t''\<rparr>\<rparr>"


lemmas run_simps = State_Monad.bind_def State_Monad.return_def ask_def perform_def clock_def

lemma running_item_sel [simp]:
  "mm_phase running_item = ''Running''" "ms_EffectiveStrategy (mm_Status running_item) = ''live''" "\<not> mig_Cancel (mm_Spec running_item)"
  "mig_MachineName (mm_Spec running_item) = ''vm''" "mm_ns running_item = ''default''" "mm_name running_item = ''m1''"
  "ms_SessionID (mm_Status running_item) = ''s''" "ms_TransferID (mm_Status running_item) = ''t''" "ms_TargetNode (mm_Status running_item) = ''b''"
  "ms_SourceNode (mm_Status running_item) = ''a''" "mig_MigrationNetwork (mm_Spec running_item) = []"
  by (simp_all add: running_item_def MachineMigration0_def mm_ns_def meta_ns_def DefaultNamespace_def)

theorem live_session_validates_witness: "SessionValidate (live_session running_item one_vm) = None"
proof -
  have "safeName ''default''" "safeName ''vm''" "safeName ''a''" "safeName ''b''"
    by (simp_all add: safeName_def safe_text_def alnum_def in_class_def)
  then show ?thesis using live_session_validates [of running_item one_vm] by simp
qed

lemma smooth_source: "source_refusal source_agent (Machine0\<lparr>mach_Spec := (mach_Spec Machine0)\<lparr>spec_NodeName := ''a''\<rparr>\<rparr>) = None"
  by (simp add: source_refusal_def source_agent_def Machine0_def)

definition running_calls :: "AgentCall list" where
  "running_calls = [KGetMachine ''default'' ''vm'', FLookup (RuntimeName (Machine0\<lparr>mach_Spec := (mach_Spec Machine0)\<lparr>spec_NodeName := ''a''\<rparr>\<rparr>)),
     HookURL ''b'', SStatus (live_session running_item one_vm) ''t'', PHeartbeat ''https://b'' (migrationSessionID running_item)]"

definition cutover_status :: MachineMigrationStatus where
  "cutover_status = (transfer_status (mm_Status running_item) done_transfer)\<lparr>ms_Phase := ''Cutover'',
     ms_Message := ''source transfer completed and target committed; waiting for guarded target adoption''\<rparr>"

lemma done_phase: "ToLower (TrimSpace (ts_Phase done_transfer)) = ''completed''"
proof -
  have "ToLower (TrimSpace ''completed'') = ''completed''" by code_simp
  then show ?thesis by (simp add: done_transfer_def)
qed

lemma live_session_ID [simp]: "ses_ID (live_session item rec) = migrationSessionID item"
  by (simp add: live_session_def)

lemma running_example:
  assumes "ans = smooth_answers\<lparr>ans_err := f, ans_Prepare := g, ans_Diagnose := d\<rparr>"
    and "f running_calls (PCommit ''https://b'' (migrationSessionID running_item)) = None"
  shows "run_state (agent_reconcileMigration source_agent ans running_item) []
    = (f (running_calls @ [PCommit ''https://b'' (migrationSessionID running_item)]) (KMigStatus ''default'' ''m1'' cutover_status),
       running_calls @ [PCommit ''https://b'' (migrationSessionID running_item), KMigStatus ''default'' ''m1'' cutover_status])"
  using smooth_source assms(2)
  by (simp add: assms(1) agent_reconcileMigration_def continue_migration_def current_def peer_url_def poll_migration_def projectTransfer_def
      patch_status_def smooth_answers_def source_agent_def done_phase one_vm_def vm_ID_def run_simps Let_def running_calls_def cutover_status_def
      Machine0_def)

theorem cutover_only_after_commit_witness:
  "\<exists>before url. running_calls @ [PCommit ''https://b'' (migrationSessionID running_item), KMigStatus ''default'' ''m1'' cutover_status]
     = before @ [PCommit url (migrationSessionID running_item), KMigStatus ''default'' ''m1'' cutover_status]"
proof -
  have "run_state (agent_reconcileMigration source_agent smooth_answers running_item) []
      = (None, running_calls @ [PCommit ''https://b'' (migrationSessionID running_item), KMigStatus ''default'' ''m1'' cutover_status])"
    using running_example [where ans = smooth_answers and f = "\<lambda>_ _. None"] by (simp add: smooth_answers_def)
  from cutover_only_after_commit [OF _ this, of "''default''" "''m1''" cutover_status] show ?thesis by (auto simp: cutover_status_def)
qed

lemma cutover_status_phase [simp]: "ms_Phase cutover_status = ''Cutover''"
  by (simp add: cutover_status_def)

lemma only_calls_no_delete: "only_calls (\<lambda>c. \<not> deletes_source c) m \<Longrightarrow> run_state m h = (r, calls) \<Longrightarrow> FDelete rid \<notin> set (drop (length h) calls)"
  using only_calls_run [of "\<lambda>c. \<not> deletes_source c" m h r calls] by (fastforce simp: list_all_iff)

lemma recovery_refusal_None:
  "recovery_refusal action = None \<Longrightarrow> TrimSpace (rs_Reason action) \<noteq> []
     \<and> (rs_Action action = ConfirmDestinationCommitted \<longrightarrow> rs_AcknowledgedDiagnosis action = DestinationCommitted)
     \<and> (rs_Action action = ConfirmDestinationNotCommitted \<longrightarrow> rs_AcknowledgedDiagnosis action = DestinationNotCommitted)"
  by (auto simp: recovery_refusal_def diagnosisMatches_def ConfirmDestinationCommitted_def ConfirmDestinationNotCommitted_def
      split: if_splits option.splits)

definition committed_before_delete :: "Answers \<Rightarrow> string \<Rightarrow> AgentCall list \<Rightarrow> bool" where
  \<comment> \<open>the call right before the deletion was a commit that the destination accepted\<close>
  "committed_before_delete ans rid calls \<longleftrightarrow>
     (\<exists>before after url sid. calls = before @ [PCommit url sid, FDelete rid] @ after \<and> ans_err ans before (PCommit url sid) = None)"

lemma committed_before_deleteI:
  "ans_err ans h (PCommit url sid) = None \<Longrightarrow> committed_before_delete ans rid (h @ [PCommit url sid, FDelete rid])"
  unfolding committed_before_delete_def by (intro exI [of _ h] exI [of _ "[]"] exI [of _ url] exI [of _ sid]) simp

lemma committed_before_delete_append:
  "committed_before_delete ans rid calls \<Longrightarrow> committed_before_delete ans rid (calls @ cs)"
  unfolding committed_before_delete_def by (metis append.assoc)

lemma apply_recovery_delete:
  assumes "run_state (apply_recovery ans action status url) h = (st, calls)" "FDelete rid \<in> set (drop (length h) calls)"
  shows "rid = ms_RuntimeID status \<and> (rs_Action action = ConfirmDestinationCommitted
     \<or> rs_Action action = ConfirmDestinationNotCommitted
       \<and> committed_before_delete ans rid calls)"
  using assms
  by (auto simp: apply_recovery_def remove_source_def run_simps committed_before_deleteI split: if_splits option.splits)

lemma act_on_recovery_calls: "only_calls (\<lambda>_. True) (act_on_recovery ans item action recovery url)"
  unfolding act_on_recovery_def apply_recovery_def remove_source_def by (auto intro!: call_intros split: option.split)

lemma act_on_recovery_delete:
  assumes "run_state (act_on_recovery ans item action recovery url) h = (r, calls)" "FDelete rid \<in> set (drop (length h) calls)"
  shows "rid = ms_RuntimeID (mm_Status item) \<and> (rs_Action action = ConfirmDestinationCommitted
     \<or> rs_Action action = ConfirmDestinationNotCommitted
       \<and> committed_before_delete ans rid calls)"
proof -
  let ?rec = "recovery\<lparr>rec_AppliedAction := rs_Action action, rec_AppliedReason := rs_Reason action,
          rec_AppliedAcknowledgedDiagnosis := rs_AcknowledgedDiagnosis action, rec_AppliedAt := Some (ans_Now ans h)\<rparr>"
  obtain st calls1 where 1: "run_state (apply_recovery ans action ((mm_Status item)\<lparr>ms_Recovery := Some ?rec\<rparr>) url) h = (st, calls1)"
    by (rule prod.exhaust)
  then have calls: "calls = calls1 @ [KMigStatus (mm_ns item) (mm_name item) st]"
    using assms(1) by (simp add: act_on_recovery_def clock_def patch_status_def perform_def ask_def State_Monad.bind_def)
  have "FDelete rid \<in> set (drop (length h) calls1)"
    using assms(2) unfolding calls by (auto simp: drop_append dest: in_set_dropD split: nat_diff_split_asm)
  from apply_recovery_delete [OF 1 this] show ?thesis unfolding calls by (auto intro: committed_before_delete_append)
qed

lemma resolve_recovery_keeps_source:
  assumes "\<nexists>action. mig_Recovery (mm_Spec item) = Some action \<and> recovery_refusal action = None"
  shows "only_calls (\<lambda>c. \<not> deletes_source c) (resolve_recovery ans item url)"
  unfolding resolve_recovery_def
proof (rule only_calls_bind [OF quiet_helpers(14)])
  fix recovery
  show "only_calls (\<lambda>c. \<not> deletes_source c) (case mig_Recovery (mm_Spec item) of
        None \<Rightarrow> patch_status ans item ((mm_Status item)\<lparr>ms_Recovery := Some recovery\<rparr>)
      | Some action \<Rightarrow>
          (case recovery_refusal action of
             Some message \<Rightarrow> patch_status ans item ((mm_Status item)\<lparr>ms_Recovery := Some recovery, ms_Message := message\<rparr>)
           | None \<Rightarrow> act_on_recovery ans item action recovery url))"
    using assms by (auto intro!: patch_status_calls split: option.split)
qed

lemma recovery_delete:
  assumes "run_state (reconcileNeedsRecovery ag ans item) h = (r, calls)" "FDelete rid \<in> set (drop (length h) calls)"
  shows "rid = ms_RuntimeID (mm_Status item) \<and> (\<exists>action. mig_Recovery (mm_Spec item) = Some action \<and> recovery_refusal action = None
      \<and> (rs_Action action = ConfirmDestinationCommitted
         \<or> rs_Action action = ConfirmDestinationNotCommitted
           \<and> committed_before_delete ans rid calls))"
proof (cases "\<exists>action. mig_Recovery (mm_Spec item) = Some action \<and> recovery_refusal action = None")
  case False
  then have "only_calls (\<lambda>c. \<not> deletes_source c) (reconcileNeedsRecovery ag ans item)"
    unfolding reconcileNeedsRecovery_def
    by (auto intro!: only_calls_return only_calls_bind [OF quiet_helpers(9)] resolve_recovery_keeps_source [OF False] simp only: split: sum.split if_split)
  from only_calls_no_delete [OF this assms(1)] assms(2) show ?thesis by blast
next
  case True
  then obtain action where action: "mig_Recovery (mm_Spec item) = Some action" "recovery_refusal action = None" by blast
  obtain u h1 where u: "run_state (peer_url ag ans (ms_TargetNode (mm_Status item))) h = (u, h1)" by (rule prod.exhaust)
  obtain cs1 where h1: "h1 = h @ cs1" "list_all plain cs1"
    using only_calls_run [OF helper_calls(2) u] by blast
  have peer: "ag_MigrationPeer ag" using assms by (cases "ag_MigrationPeer ag") (auto simp: reconcileNeedsRecovery_def State_Monad.return_def)
  have no1: "FDelete rid \<notin> set cs1" using h1(2) by (auto simp: list_all_iff)
  then obtain url where url: "u = Inr url"
    using assms u h1 peer by (cases u) (auto simp: reconcileNeedsRecovery_def State_Monad.bind_def State_Monad.return_def)
  obtain rec h2 where d: "run_state (diagnose ans (mm_Status item) url) h1 = (rec, h2)" by (rule prod.exhaust)
  obtain cs2 where h2: "h2 = h1 @ cs2" "list_all plain cs2"
    using only_calls_run [OF helper_calls(7) d] by blast
  have no2: "FDelete rid \<notin> set cs2" using h2(2) by (auto simp: list_all_iff)
  have act: "run_state (act_on_recovery ans item action rec url) h2 = (r, calls)"
    using assms(1) peer u url d action by (simp add: reconcileNeedsRecovery_def resolve_recovery_def State_Monad.bind_def)
  have "FDelete rid \<in> set (drop (length h2) calls)"
  proof -
    have "\<exists>cs3. calls = h2 @ cs3" using only_calls_run [OF act_on_recovery_calls act] by blast
    then show ?thesis using assms(2) no1 no2 unfolding h2(1) h1(1) by auto
  qed
  from act_on_recovery_delete [OF act this] action show ?thesis by blast
qed

text \<open>
  C17. The source runtime, the one copy of the guest that is known to be good, is deleted only on
  the word of an operator: the migration is parked for recovery, the operator gave a reason and
  acknowledged the diagnosis that belongs to the action, and when they attest that the
  destination never committed, the commit was tried again first and succeeded.
\<close>

theorem source_deleted_only_on_attestation:
  assumes "run_state (agent_reconcileMigration ag ans item) h = (r, calls)" "FDelete rid \<in> set (drop (length h) calls)"
  shows "mm_phase item = ''NeedsRecovery'' \<and> rid = ms_RuntimeID (mm_Status item)
    \<and> (\<exists>action. mig_Recovery (mm_Spec item) = Some action \<and> TrimSpace (rs_Reason action) \<noteq> []
        \<and> (rs_Action action = ConfirmDestinationCommitted \<and> rs_AcknowledgedDiagnosis action = DestinationCommitted
           \<or> rs_Action action = ConfirmDestinationNotCommitted \<and> rs_AcknowledgedDiagnosis action = DestinationNotCommitted
             \<and> committed_before_delete ans rid calls))"
proof -
  have phase: "mm_phase item = ''NeedsRecovery''"
    using only_calls_no_delete [OF reconcile_keeps_source assms(1)] assms(2) by blast
  then have "run_state (reconcileNeedsRecovery ag ans item) h = (r, calls)" using assms(1) by (simp add: agent_reconcileMigration_def)
  then have "rid = ms_RuntimeID (mm_Status item) \<and> (\<exists>action. mig_Recovery (mm_Spec item) = Some action \<and> recovery_refusal action = None
      \<and> (rs_Action action = ConfirmDestinationCommitted
         \<or> rs_Action action = ConfirmDestinationNotCommitted
           \<and> committed_before_delete ans rid calls))"
    using assms(2) by (rule recovery_delete)
  then show ?thesis using phase recovery_refusal_None by blast
qed


definition parked_action :: MachineMigrationRecoverySpec where
  "parked_action = \<lparr>rs_Action = ConfirmDestinationNotCommitted, rs_AcknowledgedDiagnosis = DestinationNotCommitted, rs_Reason = ''seen''\<rparr>"

definition parked_item :: MachineMigration where
  "parked_item = running_item\<lparr>mm_Spec := (mm_Spec running_item)\<lparr>mig_Recovery := Some parked_action\<rparr>,
     mm_Status := (mm_Status running_item)\<lparr>ms_Phase := ''NeedsRecovery'', ms_RuntimeID := ''r1''\<rparr>\<rparr>"

definition parked_calls :: "AgentCall list" where
  "parked_calls = [HookURL ''b'', FGet ''r1'', PDiagnose ''https://b'' ''s'', PCommit ''https://b'' ''s'', FDelete ''r1'']"

lemma parked_not_refused: "recovery_refusal parked_action = None"
proof -
  have "TrimSpace ''seen'' = ''seen''" by code_simp
  then show ?thesis
    by (simp add: recovery_refusal_def parked_action_def diagnosisMatches_def ConfirmDestinationCommitted_def ConfirmDestinationNotCommitted_def)
qed

lemma parked_example:
  "\<exists>st. run_state (agent_reconcileMigration source_agent smooth_answers parked_item) [] = (None, parked_calls @ [KMigStatus ''default'' ''m1'' st])"
proof -
  have sel: "mm_phase parked_item = ''NeedsRecovery''" "ms_RuntimeID (mm_Status parked_item) = ''r1''" "ms_SessionID (mm_Status parked_item) = ''s''"
    "ms_TargetNode (mm_Status parked_item) = ''b''" "mig_Recovery (mm_Spec parked_item) = Some parked_action"
    "mm_ns parked_item = ''default''" "mm_name parked_item = ''m1''"
    using running_item_sel unfolding parked_item_def mm_ns_def by simp_all
  show ?thesis
    by (simp add: agent_reconcileMigration_def reconcileNeedsRecovery_def resolve_recovery_def act_on_recovery_def apply_recovery_def
        remove_source_def diagnose_def peer_url_def patch_status_def smooth_answers_def source_agent_def run_simps sel parked_not_refused
        parked_calls_def) (simp add: parked_action_def ConfirmDestinationCommitted_def ConfirmDestinationNotCommitted_def)
qed

theorem source_deleted_only_on_attestation_witness:
  "\<exists>calls. FDelete ''r1'' \<in> set calls \<and> mm_phase parked_item = ''NeedsRecovery''
     \<and> (rs_Action parked_action = ConfirmDestinationNotCommitted \<and> committed_before_delete smooth_answers ''r1'' calls)"
proof -
  obtain st where run: "run_state (agent_reconcileMigration source_agent smooth_answers parked_item) [] = (None, parked_calls @ [KMigStatus ''default'' ''m1'' st])"
    using parked_example by blast
  have del: "FDelete ''r1'' \<in> set (parked_calls @ [KMigStatus ''default'' ''m1'' st])" by (simp add: parked_calls_def)
  have act: "mig_Recovery (mm_Spec parked_item) = Some parked_action" by (simp add: parked_item_def)
  have "rs_Action parked_action = ConfirmDestinationNotCommitted" "rs_Action parked_action \<noteq> ConfirmDestinationCommitted"
    by (simp_all add: parked_action_def ConfirmDestinationCommitted_def ConfirmDestinationNotCommitted_def)
  then show ?thesis using source_deleted_only_on_attestation [OF run, of "''r1''"] del act
    by (intro exI [of _ "parked_calls @ [KMigStatus ''default'' ''m1'' st]"]) auto
qed

end
