(* ===== verification/Disruption.thy ===== *)
theory Disruption
  imports Admission
begin

text \<open>
  Disruption budgets, \<open>internal/controller/disruption.go\<close> with the spec of
  \<open>internal/model/disruption.go\<close>: how many Machines of a selection must stay healthy, the
  allowance that leaves, and the admission that spends it.
\<close>

record MachineDisruptionBudget =
  mdb_Metadata :: ObjectMeta
  mdb_Selector :: smap
  mdb_MinAvailable :: string
  mdb_MaxUnavailable :: string

record MachineDisruptionBudgetStatus =
  mdbs_ExpectedMachines :: int
  mdbs_CurrentHealthy :: int
  mdbs_DesiredHealthy :: int
  mdbs_DisruptionsAllowed :: int

record BudgetState =
  bs_budget :: MachineDisruptionBudget
  bs_total :: int
  bs_healthy :: int
  bs_desired :: int
  bs_allowed :: int

definition budget_status :: "BudgetState \<Rightarrow> MachineDisruptionBudgetStatus" where
  "budget_status s = \<lparr>mdbs_ExpectedMachines = bs_total s, mdbs_CurrentHealthy = bs_healthy s,
     mdbs_DesiredHealthy = bs_desired s, mdbs_DisruptionsAllowed = bs_allowed s\<rparr>"

definition DesiredHealthy :: "MachineDisruptionBudget \<Rightarrow> int \<Rightarrow> int res" where
  "DesiredHealthy s tot =
     (if mdb_MinAvailable s \<noteq> '''' \<and> mdb_MaxUnavailable s \<noteq> '''' then
        Err ''exactly one of minAvailable/maxUnavailable must be set, not both''
      else if mdb_MinAvailable s \<noteq> '''' then ParseIntOrPercent (mdb_MinAvailable s) tot
      else if mdb_MaxUnavailable s \<noteq> '''' then
        (case ParseIntOrPercent (mdb_MaxUnavailable s) tot of
           Inl e \<Rightarrow> Err e | Inr maxUnavailable \<Rightarrow> Ok (tot - maxUnavailable))
      else Err ''one of minAvailable/maxUnavailable must be set'')"

definition isTerminalMigrationPhase :: "string \<Rightarrow> bool" where
  "isTerminalMigrationPhase phase = (phase \<in> {''Succeeded'', ''Failed'', ''Blocked'', ''Cancelled'', ''''})"

definition in_flight :: "MachineMigration list \<Rightarrow> string list" where
  "in_flight migrations = map (\<lambda>mig. mm_ns mig @ ''/'' @ mig_MachineName (mm_Spec mig))
     (filter (\<lambda>mig. \<not> isTerminalMigrationPhase (mm_phase mig)) migrations)"

definition budget_matches :: "MachineDisruptionBudget \<Rightarrow> Machine \<Rightarrow> bool" where
  "budget_matches b m = LabelsMatch (m_labels m) (mdb_Selector b)"

definition is_healthy :: "MachineMigration list \<Rightarrow> Machine \<Rightarrow> bool" where
  "is_healthy migrations m = (m_phase m = ''Running'' \<and> m_key m \<notin> set (in_flight migrations))"

definition budget_state :: "Machine list \<Rightarrow> MachineMigration list \<Rightarrow> MachineDisruptionBudget \<Rightarrow> BudgetState res" where
  "budget_state machines migrations b =
     (let matching = filter (budget_matches b) machines;
          tot = int (length matching);
          healthy = int (length (filter (is_healthy migrations) matching))
      in case DesiredHealthy b tot of
           Inl e \<Rightarrow> Err (''MachineDisruptionBudget '' @ meta_Namespace (mdb_Metadata b) @ ''/'' @ meta_Name (mdb_Metadata b) @ '': '' @ e)
         | Inr desired \<Rightarrow>
             let allowed = healthy - desired
             in Ok \<lparr>bs_budget = b, bs_total = tot, bs_healthy = healthy, bs_desired = desired,
                    bs_allowed = (if allowed < 0 then 0 else allowed)\<rparr>)"

fun LoadBudgetStates :: "MachineDisruptionBudget list \<Rightarrow> Machine list \<Rightarrow> MachineMigration list \<Rightarrow> BudgetState list res" where
  "LoadBudgetStates [] machines migrations = Ok []"
| "LoadBudgetStates (b # bs) machines migrations =
     (case budget_state machines migrations b of
        Inl e \<Rightarrow> Err e
      | Inr st \<Rightarrow> (case LoadBudgetStates bs machines migrations of Inl e \<Rightarrow> Err e | Inr sts \<Rightarrow> Ok (st # sts)))"

fun disruption_blocker :: "BudgetState list \<Rightarrow> Machine \<Rightarrow> string" where
  "disruption_blocker [] m = ''''"
| "disruption_blocker (st # sts) m =
     (if budget_matches (bs_budget st) m then
        (if bs_allowed st \<le> 0 then
           ''MachineDisruptionBudget '' @ meta_Namespace (mdb_Metadata (bs_budget st)) @ ''/''
             @ meta_Name (mdb_Metadata (bs_budget st)) @ '' has 0 disruptions allowed''
         else disruption_blocker sts m)
      else disruption_blocker sts m)"

definition spend_disruption :: "BudgetState \<Rightarrow> Machine \<Rightarrow> BudgetState" where
  "spend_disruption st m = st\<lparr>bs_allowed := bs_allowed st - 1\<rparr>"

definition AdmitDisruption :: "BudgetState list \<Rightarrow> Machine \<Rightarrow> string \<times> BudgetState list" where
  "AdmitDisruption states m = (let b = disruption_blocker states m in
     if b \<noteq> '''' then (b, states)
     else ('''', map (\<lambda>st. if budget_matches (bs_budget st) m then spend_disruption st m else st) states))"

definition reconcileDisruptionBudgetsStatus ::
  "(MachineDisruptionBudget list) res \<Rightarrow> bool \<Rightarrow> Machine list \<Rightarrow> MachineMigration list
     \<Rightarrow> (string \<times> string \<times> MachineDisruptionBudgetStatus) list res" where
  \<comment> \<open>what the list call answers, and whether its error is a not-found; the status patches it sends\<close>
  "reconcileDisruptionBudgetsStatus budgets notFound machines migrations =
     (case budgets of
        Inl e \<Rightarrow> if notFound then Ok [] else Err e
      | Inr bs \<Rightarrow>
          (case LoadBudgetStates bs machines migrations of
             Inl e \<Rightarrow> Err e
           | Inr states \<Rightarrow> Ok (map (\<lambda>st. (meta_Namespace (mdb_Metadata (bs_budget st)),
                 meta_Name (mdb_Metadata (bs_budget st)), budget_status st)) states)))"

section \<open>Admission spends allowances\<close>

lemma disruption_blocker_none:
  "disruption_blocker sts m = '''' \<longleftrightarrow> (\<forall>st \<in> set sts. budget_matches (bs_budget st) m \<longrightarrow> 0 < bs_allowed st)"
  by (induction sts) (auto simp: not_le)

lemma spend_disruption_simps [simp]:
  "bs_budget (spend_disruption st m) = bs_budget st" "bs_healthy (spend_disruption st m) = bs_healthy st"
  "bs_desired (spend_disruption st m) = bs_desired st" "bs_allowed (spend_disruption st m) = bs_allowed st - 1"
  by (simp_all add: spend_disruption_def)

interpretation disruption: spend_tracker AdmitDisruption "\<lambda>st. budget_matches (bs_budget st)" "\<lambda>st m. 0 < bs_allowed st" spend_disruption
  by unfold_locales (auto simp: AdmitDisruption_def Let_def disruption_blocker_none split: if_splits)

lemma LoadBudgetStates_Ok:
  "LoadBudgetStates bs machines migrations = Ok sts \<Longrightarrow>
   list_all2 (\<lambda>b st. budget_state machines migrations b = Ok st) bs sts"
  by (induction bs arbitrary: sts) (auto split: sum.splits)

lemma budget_state_Ok:
  assumes "budget_state machines migrations b = Ok st"
  shows "bs_budget st = b" "bs_healthy st = int (length (filter (is_healthy migrations) (filter (budget_matches b) machines)))"
    "DesiredHealthy b (int (length (filter (budget_matches b) machines))) = Ok (bs_desired st)"
    "bs_allowed st = max 0 (bs_healthy st - bs_desired st)"
  using assms by (auto simp: budget_state_def Let_def split: sum.splits if_splits)

lemma budget_state_allowed: "budget_state machines migrations b = Ok st \<Longrightarrow> 0 \<le> bs_allowed st"
  by (drule budget_state_Ok(4)) simp

text \<open>A tracker that starts with an allowance admits at most that many of the Machines it matches.\<close>

lemma disruption_run:
  assumes "\<forall>st \<in> set sts. 0 \<le> bs_allowed st"
  shows "list_all2 (\<lambda>st st'. bs_allowed st' = bs_allowed st - int (length (filter (budget_matches (bs_budget st)) (fst (admit_run AdmitDisruption sts ms))))
           \<and> 0 \<le> bs_allowed st') sts (snd (admit_run AdmitDisruption sts ms))"
proof -
  let ?P = "\<lambda>st st' as. bs_budget st' = bs_budget st \<and> 0 \<le> bs_allowed st'
      \<and> bs_allowed st' = bs_allowed st - int (length (filter (budget_matches (bs_budget st)) as))"
  have "list_all2 (\<lambda>st st'. ?P st st' (fst (admit_run AdmitDisruption sts ms))) sts (snd (admit_run AdmitDisruption sts ms))"
    by (rule disruption.run_rel [of sts ?P]) (use assms in auto)
  then show ?thesis by (rule list_all2_mono) simp
qed

lemma disruption_budget_kept:
  assumes "LoadBudgetStates budgets machines migrations = Ok states"
    and "admit_run AdmitDisruption states ms = (as, states')"
    and "b \<in> set budgets"
  shows "\<exists>desired. DesiredHealthy b (int (length (filter (budget_matches b) machines))) = Ok desired
    \<and> (filter (budget_matches b) as \<noteq> [] \<longrightarrow>
       desired \<le> int (length (filter (is_healthy migrations) (filter (budget_matches b) machines)))
                  - int (length (filter (budget_matches b) as)))"
proof -
  note L = LoadBudgetStates_Ok [OF assms(1)]
  obtain i where i: "i < length budgets" "budgets ! i = b" using assms(3) by (auto simp: in_set_conv_nth)
  with L have st: "budget_state machines migrations b = Ok (states ! i)" and li: "i < length states"
    by (auto simp: list_all2_conv_all_nth)
  note S = budget_state_Ok [OF st]
  have "\<forall>st \<in> set states. 0 \<le> bs_allowed st"
    using L budget_state_allowed by (fastforce simp: list_all2_conv_all_nth in_set_conv_nth)
  from disruption_run [OF this, of ms] assms(2) li
  have "0 \<le> bs_allowed (states ! i) - int (length (filter (budget_matches b) as))"
    by (auto simp: list_all2_conv_all_nth S(1))
  then have "filter (budget_matches b) as \<noteq> [] \<Longrightarrow> bs_desired (states ! i) \<le> bs_healthy (states ! i) - int (length (filter (budget_matches b) as))"
    using S(4) by (cases "filter (budget_matches b) as") (auto simp: max_def split: if_splits)
  with S(2,3) show ?thesis by auto
qed

section \<open>Properties\<close>

text \<open>
  C8. Admitted disruptions never break a budget: start from the states computed for the
  current Machines and migrations and admit any sequence of requests; for every budget, if
  any admitted Machine matches it, then the Machines it matches that are Running and not
  migrating still number at least \<open>DesiredHealthy\<close> after taking away all the admitted ones.
\<close>

theorem disruption_budget_respected:
  assumes "LoadBudgetStates budgets machines migrations = Ok states"
    and "admit_run AdmitDisruption states ms = (as, states')"
    and "b \<in> set budgets"
  shows "\<exists>desired. DesiredHealthy b (int (length (filter (budget_matches b) machines))) = Ok desired
    \<and> (filter (budget_matches b) as \<noteq> [] \<longrightarrow>
       desired \<le> int (length (filter (is_healthy migrations) (filter (budget_matches b) machines)))
                  - int (length (filter (budget_matches b) as)))"
  using assms by (rule disruption_budget_kept)

definition web_machine :: "string \<Rightarrow> string \<Rightarrow> string \<Rightarrow> Machine" where
  "web_machine ns name phase = Machine0\<lparr>
     mach_Metadata := ObjectMeta0\<lparr>meta_Name := name, meta_Namespace := ns, meta_Labels := [(''app'', ''web'')]\<rparr>,
     mach_Status := (mach_Status Machine0)\<lparr>st_Phase := phase\<rparr>\<rparr>"

definition web_budget :: "string \<Rightarrow> MachineDisruptionBudget" where
  "web_budget minAvailable = \<lparr>mdb_Metadata = ObjectMeta0\<lparr>meta_Name := ''web'', meta_Namespace := ''prod''\<rparr>,
     mdb_Selector = [(''app'', ''web'')], mdb_MinAvailable = minAvailable, mdb_MaxUnavailable = ''''\<rparr>"

lemmas disruption_eval = web_machine_def web_budget_def Machine0_def ObjectMeta0_def budget_state_def
  DesiredHealthy_def budget_matches_def LabelsMatch_def mget_def is_healthy_def in_flight_def parse_one
  AdmitDisruption_def spend_disruption_def

theorem disruption_budget_respected_witness:
  "filter (budget_matches (web_budget ''1'')) [web_machine ''prod'' ''a'' ''Running''] \<noteq> []
   \<and> (1 :: int) \<le> int (length (filter (is_healthy []) [web_machine ''prod'' ''a'' ''Running'', web_machine ''prod'' ''b'' ''Running''])) - 1"
proof -
  let ?a = "web_machine ''prod'' ''a'' ''Running''" and ?b = "web_machine ''prod'' ''b'' ''Running''"
  let ?B = "web_budget ''1''"
  let ?st = "\<lparr>bs_budget = ?B, bs_total = 2, bs_healthy = 2, bs_desired = 1, bs_allowed = 1\<rparr>"
  have l: "LoadBudgetStates [?B] [?a, ?b] [] = Ok [?st]" by (simp add: disruption_eval)
  have r: "admit_run AdmitDisruption [?st] [?a, ?b] = ([?a], [?st\<lparr>bs_allowed := 0\<rparr>])"
    by (simp add: disruption_eval)
  show ?thesis using disruption_budget_respected [OF l r, of ?B] by (simp add: disruption_eval)
qed

text \<open>
  A budget does not stop at its namespace: the budget \<open>prod/web\<close> with \<open>minAvailable: 1\<close>
  counts a Running Machine of another namespace with the same labels as healthy, so the only
  healthy Machine of its own namespace may be disrupted.
\<close>

theorem budget_counts_other_namespaces:
  "LoadBudgetStates [web_budget ''1''] [web_machine ''prod'' ''a'' ''Running'', web_machine ''dev'' ''b'' ''Running''] []
     = Ok [\<lparr>bs_budget = web_budget ''1'', bs_total = 2, bs_healthy = 2, bs_desired = 1, bs_allowed = 1\<rparr>]
   \<and> fst (AdmitDisruption [\<lparr>bs_budget = web_budget ''1'', bs_total = 2, bs_healthy = 2, bs_desired = 1, bs_allowed = 1\<rparr>]
        (web_machine ''prod'' ''a'' ''Running'')) = ''''"
  by (simp add: disruption_eval)

end
