(* ===== verification/Preempt.thy ===== *)
theory Preempt
  imports Capacity Disruption
begin

text \<open>
  Preemption, \<open>internal/preempt/preempt.go\<close> and \<open>internal/controller/preempt.go\<close>: which
  scheduled Machine a pending Machine of higher priority may halt, when the halted one may
  resume, and the patches the controller sends for both.
\<close>

record PMachine =
  pm_Namespace :: string
  pm_Name :: string
  pm_Tenant :: string
  pm_Priority :: int
  pm_NodeName :: string
  pm_PowerState :: string
  pm_Phase :: string
  pm_Annotations :: smap
  pm_Deleting :: bool

record Decision =
  VictimNamespace :: string
  VictimName :: string
  Preemptor :: string
  PreviousPower :: string

record Resume =
  rsm_Namespace :: string
  rsm_Name :: string
  rsm_Power :: string

definition AnnPreempt :: string where "AnnPreempt = ''kairon.zyvor.dev/preempt''"
definition AnnPolicy :: string where "AnnPolicy = ''kairon.zyvor.dev/preemption-policy''"
definition AnnPreemptedBy :: string where "AnnPreemptedBy = ''kairon.zyvor.dev/preempted-by''"
definition AnnPreemptedPower :: string where "AnnPreemptedPower = ''kairon.zyvor.dev/preempted-power''"
definition PowerHalted :: string where "PowerHalted = ''Halted''"

definition pm_key :: "PMachine \<Rightarrow> string" where
  "pm_key m = pm_Namespace m @ ''/'' @ pm_Name m"

definition or_running :: "string \<Rightarrow> string" where
  "or_running p = (if p = '''' then ''Running'' else p)"

definition policyHalt :: "string \<Rightarrow> bool" where
  "policyHalt v = (ToLower (TrimSpace v) \<in> {''halt'', ''halted''})"

definition ValidatePolicy :: "string \<Rightarrow> err option" where
  "ValidatePolicy v = (if ToLower (TrimSpace v) \<in> {'''', ''halt'', ''halted''} then None
     else Some (AnnPolicy @ '' must be Halt or empty, got '' @ Quote v @ '' (Pause does not free node capacity)''))"

definition wants :: "PMachine \<Rightarrow> bool" where
  "wants m = EqualFold (TrimSpace (mget (pm_Annotations m) AnnPreempt)) ''true''"

definition victimOK :: "PMachine \<Rightarrow> string list \<Rightarrow> string list \<Rightarrow> PMachine \<Rightarrow> bool" where
  "victimOK p migrating used c =
     (if pm_Namespace c \<noteq> pm_Namespace p \<or> pm_Name c = pm_Name p \<or> pm_Deleting c then False
      else if pm_key c \<in> set used then False
      else if pm_key c \<in> set migrating then False
      else if pm_NodeName c = '''' \<or> pm_Priority p \<le> pm_Priority c then False
      else if \<not> policyHalt (mget (pm_Annotations c) AnnPolicy) then False
      else if TrimSpace (mget (pm_Annotations c) AnnPreemptedBy) \<noteq> '''' then False
      else EqualFold (or_running (pm_PowerState c)) ''Running'')"

definition better_victim :: "PMachine \<Rightarrow> PMachine \<Rightarrow> bool" where
  "better_victim c best = (pm_Priority c < pm_Priority best \<or> (pm_Priority c = pm_Priority best \<and> pm_key c < pm_key best))"

fun pick_from :: "PMachine option \<Rightarrow> PMachine list \<Rightarrow> PMachine option" where
  "pick_from best [] = best"
| "pick_from best (c # cs) =
     (case best of None \<Rightarrow> pick_from (Some c) cs
      | Some b \<Rightarrow> if better_victim c b then pick_from (Some c) cs else pick_from (Some b) cs)"

definition pickVictim :: "PMachine \<Rightarrow> PMachine list \<Rightarrow> string list \<Rightarrow> string list \<Rightarrow> PMachine option" where
  "pickVictim p candidates migrating used = pick_from None (filter (victimOK p migrating used) candidates)"

definition preemptor_before :: "PMachine \<Rightarrow> PMachine \<Rightarrow> bool" where
  "preemptor_before a b = (if pm_Priority a \<noteq> pm_Priority b then pm_Priority b < pm_Priority a else pm_key a < pm_key b)"

fun plan_loop :: "PMachine list \<Rightarrow> PMachine list \<Rightarrow> string list \<Rightarrow> string list \<Rightarrow> Decision list" where
  "plan_loop [] candidates migrating used = []"
| "plan_loop (p # ps) candidates migrating used =
     (if \<not> wants p \<or> pm_Deleting p \<or> pm_NodeName p \<noteq> '''' then plan_loop ps candidates migrating used
      else case pickVictim p candidates migrating used of
        None \<Rightarrow> plan_loop ps candidates migrating used
      | Some v \<Rightarrow>
          \<lparr>VictimNamespace = pm_Namespace v, VictimName = pm_Name v, Preemptor = pm_key p,
           PreviousPower = or_running (pm_PowerState v)\<rparr>
          # plan_loop ps candidates migrating (pm_key v # used))"

definition Plan :: "PMachine list \<Rightarrow> PMachine list \<Rightarrow> string list \<Rightarrow> Decision list" where
  "Plan preemptors candidates migrating = plan_loop (sort_by preemptor_before preemptors) candidates migrating []"

definition preemptorReleased :: "PMachine \<Rightarrow> bool" where
  "preemptorReleased p =
     (if pm_Deleting p then True
      else if EqualFold (or_running (pm_PowerState p)) PowerHalted \<or> EqualFold (or_running (pm_PowerState p)) ''Stopped'' then True
      else pm_NodeName p = '''' \<and> \<not> EqualFold (pm_Phase p) ''Pending'')"

definition pm_lookup :: "PMachine list \<Rightarrow> string \<Rightarrow> PMachine option" where
  \<comment> \<open>\<open>byKey\<close>: a later Machine of the same key overwrites an earlier one\<close>
  "pm_lookup machines k = map_of (rev (map (\<lambda>m. (pm_key m, m)) machines)) k"

definition may_resume :: "PMachine list \<Rightarrow> PMachine \<Rightarrow> bool" where
  "may_resume machines m =
     (let who = TrimSpace (mget (pm_Annotations m) AnnPreemptedBy);
          power = or_running (mget (pm_Annotations m) AnnPreemptedPower) in
      if who = '''' \<or> pm_Deleting m then False
      else if \<not> EqualFold (pm_PowerState m) PowerHalted then False
      else if power \<noteq> ''Running'' \<and> power \<noteq> '''' then False
      else case pm_lookup machines who of None \<Rightarrow> True | Some pre \<Rightarrow> preemptorReleased pre)"

definition resume_key :: "Resume \<Rightarrow> string" where
  "resume_key r = rsm_Namespace r @ ''/'' @ rsm_Name r"

definition ResumePlan :: "PMachine list \<Rightarrow> Resume list" where
  "ResumePlan machines = sort_by (\<lambda>a b. resume_key a < resume_key b)
     (map (\<lambda>m. \<lparr>rsm_Namespace = pm_Namespace m, rsm_Name = pm_Name m, rsm_Power = ''Running''\<rparr>)
       (filter (may_resume machines) machines))"

section \<open>Patches\<close>

text \<open>
  A merge patch of the two parts preemption writes: the power state, and annotations to
  set or, with null, to remove. Applying it is what the API server does with it.
\<close>

record PowerPatch =
  pp_powerState :: string
  pp_annotations :: "(string \<times> string option) list"

definition HaltPatch :: "Decision \<Rightarrow> PowerPatch" where
  "HaltPatch d = \<lparr>pp_powerState = PowerHalted,
     pp_annotations = [(AnnPreemptedBy, Some (Preemptor d)), (AnnPreemptedPower, Some (PreviousPower d))]\<rparr>"

definition ResumePatch :: "Resume \<Rightarrow> PowerPatch" where
  "ResumePatch r = \<lparr>pp_powerState = rsm_Power r, pp_annotations = [(AnnPreemptedBy, None), (AnnPreemptedPower, None)]\<rparr>"

fun patch_map :: "smap \<Rightarrow> (string \<times> string option) list \<Rightarrow> smap" where
  "patch_map m [] = m"
| "patch_map m ((k, Some v) # ps) = patch_map (mput m k v) ps"
| "patch_map m ((k, None) # ps) = patch_map (filter (\<lambda>e. fst e \<noteq> k) m) ps"

definition apply_power_patch :: "PowerPatch \<Rightarrow> Machine \<Rightarrow> Machine" where
  "apply_power_patch p m = m\<lparr>
     mach_Metadata := (mach_Metadata m)\<lparr>meta_Annotations := patch_map (m_annotations m) (pp_annotations p)\<rparr>,
     mach_Spec := (mach_Spec m)\<lparr>spec_PowerState := pp_powerState p\<rparr>\<rparr>"

definition preemptView :: "Machine \<Rightarrow> PMachine" where
  "preemptView m = \<lparr>pm_Namespace = Namespace m, pm_Name = m_name m, pm_Tenant = spec_Tenant (mach_Spec m),
     pm_Priority = m_priority m, pm_NodeName = m_node m, pm_PowerState = spec_PowerState (mach_Spec m),
     pm_Phase = m_phase m, pm_Annotations = m_annotations m, pm_Deleting = m_deleted m\<rparr>"

section \<open>The controller's pass\<close>

datatype PreemptCall = CallHalt string string PowerPatch | CallResume string string PowerPatch

definition machine_by_key :: "Machine list \<Rightarrow> string \<Rightarrow> Machine option" where
  "machine_by_key machines k = map_of (rev (map (\<lambda>m. (m_key m, m)) machines)) k"

fun halt_calls :: "Machine list \<Rightarrow> BudgetState list \<Rightarrow> Decision list \<Rightarrow> PreemptCall list" where
  "halt_calls machines states [] = []"
| "halt_calls machines states (d # ds) =
     (case machine_by_key machines (VictimNamespace d @ ''/'' @ VictimName d) of
        None \<Rightarrow> halt_calls machines states ds
      | Some victim \<Rightarrow>
          let (blocker, states') = AdmitDisruption states victim in
          if blocker \<noteq> '''' then halt_calls machines states' ds
          else CallHalt (VictimNamespace d) (VictimName d) (HaltPatch d) # halt_calls machines states' ds)"

definition preemptForPending ::
  "Machine list \<Rightarrow> Machine list \<Rightarrow> MachineMigration list \<Rightarrow> (MachineDisruptionBudget list) res \<Rightarrow> PreemptCall list" where
  \<comment> \<open>the last argument is what listing the budgets answers; the result is the patches sent, a
      failed one is only logged\<close>
  "preemptForPending failed machines migrations budgets =
     (let migrating = in_flight migrations;
          views = map preemptView machines;
          states = res_val [] (LoadBudgetStates (res_val [] budgets) machines migrations)
      in halt_calls machines states (Plan (map preemptView failed) views migrating)
         @ map (\<lambda>r. CallResume (rsm_Namespace r) (rsm_Name r) (ResumePatch r)) (ResumePlan views))"

section \<open>The chosen victims\<close>

interpretation victim: weak_order better_victim
  by unfold_locales (auto simp: better_victim_def)

interpretation preemptors: weak_order preemptor_before
  by unfold_locales (auto simp: preemptor_before_def split: if_splits)

interpretation resumes: key_order resume_key .

lemma pick_from_Some:
  "pick_from (Some b) cs = Some v \<Longrightarrow> v \<in> insert b (set cs) \<and> (\<forall>c \<in> insert b (set cs). \<not> better_victim c v)"
proof (induction cs arbitrary: b)
  case Nil
  then show ?case by (auto simp: victim.lt_irrefl)
next
  case (Cons c cs)
  show ?case
  proof (cases "better_victim c b")
    case True
    with Cons have IH: "v \<in> insert c (set cs)" "\<forall>x \<in> insert c (set cs). \<not> better_victim x v" by auto
    with True have "\<not> better_victim b v" using victim.lt_trans [of c b v] by blast
    with IH show ?thesis by auto
  next
    case False
    with Cons have IH: "v \<in> insert b (set cs)" "\<forall>x \<in> insert b (set cs). \<not> better_victim x v" by auto
    with False have "\<not> better_victim c v" using victim.lt_split [of c v b] by blast
    with IH show ?thesis by auto
  qed
qed

lemma pick_from_not_None: "pick_from (Some b) cs \<noteq> None"
  by (induction cs arbitrary: b) auto

lemma pickVictim_Some:
  assumes "pickVictim p candidates migrating used = Some v"
  shows "v \<in> set candidates" "victimOK p migrating used v"
    "\<forall>c \<in> set candidates. victimOK p migrating used c \<longrightarrow> \<not> better_victim c v"
proof -
  obtain b cs where f: "filter (victimOK p migrating used) candidates = b # cs"
    using assms by (cases "filter (victimOK p migrating used) candidates") (auto simp: pickVictim_def)
  then have s: "insert b (set cs) = {c \<in> set candidates. victimOK p migrating used c}"
    by (metis list.simps(15) set_filter)
  have "pick_from (Some b) cs = Some v" using assms f by (simp add: pickVictim_def)
  from pick_from_Some [OF this] s show "v \<in> set candidates" "victimOK p migrating used v"
    "\<forall>c \<in> set candidates. victimOK p migrating used c \<longrightarrow> \<not> better_victim c v"
    by auto
qed

lemma pickVictim_None:
  "pickVictim p candidates migrating used = None \<longleftrightarrow> (\<forall>c \<in> set candidates. \<not> victimOK p migrating used c)"
proof -
  have "pickVictim p candidates migrating used = None \<longleftrightarrow> filter (victimOK p migrating used) candidates = []"
    by (cases "filter (victimOK p migrating used) candidates") (simp_all add: pickVictim_def pick_from_not_None)
  then show ?thesis by (simp add: filter_empty_conv)
qed

definition victim_key :: "Decision \<Rightarrow> string" where
  "victim_key d = VictimNamespace d @ ''/'' @ VictimName d"

definition decided_for :: "PMachine list \<Rightarrow> PMachine list \<Rightarrow> string list \<Rightarrow> string list \<Rightarrow> Decision \<Rightarrow> bool" where
  \<comment> \<open>the decision halts, for a preemptor, the candidate it prefers among those it may halt\<close>
  "decided_for ps candidates migrating used d \<longleftrightarrow>
     (\<exists>p \<in> set ps. \<exists>v \<in> set candidates. Preemptor d = pm_key p \<and> victim_key d = pm_key v
        \<and> VictimNamespace d = pm_Namespace v \<and> VictimName d = pm_Name v \<and> PreviousPower d = or_running (pm_PowerState v)
        \<and> wants p \<and> \<not> pm_Deleting p \<and> pm_NodeName p = ''''
        \<and> victimOK p migrating used v
        \<and> (\<forall>c \<in> set candidates. victimOK p migrating used c \<longrightarrow> \<not> better_victim c v))"

lemma victimOK_used: "set used = set used' \<Longrightarrow> victimOK p migrating used = victimOK p migrating used'"
  by (auto simp: victimOK_def fun_eq_iff)

lemma decided_for_used:
  assumes "set used = set used'" "set ps \<subseteq> set ps'" "decided_for ps candidates migrating used d"
  shows "decided_for ps' candidates migrating used' d"
  using assms(2,3) unfolding decided_for_def victimOK_used [OF assms(1)]
  by (meson subsetD)

lemma victimOK_fresh: "victimOK p migrating used v \<Longrightarrow> pm_key v \<notin> set used"
  by (simp add: victimOK_def split: if_splits)

lemma decided_for_fresh: "decided_for ps candidates migrating used d \<Longrightarrow> victim_key d \<notin> set used"
  by (auto simp: decided_for_def dest: victimOK_fresh)

lemma plan_loop_skip:
  "\<not> wants p \<or> pm_Deleting p \<or> pm_NodeName p \<noteq> '''' \<or> pickVictim p candidates migrating used = None \<Longrightarrow>
   plan_loop (p # ps) candidates migrating used = plan_loop ps candidates migrating used"
  by auto

lemma plan_loop_decided:
  "i < length (plan_loop ps candidates migrating used) \<Longrightarrow>
   decided_for ps candidates migrating (map victim_key (take i (plan_loop ps candidates migrating used)) @ used)
     (plan_loop ps candidates migrating used ! i)"
proof (induction ps arbitrary: used i)
  case (Cons p ps)
  show ?case
  proof (cases "\<not> wants p \<or> pm_Deleting p \<or> pm_NodeName p \<noteq> '''' \<or> pickVictim p candidates migrating used = None")
    case True
    note e = plan_loop_skip [OF this]
    have "i < length (plan_loop ps candidates migrating used)" using Cons.prems unfolding e .
    from Cons.IH [OF this] show ?thesis unfolding e
      by (rule decided_for_used [OF refl set_subset_Cons])
  next
    case False
    then obtain v where v: "pickVictim p candidates migrating used = Some v"
      and p: "wants p" "\<not> pm_Deleting p" "pm_NodeName p = ''''" by auto
    let ?d = "\<lparr>VictimNamespace = pm_Namespace v, VictimName = pm_Name v, Preemptor = pm_key p,
           PreviousPower = or_running (pm_PowerState v)\<rparr>"
    let ?rest = "plan_loop ps candidates migrating (pm_key v # used)"
    have e: "plan_loop (p # ps) candidates migrating used = ?d # ?rest" using v p by simp
    show ?thesis
    proof (cases i)
      case 0
      have "decided_for (p # ps) candidates migrating used ?d"
        unfolding decided_for_def
      proof (intro bexI conjI)
        show "v \<in> set candidates" "victimOK p migrating used v"
          "\<forall>c \<in> set candidates. victimOK p migrating used c \<longrightarrow> \<not> better_victim c v"
          by (rule pickVictim_Some [OF v])+
      qed (use p in \<open>simp_all add: victim_key_def pm_key_def\<close>)
      then show ?thesis unfolding e 0 by simp
    next
      case (Suc j)
      have "j < length ?rest" using Cons.prems unfolding e Suc by simp
      from Cons.IH [OF this]
      have "decided_for (p # ps) candidates migrating (map victim_key (take (Suc j) (?d # ?rest)) @ used) (?rest ! j)"
        by (rule decided_for_used [rotated 2]) (auto simp: victim_key_def pm_key_def)
      then show ?thesis unfolding e Suc nth_Cons_Suc .
    qed
  qed
qed simp

lemma plan_loop_distinct:
  "distinct (map victim_key (plan_loop ps candidates migrating used))
   \<and> set (map victim_key (plan_loop ps candidates migrating used)) \<inter> set used = {}"
proof -
  let ?D = "plan_loop ps candidates migrating used"
  have ne: "victim_key (?D ! i) \<notin> set (map victim_key (take i ?D) @ used)" if "i < length ?D" for i
    using plan_loop_decided [OF that] by (rule decided_for_fresh)
  have "victim_key (?D ! i) \<noteq> victim_key (?D ! j)" if "j < i" "i < length ?D" for i j
  proof -
    have "?D ! j \<in> set (take i ?D)" using that by (auto simp: in_set_conv_nth intro: exI [of _ j])
    with ne [OF that(2)] show ?thesis by auto
  qed
  then have "distinct (map victim_key ?D)"
    unfolding distinct_conv_nth length_map by (simp add: nat_neq_iff) (metis (no_types))
  moreover have "victim_key d \<notin> set used" if "d \<in> set ?D" for d
    using that ne by (auto simp: in_set_conv_nth)
  then have "set (map victim_key ?D) \<inter> set used = {}" by auto
  ultimately show ?thesis ..
qed

lemma plan_loop_length: "length (plan_loop ps candidates migrating used) \<le> length ps"
proof (induction ps arbitrary: used)
  case (Cons p ps)
  then show ?case by (simp add: le_SucI split: option.split)
qed simp

section \<open>Halting and resuming\<close>

lemma map_of_filter_keys: "map_of (filter (\<lambda>e. P (fst e)) m) k = (if P k then map_of m k else None)"
  by (induction m) auto

lemma ann_distinct [simp]: "AnnPreemptedBy \<noteq> AnnPreemptedPower" "AnnPreemptedPower \<noteq> AnnPreemptedBy"
  by (simp_all add: AnnPreemptedBy_def AnnPreemptedPower_def)

lemma halt_annotations:
  "map_of (m_annotations (apply_power_patch (HaltPatch d) m)) k =
     (if k = AnnPreemptedBy then Some (Preemptor d) else if k = AnnPreemptedPower then Some (PreviousPower d)
      else map_of (m_annotations m) k)"
  by (simp add: apply_power_patch_def HaltPatch_def)

lemma resume_annotations:
  "map_of (m_annotations (apply_power_patch (ResumePatch r) m)) k =
     (if k = AnnPreemptedBy \<or> k = AnnPreemptedPower then None else map_of (m_annotations m) k)"
  using map_of_filter_keys [of "\<lambda>k. k \<noteq> AnnPreemptedBy \<and> k \<noteq> AnnPreemptedPower" "m_annotations m" k]
  by (simp add: apply_power_patch_def ResumePatch_def)

lemma halt_power: "spec_PowerState (mach_Spec (apply_power_patch (HaltPatch d) m)) = PowerHalted"
  by (simp add: apply_power_patch_def HaltPatch_def)

lemma ResumePlan_mem:
  "r \<in> set (ResumePlan machines) \<longleftrightarrow>
     (\<exists>m \<in> set machines. may_resume machines m
        \<and> r = \<lparr>rsm_Namespace = pm_Namespace m, rsm_Name = pm_Name m, rsm_Power = ''Running''\<rparr>)"
  by (auto simp: ResumePlan_def)

lemma halt_calls_planned:
  "CallHalt ns name p \<in> set (halt_calls machines states ds) \<Longrightarrow>
   \<exists>d \<in> set ds. ns = VictimNamespace d \<and> name = VictimName d \<and> p = HaltPatch d
      \<and> machine_by_key machines (victim_key d) \<noteq> None"
  by (induction ds arbitrary: states) (auto simp: victim_key_def Let_def split: option.splits prod.splits if_splits)

lemma victimOK_iff:
  "victimOK p migrating used c \<longleftrightarrow> pm_Namespace c = pm_Namespace p \<and> pm_Name c \<noteq> pm_Name p \<and> \<not> pm_Deleting c
     \<and> pm_key c \<notin> set used \<and> pm_key c \<notin> set migrating \<and> pm_NodeName c \<noteq> '''' \<and> pm_Priority c < pm_Priority p
     \<and> policyHalt (mget (pm_Annotations c) AnnPolicy) \<and> TrimSpace (mget (pm_Annotations c) AnnPreemptedBy) = ''''
     \<and> EqualFold (or_running (pm_PowerState c)) ''Running''"
  unfolding victimOK_def by (simp add: not_le) blast

section \<open>Properties\<close>


definition sample_pm :: "string \<Rightarrow> int \<Rightarrow> string \<Rightarrow> smap \<Rightarrow> PMachine" where
  "sample_pm name prio node anns = \<lparr>pm_Namespace = ''ns'', pm_Name = name, pm_Tenant = '''', pm_Priority = prio,
     pm_NodeName = node, pm_PowerState = '''', pm_Phase = '''', pm_Annotations = anns, pm_Deleting = False\<rparr>"

definition sample_plan :: "Decision list" where
  "sample_plan = Plan [sample_pm ''hi'' 10 '''' [(AnnPreempt, ''true'')]]
     [sample_pm ''b'' 2 ''n'' [(AnnPolicy, ''Halt'')], sample_pm ''a'' 1 ''n'' [(AnnPolicy, ''halted'')], sample_pm ''c'' 0 ''n'' []] []"

lemma sample_plan_eval: "sample_plan = [\<lparr>VictimNamespace = ''ns'', VictimName = ''a'', Preemptor = ''ns/hi'', PreviousPower = ''Running''\<rparr>]"
  by code_simp


lemma preemptorReleased_iff:
  "preemptorReleased p \<longleftrightarrow> pm_Deleting p \<or> EqualFold (or_running (pm_PowerState p)) ''Halted''
     \<or> EqualFold (or_running (pm_PowerState p)) ''Stopped'' \<or> (pm_NodeName p = '''' \<and> \<not> EqualFold (pm_Phase p) ''Pending'')"
  by (simp add: preemptorReleased_def PowerHalted_def)

lemma may_resume_marked:
  assumes "TrimSpace (mget (pm_Annotations m) AnnPreemptedBy) \<noteq> ''''" "\<not> pm_Deleting m" "EqualFold (pm_PowerState m) ''Halted''"
    "mget (pm_Annotations m) AnnPreemptedPower \<in> {'''', ''Running''}"
  shows "may_resume machines m \<longleftrightarrow>
    (case pm_lookup machines (TrimSpace (mget (pm_Annotations m) AnnPreemptedBy)) of None \<Rightarrow> True | Some pre \<Rightarrow> preemptorReleased pre)"
proof -
  have "or_running (mget (pm_Annotations m) AnnPreemptedPower) = ''Running''" using assms(4) by (auto simp: or_running_def)
  with assms(1-3) show ?thesis by (simp add: may_resume_def PowerHalted_def)
qed

text \<open>
  A halted Machine is resumed exactly when it should be: the plan resumes a Machine that
  records its preemptor and a power state to restore of \<open>Running\<close>, that is halted and not
  being deleted, and whose preemptor is gone, being deleted, halted or stopped itself, or
  neither pending nor on a node. While the preemptor waits for a node or runs on one, the
  Machine stays halted.
\<close>

theorem resume_iff_preemptor_released:
  assumes "m \<in> set machines" and "TrimSpace (mget (pm_Annotations m) AnnPreemptedBy) \<noteq> ''''"
    and "\<not> pm_Deleting m" and "EqualFold (pm_PowerState m) ''Halted''"
    and "mget (pm_Annotations m) AnnPreemptedPower \<in> {'''', ''Running''}"
    and "distinct (map pm_key machines)"
  shows "\<lparr>rsm_Namespace = pm_Namespace m, rsm_Name = pm_Name m, rsm_Power = ''Running''\<rparr> \<in> set (ResumePlan machines)
    \<longleftrightarrow> (\<forall>pre \<in> set machines. pm_key pre = TrimSpace (mget (pm_Annotations m) AnnPreemptedBy) \<longrightarrow>
           pm_Deleting pre \<or> EqualFold (or_running (pm_PowerState pre)) ''Halted''
           \<or> EqualFold (or_running (pm_PowerState pre)) ''Stopped''
           \<or> (pm_NodeName pre = '''' \<and> \<not> EqualFold (pm_Phase pre) ''Pending''))"
proof -
  let ?who = "TrimSpace (mget (pm_Annotations m) AnnPreemptedBy)"
  have lk: "pm_lookup machines ?who = Some pre \<longleftrightarrow> pre \<in> set machines \<and> pm_key pre = ?who" for pre
    using assms(6) by (auto simp: pm_lookup_def map_of_eq_Some_iff rev_map [symmetric] o_def intro: rev_image_eqI)
  have same: "m' = m" if "m' \<in> set machines" "pm_Namespace m' = pm_Namespace m" "pm_Name m' = pm_Name m" for m'
    using that assms(1,6) by (auto simp: pm_key_def distinct_map inj_on_def)
  have "\<lparr>rsm_Namespace = pm_Namespace m, rsm_Name = pm_Name m, rsm_Power = ''Running''\<rparr> \<in> set (ResumePlan machines)
      \<longleftrightarrow> may_resume machines m"
  proof
    assume "\<lparr>rsm_Namespace = pm_Namespace m, rsm_Name = pm_Name m, rsm_Power = ''Running''\<rparr> \<in> set (ResumePlan machines)"
    then obtain m' where m': "m' \<in> set machines" "may_resume machines m'" "pm_Namespace m' = pm_Namespace m" "pm_Name m' = pm_Name m"
      by (auto simp: ResumePlan_mem)
    with same have "m' = m" by blast
    with m' show "may_resume machines m" by simp
  next
    assume "may_resume machines m"
    with assms(1) show "\<lparr>rsm_Namespace = pm_Namespace m, rsm_Name = pm_Name m, rsm_Power = ''Running''\<rparr> \<in> set (ResumePlan machines)"
      unfolding ResumePlan_mem by blast
  qed
  also have "\<dots> \<longleftrightarrow> (\<forall>pre. pm_lookup machines ?who = Some pre \<longrightarrow> preemptorReleased pre)"
    unfolding may_resume_marked [OF assms(2-5)] by (auto split: option.split)
  also have "\<dots> \<longleftrightarrow> (\<forall>pre \<in> set machines. pm_key pre = ?who \<longrightarrow> preemptorReleased pre)"
    unfolding lk by blast
  finally show ?thesis unfolding preemptorReleased_iff .
qed

definition halted_pm :: PMachine where
  "halted_pm = (sample_pm ''a'' 1 ''n'' [(AnnPreemptedBy, ''ns/hi''), (AnnPreemptedPower, ''Running'')])\<lparr>pm_PowerState := ''Halted''\<rparr>"

theorem resume_iff_preemptor_released_witness:
  "\<lparr>rsm_Namespace = ''ns'', rsm_Name = ''a'', rsm_Power = ''Running''\<rparr> \<in> set (ResumePlan [halted_pm])
   \<and> \<lparr>rsm_Namespace = ''ns'', rsm_Name = ''a'', rsm_Power = ''Running''\<rparr> \<notin> set (ResumePlan [halted_pm, sample_pm ''hi'' 10 ''n'' []])"
proof -
  have t: "TrimSpace ''ns/hi'' = ''ns/hi''" by code_simp
  have f: "\<not> EqualFold ''Running'' ''Halted''" "\<not> EqualFold ''Running'' ''Stopped''" by code_simp+
  note r = resume_iff_preemptor_released [of halted_pm]
  show ?thesis
    using r [of "[halted_pm]"] r [of "[halted_pm, sample_pm ''hi'' 10 ''n'' []]"]
    by (simp add: halted_pm_def sample_pm_def mget_def t f pm_key_def or_running_def)
qed

text \<open>
  Halting frees the node and can be undone: with the halt patch applied, a Machine no
  longer counts towards its node's load and carries its preemptor and the power state to
  restore; with the resume patch applied after it, the Machine runs again and its
  annotations are those it had, except that both records of preemption are gone.
\<close>

theorem halt_frees_capacity_and_resume_restores:
  "\<not> consumes_capacity (apply_power_patch (HaltPatch d) m)
   \<and> map_of (m_annotations (apply_power_patch (HaltPatch d) m)) AnnPreemptedBy = Some (Preemptor d)
   \<and> map_of (m_annotations (apply_power_patch (HaltPatch d) m)) AnnPreemptedPower = Some (PreviousPower d)
   \<and> DesiredPowerState (apply_power_patch (ResumePatch \<lparr>rsm_Namespace = ns, rsm_Name = name, rsm_Power = ''Running''\<rparr>)
        (apply_power_patch (HaltPatch d) m)) = ''Running''
   \<and> map_of (m_annotations (apply_power_patch (ResumePatch r) (apply_power_patch (HaltPatch d) m)))
       = (map_of (m_annotations m))(AnnPreemptedBy := None, AnnPreemptedPower := None)"
proof (intro conjI)
  show "\<not> consumes_capacity (apply_power_patch (HaltPatch d) m)"
    by (simp add: consumes_capacity_def DesiredPowerState_def halt_power PowerHalted_def)
  show "map_of (m_annotations (apply_power_patch (ResumePatch r) (apply_power_patch (HaltPatch d) m)))
       = (map_of (m_annotations m))(AnnPreemptedBy := None, AnnPreemptedPower := None)"
    by (rule ext) (simp add: resume_annotations halt_annotations)
qed (simp_all add: halt_annotations, simp add: apply_power_patch_def ResumePatch_def DesiredPowerState_def)

text \<open>The Machines a list of calls halts, and that they are the admitted ones.\<close>

definition halted_machines :: "Machine list \<Rightarrow> PreemptCall list \<Rightarrow> Machine list" where
  "halted_machines machines calls = List.map_filter
     (\<lambda>c. case c of CallHalt ns name _ \<Rightarrow> machine_by_key machines (ns @ ''/'' @ name) | CallResume _ _ _ \<Rightarrow> None) calls"

definition victims :: "Machine list \<Rightarrow> Decision list \<Rightarrow> Machine list" where
  "victims machines ds = List.map_filter (\<lambda>d. machine_by_key machines (victim_key d)) ds"

lemma halted_machines_append: "halted_machines machines (xs @ ys) = halted_machines machines xs @ halted_machines machines ys"
  by (simp add: halted_machines_def List.map_filter_def)

lemma halted_machines_resumes: "halted_machines machines (map (\<lambda>r. CallResume (f r) (g r) (h r)) rs) = []"
  by (induction rs) (simp_all add: halted_machines_def List.map_filter_def)

lemma halted_machines_halts:
  "halted_machines machines (halt_calls machines states ds) = fst (admit_run AdmitDisruption states (victims machines ds))"
proof (induction ds arbitrary: states)
  case Nil
  then show ?case by (simp add: halted_machines_def victims_def List.map_filter_def)
next
  case (Cons d ds)
  show ?case
  proof (cases "machine_by_key machines (victim_key d)")
    case None
    with Cons show ?thesis by (simp add: victims_def List.map_filter_def victim_key_def)
  next
    case (Some m)
    have "halted_machines machines (CallHalt (VictimNamespace d) (VictimName d) p # cs) = m # halted_machines machines cs" for p cs
      using Some by (simp add: halted_machines_def List.map_filter_def victim_key_def)
    moreover have "victims machines (d # ds) = m # victims machines ds"
      using Some by (simp add: victims_def List.map_filter_def)
    moreover have "machine_by_key machines (VictimNamespace d @ ''/'' @ VictimName d) = Some m"
      using Some by (simp add: victim_key_def)
    ultimately show ?thesis using Cons.IH by (simp add: Let_def split_beta)
  qed
qed

lemma preemptForPending_halted:
  "halted_machines machines (preemptForPending failed machines migrations budgets) =
     fst (admit_run AdmitDisruption (res_val [] (LoadBudgetStates (res_val [] budgets) machines migrations))
       (victims machines (Plan (map preemptView failed) (map preemptView machines) (in_flight migrations))))"
  by (simp add: preemptForPending_def Let_def halted_machines_append halted_machines_resumes halted_machines_halts)

lemma admit_run_no_budgets: "admit_run AdmitDisruption [] ms = (ms, [])"
  by (induction ms) (simp_all add: AdmitDisruption_def)


definition pre_machine :: "string \<Rightarrow> int \<Rightarrow> string \<Rightarrow> smap \<Rightarrow> Machine" where
  "pre_machine name prio node anns = Machine0\<lparr>
     mach_Metadata := ObjectMeta0\<lparr>meta_Name := name, meta_Labels := [(''app'', ''web'')], meta_Annotations := anns\<rparr>,
     mach_Spec := (mach_Spec Machine0)\<lparr>spec_NodeName := node, spec_Priority := prio\<rparr>,
     mach_Status := (mach_Status Machine0)\<lparr>st_Phase := ''Running''\<rparr>\<rparr>"

definition pre_hi :: Machine where "pre_hi = pre_machine ''hi'' 10 '''' [(AnnPreempt, ''true'')]"
definition pre_lo :: Machine where "pre_lo = pre_machine ''lo'' 1 ''n'' [(AnnPolicy, ''Halt'')]"

lemma pre_plan: "Plan [preemptView pre_hi] [preemptView pre_lo] [] =
    [\<lparr>VictimNamespace = ''default'', VictimName = ''lo'', Preemptor = ''default/hi'', PreviousPower = ''Running''\<rparr>]"
  by code_simp

lemma pre_victims: "victims [pre_lo] (Plan [preemptView pre_hi] [preemptView pre_lo] []) = [pre_lo]"
  unfolding pre_plan by code_simp

lemma pre_matches: "budget_matches (web_budget x) pre_lo"
  by (simp add: budget_matches_def web_budget_def pre_lo_def pre_machine_def LabelsMatch_def mget_def)

lemma pre_budget_one: "LoadBudgetStates [web_budget ''1''] [pre_lo] [] =
    Ok [\<lparr>bs_budget = web_budget ''1'', bs_total = 1, bs_healthy = 1, bs_desired = 1, bs_allowed = 0\<rparr>]"
  by (simp add: disruption_eval pre_lo_def pre_machine_def)


text \<open>
  When the budgets cannot be loaded, preemption goes on without any: if listing them
  fails, or a single one of them has a value that does not parse, every planned victim that
  exists is halted, whatever the other budgets allow.
\<close>

theorem preemption_without_budgets:
  assumes "(\<exists>e. budgets = Err e) \<or> (\<exists>bs e. budgets = Ok bs \<and> LoadBudgetStates bs machines migrations = Err e)"
  shows "halted_machines machines (preemptForPending failed machines migrations budgets)
    = victims machines (Plan (map preemptView failed) (map preemptView machines) (in_flight migrations))"
  using assms unfolding preemptForPending_halted by (auto simp: admit_run_no_budgets)

theorem preemption_without_budgets_witness:
  "halted_machines [pre_lo] (preemptForPending [pre_hi] [pre_lo] [] (Ok [web_budget ''1'', web_budget ''''])) = [pre_lo]"
proof -
  have "\<exists>e. LoadBudgetStates [web_budget ''1'', web_budget ''''] [pre_lo] [] = Err e"
    by (simp add: disruption_eval pre_lo_def pre_machine_def)
  then have "(\<exists>e. (Ok [web_budget ''1'', web_budget ''''] :: MachineDisruptionBudget list res) = Err e)
      \<or> (\<exists>bs e. Ok [web_budget ''1'', web_budget ''''] = Ok bs \<and> LoadBudgetStates bs [pre_lo] [] = Err e)" by blast
  from preemption_without_budgets [OF this, of "[pre_hi]"] show ?thesis
    by (simp add: in_flight_def pre_victims del: LoadBudgetStates.simps)
qed

end
