(* ===== verification/Migration_Policy.thy ===== *)
theory Migration_Policy
  imports Admission
begin

text \<open>
  Migration policies, \<open>internal/controller/migrationpolicy.go\<close> with the objects of
  \<open>internal/model/migrationpolicy.go\<close>, and the active phases of
  \<open>internal/controller/controller.go\<close>: how many migrations of the Machines a policy selects
  are active, the admission of one more, and the default bandwidth.
\<close>

definition isActiveMigrationPhase :: "string \<Rightarrow> bool" where
  "isActiveMigrationPhase phase =
     (phase \<in> {''Starting'', ''Running'', ''Cutover'', ''Adopting'', ''Stopping'', ''Restarting'', ''NeedsRecovery''})"

record MigrationPolicy =
  mp_Metadata :: ObjectMeta
  mp_Selector :: smap
  mp_BandwidthMbps :: nat
  mp_MaxConcurrent :: int

record MigrationPolicyState =
  mps_policy :: MigrationPolicy
  mps_active :: int

definition last_with_key :: "Machine list \<Rightarrow> string \<Rightarrow> Machine option" where
  \<comment> \<open>\<open>machineByKey\<close>: a later Machine of the same key overwrites an earlier one\<close>
  "last_with_key machines k = (case filter (\<lambda>m. m_key m = k) machines of [] \<Rightarrow> None | ms \<Rightarrow> Some (last ms))"

definition policy_counts :: "Machine list \<Rightarrow> MigrationPolicy \<Rightarrow> MachineMigration \<Rightarrow> bool" where
  "policy_counts machines p mig =
     (\<not> (mm_ns mig \<noteq> meta_Namespace (mp_Metadata p) \<or> \<not> isActiveMigrationPhase (mm_phase mig))
      \<and> (case last_with_key machines (mm_ns mig @ ''/'' @ mig_MachineName (mm_Spec mig)) of
           None \<Rightarrow> False | Some m \<Rightarrow> LabelsMatch (m_labels m) (mp_Selector p)))"

definition LoadMigrationPolicyStates :: "MigrationPolicy list \<Rightarrow> Machine list \<Rightarrow> MachineMigration list \<Rightarrow> MigrationPolicyState list" where
  "LoadMigrationPolicyStates policies machines migrations =
     map (\<lambda>p. \<lparr>mps_policy = p, mps_active = int (length (filter (policy_counts machines p) migrations))\<rparr>) policies"

definition policy_applies :: "MigrationPolicyState \<Rightarrow> Machine \<Rightarrow> bool" where
  "policy_applies st m = (\<not> (Namespace m \<noteq> meta_Namespace (mp_Metadata (mps_policy st))
      \<or> \<not> LabelsMatch (m_labels m) (mp_Selector (mps_policy st))))"

fun policy_blocker :: "MigrationPolicyState list \<Rightarrow> Machine \<Rightarrow> string" where
  "policy_blocker [] m = ''''"
| "policy_blocker (st # sts) m =
     (if \<not> policy_applies st m then policy_blocker sts m
      else if 0 < mp_MaxConcurrent (mps_policy st) \<and> mp_MaxConcurrent (mps_policy st) \<le> mps_active st then
        ''MigrationPolicy '' @ meta_Namespace (mp_Metadata (mps_policy st)) @ ''/''
          @ meta_Name (mp_Metadata (mps_policy st)) @ '': maxConcurrent reached''
      else policy_blocker sts m)"

definition spend_policy :: "MigrationPolicyState \<Rightarrow> Machine \<Rightarrow> MigrationPolicyState" where
  "spend_policy st m = st\<lparr>mps_active := mps_active st + 1\<rparr>"

definition AdmitMigrationPolicy :: "MigrationPolicyState list \<Rightarrow> Machine \<Rightarrow> string \<times> MigrationPolicyState list" where
  "AdmitMigrationPolicy states m = (let b = policy_blocker states m in
     if b \<noteq> '''' then (b, states)
     else ('''', map (\<lambda>st. if policy_applies st m then spend_policy st m else st) states))"

fun BandwidthMbpsFromPolicies :: "MigrationPolicyState list \<Rightarrow> Machine \<Rightarrow> nat" where
  "BandwidthMbpsFromPolicies [] m = 0"
| "BandwidthMbpsFromPolicies (st # sts) m =
     (if \<not> policy_applies st m then BandwidthMbpsFromPolicies sts m
      else if 0 < mp_BandwidthMbps (mps_policy st) then mp_BandwidthMbps (mps_policy st)
      else BandwidthMbpsFromPolicies sts m)"

definition loadMigrationPolicyStates :: "(MigrationPolicy list) res \<Rightarrow> Machine list \<Rightarrow> MachineMigration list \<Rightarrow> MigrationPolicyState list" where
  \<comment> \<open>the first argument is what the list call answers; an error leaves the tick without policies\<close>
  "loadMigrationPolicyStates policies machines migrations =
     (case policies of Inl _ \<Rightarrow> [] | Inr ps \<Rightarrow> LoadMigrationPolicyStates ps machines migrations)"

section \<open>Admission spends slots\<close>

lemma policy_blocker_none:
  "policy_blocker sts m = '''' \<longleftrightarrow>
   (\<forall>st \<in> set sts. policy_applies st m \<longrightarrow> mp_MaxConcurrent (mps_policy st) \<le> 0 \<or> mps_active st < mp_MaxConcurrent (mps_policy st))"
  by (induction sts) (auto simp: not_less not_le)

lemma spend_policy_simps [simp]:
  "mps_policy (spend_policy st m) = mps_policy st" "mps_active (spend_policy st m) = mps_active st + 1"
  "policy_applies (spend_policy st m) = policy_applies st"
  by (auto simp: spend_policy_def policy_applies_def)

interpretation policy: spend_tracker AdmitMigrationPolicy policy_applies
  "\<lambda>st m. mp_MaxConcurrent (mps_policy st) \<le> 0 \<or> mps_active st < mp_MaxConcurrent (mps_policy st)" spend_policy
  by unfold_locales (auto simp: AdmitMigrationPolicy_def Let_def policy_blocker_none split: if_splits)

lemma policy_run:
  "list_all2 (\<lambda>st st'. mps_policy st' = mps_policy st
       \<and> mps_active st' = mps_active st + int (length (filter (policy_applies st) (fst (admit_run AdmitMigrationPolicy sts ms))))
       \<and> (0 < mp_MaxConcurrent (mps_policy st) \<longrightarrow> mps_active st' \<le> max (mps_active st) (mp_MaxConcurrent (mps_policy st))))
     sts (snd (admit_run AdmitMigrationPolicy sts ms))"
proof -
  let ?P = "\<lambda>st st' as. mps_policy st' = mps_policy st \<and> policy_applies st' = policy_applies st
       \<and> mps_active st' = mps_active st + int (length (filter (policy_applies st) as))
       \<and> (0 < mp_MaxConcurrent (mps_policy st) \<longrightarrow> mps_active st' \<le> max (mps_active st) (mp_MaxConcurrent (mps_policy st)))"
  have "list_all2 (\<lambda>st st'. ?P st st' (fst (admit_run AdmitMigrationPolicy sts ms))) sts (snd (admit_run AdmitMigrationPolicy sts ms))"
    by (rule policy.run_rel [of sts ?P]) auto
  then show ?thesis by (rule list_all2_mono) blast
qed

section \<open>Properties\<close>

text \<open>
  A migration policy with a positive \<open>maxConcurrent\<close> is never exceeded by admissions:
  counting the migrations of its namespace that were active when the tick began and all the
  Machines admitted since, in any order, the policy has at most \<open>maxConcurrent\<close> slots taken,
  or as many as were already taken at the start if those were more.
\<close>

theorem migration_policy_cap:
  assumes "admit_run AdmitMigrationPolicy (LoadMigrationPolicyStates policies machines migrations) ms = (as, states')"
    and "i < length policies" and "0 < mp_MaxConcurrent (policies ! i)"
  shows "int (length (filter (policy_counts machines (policies ! i)) migrations))
       + int (length (filter (\<lambda>m. Namespace m = meta_Namespace (mp_Metadata (policies ! i))
            \<and> LabelsMatch (m_labels m) (mp_Selector (policies ! i))) as))
     \<le> max (int (length (filter (policy_counts machines (policies ! i)) migrations))) (mp_MaxConcurrent (policies ! i))"
proof -
  let ?st = "\<lparr>mps_policy = policies ! i, mps_active = int (length (filter (policy_counts machines (policies ! i)) migrations))\<rparr>"
  have st: "LoadMigrationPolicyStates policies machines migrations ! i = ?st" using assms(2) by (simp add: LoadMigrationPolicyStates_def)
  have f: "policy_applies ?st = (\<lambda>m. Namespace m = meta_Namespace (mp_Metadata (policies ! i))
            \<and> LabelsMatch (m_labels m) (mp_Selector (policies ! i)))"
    by (auto simp: policy_applies_def)
  have "i < length (LoadMigrationPolicyStates policies machines migrations)" using assms(2) by (simp add: LoadMigrationPolicyStates_def)
  with policy_run [of "LoadMigrationPolicyStates policies machines migrations" ms] assms(1,3)
  show ?thesis by (auto simp: list_all2_conv_all_nth st f)
qed

definition cap_policy :: MigrationPolicy where
  "cap_policy = \<lparr>mp_Metadata = ObjectMeta0\<lparr>meta_Name := ''p'', meta_Namespace := ''default''\<rparr>,
     mp_Selector = [(''app'', ''web'')], mp_BandwidthMbps = 0, mp_MaxConcurrent = 1\<rparr>"

definition cap_machine :: "string \<Rightarrow> Machine" where
  "cap_machine name = Machine0\<lparr>mach_Metadata := ObjectMeta0\<lparr>meta_Name := name, meta_Labels := [(''app'', ''web'')]\<rparr>\<rparr>"

theorem migration_policy_cap_witness:
  "int (length (filter (policy_counts [] cap_policy) []))
     + int (length (filter (\<lambda>m. Namespace m = ''default'' \<and> LabelsMatch (m_labels m) [(''app'', ''web'')]) [cap_machine ''a''])) \<le> 1"
proof -
  have r: "admit_run AdmitMigrationPolicy (LoadMigrationPolicyStates [cap_policy] [] []) [cap_machine ''a'', cap_machine ''b'']
      = ([cap_machine ''a''], [\<lparr>mps_policy = cap_policy, mps_active = 1\<rparr>])"
    by (simp add: AdmitMigrationPolicy_def LoadMigrationPolicyStates_def policy_applies_def cap_policy_def cap_machine_def
        spend_policy_def Namespace_def meta_ns_def DefaultNamespace_def LabelsMatch_def mget_def Machine0_def ObjectMeta0_def)
  show ?thesis using migration_policy_cap [OF r, of 0] by (simp add: cap_policy_def)
qed

end
