(* ===== verification/Migration_Controller.thy ===== *)
theory Migration_Controller
  imports Scheduler Preempt Migration_Policy
begin

text \<open>
  The controller's side of a Machine migration: \<open>reconcileMigration\<close> and the loop around it in
  \<open>internal/controller/controller.go\<close>, the preflight checks of \<open>preflight.go\<close>, and the node
  labels of \<open>labels.go\<close> and \<open>internal/model/labels.go\<close>.

  The API server is a parameter, \<open>api\<close>: the error, if any, it answers to a call. The operations
  return their own error, the calls they make in order, and the load and policy states they
  leave to the rest of the tick.
\<close>

section \<open>Labels and calls\<close>

definition AssignedNodeLabel :: string where "AssignedNodeLabel = ''kairon.zyvor.dev/assigned-node''"
definition MigrationSourceNodeLabel :: string where "MigrationSourceNodeLabel = ''kairon.zyvor.dev/migration-source-node''"
definition AnnotationAdoptOnly :: string where "AnnotationAdoptOnly = ''kairon.zyvor.dev/adopt-only''"
definition AnnotationMigrationRef :: string where "AnnotationMigrationRef = ''kairon.zyvor.dev/migration''"

definition AssignedNodeLabelSelector :: "string \<Rightarrow> string" where
  "AssignedNodeLabelSelector nodeName = AssignedNodeLabel @ ''='' @ nodeName"

definition MigrationSourceNodeLabelSelector :: "string \<Rightarrow> string" where
  "MigrationSourceNodeLabelSelector nodeName = MigrationSourceNodeLabel @ ''='' @ nodeName"

definition AssignedNodeLabelValue :: "smap \<Rightarrow> string" where
  "AssignedNodeLabelValue labels = mget labels AssignedNodeLabel"

text \<open>A merge patch of a Machine: absent fields stay, an annotation or label set to None goes.\<close>

record MachinePatch =
  patch_nodeName :: "string option"
  patch_powerState :: "string option"
  patch_annotations :: "(string \<times> string option) list"
  patch_labels :: "(string \<times> string option) list"

definition NoPatch :: MachinePatch where
  "NoPatch = \<lparr>patch_nodeName = None, patch_powerState = None, patch_annotations = [], patch_labels = []\<rparr>"

definition MetadataLabelsPatchForAssignedNode :: "string \<Rightarrow> MachinePatch" where
  "MetadataLabelsPatchForAssignedNode nodeName =
     NoPatch\<lparr>patch_labels := [(AssignedNodeLabel, if nodeName = [] then None else Some nodeName)]\<rparr>"

definition MetadataLabelsPatchForMigrationSource :: "string \<Rightarrow> (string \<times> string option) list" where
  "MetadataLabelsPatchForMigrationSource nodeName = [(MigrationSourceNodeLabel, if nodeName = [] then None else Some nodeName)]"

definition apply_machine_patch :: "MachinePatch \<Rightarrow> Machine \<Rightarrow> Machine" where
  \<comment> \<open>what the API server makes of the patch\<close>
  "apply_machine_patch p m = m\<lparr>
     mach_Metadata := (mach_Metadata m)\<lparr>meta_Annotations := patch_map (m_annotations m) (patch_annotations p),
       meta_Labels := patch_map (m_labels m) (patch_labels p)\<rparr>,
     mach_Spec := (mach_Spec m)\<lparr>spec_NodeName := (case patch_nodeName p of None \<Rightarrow> m_node m | Some n \<Rightarrow> n),
       spec_PowerState := (case patch_powerState p of None \<Rightarrow> spec_PowerState (mach_Spec m) | Some s \<Rightarrow> s)\<rparr>\<rparr>"

datatype MigCall =
    CallMachine string string MachinePatch
  | CallMigStatus string string MachineMigrationStatus
  | CallMigBandwidth string string nat
  | CallMigLabels string string "(string \<times> string option) list"

fun syncAssignedNodeLabels :: "Machine list \<Rightarrow> MigCall list" where
  "syncAssignedNodeLabels [] = []"
| "syncAssignedNodeLabels (m # ms) =
     (if m_node m = AssignedNodeLabelValue (m_labels m) then syncAssignedNodeLabels ms
      else CallMachine (Namespace m) (m_name m) (MetadataLabelsPatchForAssignedNode (m_node m)) # syncAssignedNodeLabels ms)"

definition ensureMigrationSourceLabel :: "MachineMigration \<Rightarrow> string \<Rightarrow> MigCall list" where
  "ensureMigrationSourceLabel mig sourceNode =
     (if mget (meta_Labels (mm_Metadata mig)) MigrationSourceNodeLabel = sourceNode then []
      else [CallMigLabels (mm_ns mig) (mm_name mig) (MetadataLabelsPatchForMigrationSource sourceNode)])"

fun syncMigrationSourceLabels :: "MachineMigration list \<Rightarrow> MigCall list" where
  "syncMigrationSourceLabels [] = []"
| "syncMigrationSourceLabels (mig # migs) =
     (if isTerminalMigrationPhase (mm_phase mig)
        \<or> ms_SourceNode (mm_Status mig) = mget (meta_Labels (mm_Metadata mig)) MigrationSourceNodeLabel
      then syncMigrationSourceLabels migs
      else ensureMigrationSourceLabel mig (ms_SourceNode (mm_Status mig)) @ syncMigrationSourceLabels migs)"

section \<open>Preflight\<close>

definition StorageDomainLabel :: string where "StorageDomainLabel = ''kairon.zyvor.dev/storage-domain''"
definition NetworkDomainLabel :: string where "NetworkDomainLabel = ''kairon.zyvor.dev/network-domain''"
definition VFIODevicesLabel :: string where "VFIODevicesLabel = ''kairon.zyvor.dev/vfio-devices''"

definition domainMismatch :: "string \<Rightarrow> string \<Rightarrow> Node \<Rightarrow> Node \<Rightarrow> string" where
  "domainMismatch label kind source target =
     (case (map_of (node_labels source) label, map_of (node_labels target) label) of
        (Some sv, Some tv) \<Rightarrow>
          if sv = [] \<or> tv = [] then []
          else if sv \<noteq> tv then
            kind @ '' domain mismatch: source node '' @ Quote (node_name source) @ '' has '' @ label @ ''='' @ Quote sv
              @ '', target node '' @ Quote (node_name target) @ '' has '' @ label @ ''='' @ Quote tv
              @ '' -- these nodes are not asserted to share storage/network, see docs/guides/machine-fencing.md''
          else []
      | _ \<Rightarrow> [])"

definition migrationPreflight :: "Node \<Rightarrow> Node \<Rightarrow> string" where
  "migrationPreflight source target =
     (let reason = domainMismatch StorageDomainLabel ''storage'' source target in
      if reason \<noteq> [] then reason else domainMismatch NetworkDomainLabel ''network'' source target)"

definition deviceClaimsPreflight :: "Machine \<Rightarrow> Node \<Rightarrow> string \<Rightarrow> string" where
  "deviceClaimsPreflight m target strategy =
     (if spec_DeviceClaims (mach_Spec m) = [] then []
      else if strategy = ''live'' then
        ''Machine has spec.deviceClaims set -- live migration cannot carry a VFIO passthrough device's state across hosts (FluxVM has no hot-unplug/hot-plug API for this yet, see ROADMAP.md); use strategy: cold instead''
      else if TrimSpace (mget (node_labels target) VFIODevicesLabel) = [] then
        ''Machine has spec.deviceClaims set, and target node '' @ Quote (node_name target)
          @ '' is not asserted (via '' @ VFIODevicesLabel @ '') to have an equivalent device''
      else [])"

section \<open>Strategy and target\<close>

definition liveBackendEligible :: "string \<Rightarrow> bool" where
  "liveBackendEligible backend = (backend = [] \<or> backend = ''auto'' \<or> backend = ''qemu'')"

definition effectiveStrategy :: "Machine \<Rightarrow> MachineMigration \<Rightarrow> string res" where
  "effectiveStrategy m mig =
     (let strategy = ToLower (TrimSpace (mig_Strategy (mm_Spec mig)));
          strategy = (if strategy = [] then ''auto'' else strategy);
          backend = rt_Backend (spec_Runtime (mach_Spec m)) in
      if strategy = ''cold'' then Ok ''cold''
      else if strategy = ''live'' then
        (if \<not> liveBackendEligible backend
         then Err (''live migration requires qemu backend; Machine requests '' @ Quote backend)
         else Ok ''live'')
      else if strategy = ''auto'' then Ok ''cold''
      else Err (''unsupported migration strategy '' @ Quote (mig_Strategy (mm_Spec mig))))"

fun nodeByName :: "Node list \<Rightarrow> string \<Rightarrow> Node option" where
  "nodeByName [] name = None"
| "nodeByName (n # ns) name = (if node_name n = name then Some n else nodeByName ns name)"

definition migrationTarget ::
  "bool \<Rightarrow> Machine \<Rightarrow> string \<Rightarrow> string \<Rightarrow> Node list \<Rightarrow> Machine list \<Rightarrow> loadmap \<Rightarrow> string res" where
  "migrationTarget rc m requested strategy nodes machineList nodeLoad =
     (let candidates = filter (\<lambda>n. node_name n \<noteq> m_node m \<and> (requested = [] \<or> node_name n = requested)) nodes in
      if requested \<noteq> [] \<and> candidates = [] then
        Err (''target node '' @ Quote requested @ '' does not exist or is the current source node'')
      else case Choose rc m candidates machineList nodeLoad [] of
        Inl e \<Rightarrow> if requested \<noteq> [] then Err (''target node '' @ Quote requested @ '' is not eligible: '' @ e)
                 else Err (''no migration target available: '' @ e)
      | Inr target \<Rightarrow>
          (case (nodeByName nodes (m_node m), nodeByName nodes target) of
             (Some sourceNode, Some targetNode) \<Rightarrow>
               if migrationPreflight sourceNode targetNode \<noteq> [] then
                 Err (''migration preflight failed: '' @ migrationPreflight sourceNode targetNode)
               else if deviceClaimsPreflight m targetNode strategy \<noteq> [] then
                 Err (''migration preflight failed: '' @ deviceClaimsPreflight m targetNode strategy)
               else Ok target
           | _ \<Rightarrow> Ok target))"

section \<open>The load of active migrations\<close>

record MigLoad =
  ml_byNode :: "int gomap"
  ml_total :: int

definition node_count :: "MigLoad \<Rightarrow> string \<Rightarrow> int" where
  \<comment> \<open>\<open>load.byNode[n]\<close>, 0 when absent\<close>
  "node_count l n = (case map_of (ml_byNode l) n of None \<Rightarrow> 0 | Some k \<Rightarrow> k)"

definition count_node :: "string \<Rightarrow> MigLoad \<Rightarrow> MigLoad" where
  "count_node n l = l\<lparr>ml_byNode := mput (ml_byNode l) n (node_count l n + 1)\<rparr>"

definition mig_admit :: "MigLoad \<Rightarrow> string \<Rightarrow> string \<Rightarrow> MigLoad" where
  "mig_admit l sourceNode targetNode =
     (let l = l\<lparr>ml_total := ml_total l + 1\<rparr>;
          l = (if sourceNode \<noteq> [] then count_node sourceNode l else l)
      in if targetNode \<noteq> [] \<and> targetNode \<noteq> sourceNode then count_node targetNode l else l)"

definition newMigrationLoad :: "MachineMigration list \<Rightarrow> MigLoad" where
  "newMigrationLoad migrations = foldl (\<lambda>l m. if \<not> isActiveMigrationPhase (mm_phase m) then l
      else mig_admit l (ms_SourceNode (mm_Status m)) (ms_TargetNode (mm_Status m)))
    \<lparr>ml_byNode = [], ml_total = 0\<rparr> migrations"

section \<open>One migration\<close>

record MigConfig =
  cfg_RequireCapable :: bool
  cfg_MaxConcurrentCluster :: int
  cfg_MaxConcurrentPerNode :: int

record MigOut =
  out_err :: "err option"
  out_calls :: "MigCall list"
  out_load :: MigLoad
  out_policies :: "MigrationPolicyState list"

fun send :: "(MigCall \<Rightarrow> err option) \<Rightarrow> MigCall list \<Rightarrow> err option \<times> MigCall list" where
  \<comment> \<open>calls each of whose errors is returned at once\<close>
  "send api [] = (None, [])"
| "send api (c # cs) = (case api c of Some e \<Rightarrow> (Some e, [c]) | None \<Rightarrow> (case send api cs of (r, done) \<Rightarrow> (r, c # done)))"

definition mig_status :: "MachineMigration \<Rightarrow> MachineMigrationStatus \<Rightarrow> MigCall" where
  "mig_status mig status = CallMigStatus (mm_ns mig) (mm_name mig) status"

definition block_status :: "MachineMigration \<Rightarrow> string \<Rightarrow> MachineMigrationStatus" where
  "block_status mig message = (mm_Status mig)\<lparr>ms_Phase := ''Blocked'', ms_Message := message\<rparr>"

definition blockMigration :: "(MigCall \<Rightarrow> err option) \<Rightarrow> MachineMigration \<Rightarrow> string \<Rightarrow> err option \<times> MigCall list" where
  "blockMigration api mig message = send api [mig_status mig (block_status mig message)]"

definition bandwidth_calls :: "MachineMigration \<Rightarrow> Machine \<Rightarrow> MigrationPolicyState list \<Rightarrow> MigCall list" where
  "bandwidth_calls mig m ps =
     (if mig_BandwidthMbps (mm_Spec mig) = 0 \<and> 0 < BandwidthMbpsFromPolicies ps m
      then [CallMigBandwidth (mm_ns mig) (mm_name mig) (BandwidthMbpsFromPolicies ps m)] else [])"

definition start_calls :: "(MigCall \<Rightarrow> err option) \<Rightarrow> MachineMigration \<Rightarrow> Machine \<Rightarrow> string \<Rightarrow> string \<Rightarrow> err option \<times> MigCall list" where
  \<comment> \<open>the calls that start an admitted migration; the source label is best effort and comes last\<close>
  "start_calls api mig m strategy target =
     (let status = (mm_Status mig)\<lparr>ms_SourceNode := m_node m, ms_TargetNode := target, ms_EffectiveStrategy := strategy\<rparr>;
          (r, done) =
            (if strategy = ''live'' then
               send api [mig_status mig (status\<lparr>ms_Phase := ''Starting'',
                 ms_Message := ''source node agent will securely prepare the target before touching the source runtime''\<rparr>)]
             else
               send api [CallMachine (Namespace m) (m_name m) (NoPatch\<lparr>patch_powerState := Some ''Stopped''\<rparr>),
                 mig_status mig (status\<lparr>ms_Phase := ''Stopping'',
                   ms_Message := ''stopping source runtime for controlled cold evacuation''\<rparr>)])
      in (r, done @ (if r = None then ensureMigrationSourceLabel mig (m_node m) else [])))"

definition admitMigration ::
  "MigConfig \<Rightarrow> (MigCall \<Rightarrow> err option) \<Rightarrow> MachineMigration \<Rightarrow> Machine \<Rightarrow> Machine list \<Rightarrow> Node list \<Rightarrow> loadmap
     \<Rightarrow> MigLoad \<Rightarrow> MigrationPolicyState list \<Rightarrow> MigOut" where
  \<comment> \<open>the branch of \<open>reconcileMigration\<close> for a migration that has not been admitted\<close>
  "admitMigration cfg api mig m machineList nodes nodeLoad load ps =
     (let perNode = cfg_MaxConcurrentPerNode cfg; cluster = cfg_MaxConcurrentCluster cfg;
          block = (\<lambda>ps msg. case blockMigration api mig msg of (r, cs) \<Rightarrow>
             \<lparr>out_err = r, out_calls = cs, out_load = load, out_policies = ps\<rparr>) in
      if m_node m = [] then block ps ''Machine has not been scheduled yet''
      else if 0 < cluster \<and> cluster \<le> ml_total load then
        block ps (''cluster migration concurrency limit reached ('' @ show_int (ml_total load) @ '' active, max '' @ show_int cluster @ '')'')
      else if 0 < perNode \<and> perNode \<le> node_count load (m_node m) then
        block ps (''source node '' @ m_node m @ '' has reached its concurrent migration limit (''
          @ show_int (node_count load (m_node m)) @ '' active, max '' @ show_int perNode @ '')'')
      else case AdmitMigrationPolicy ps m of (blocker, ps') \<Rightarrow>
        if blocker \<noteq> [] then block ps' blocker
        else case effectiveStrategy m mig of
          Inl e \<Rightarrow> block ps' e
        | Inr strategy \<Rightarrow>
            (case migrationTarget (cfg_RequireCapable cfg) m (mig_TargetNode (mm_Spec mig)) strategy nodes machineList nodeLoad of
               Inl e \<Rightarrow> block ps' e
             | Inr target \<Rightarrow>
                 if 0 < perNode \<and> perNode \<le> node_count load target then
                   block ps' (''target node '' @ target @ '' has reached its concurrent migration limit (''
                     @ show_int (node_count load target) @ '' active, max '' @ show_int perNode @ '')'')
                 else case start_calls api mig m strategy target of (r, cs) \<Rightarrow>
                   \<lparr>out_err = r, out_calls = bandwidth_calls mig m ps' @ cs, out_load = mig_admit load (m_node m) target,
                    out_policies = ps'\<rparr>))"

definition advance_calls :: "MachineMigration \<Rightarrow> Machine \<Rightarrow> MigCall list res" where
  \<comment> \<open>the \<open>switch\<close> over the phase of an admitted migration: the calls it makes, each ending the
      step when it fails\<close>
  "advance_calls mig m =
     (let status = mm_Status mig; phase = ms_Phase status; target = ms_TargetNode status;
          to = (\<lambda>p msg. mig_status mig (status\<lparr>ms_Phase := p, ms_Message := msg\<rparr>)) in
      if phase = ''Starting'' \<or> phase = ''Running'' then Ok []
      else if phase = ''Cutover'' then
        (if ms_EffectiveStrategy status \<noteq> ''live'' then Err ''cutover phase is only valid for live migration''
         else Ok [CallMachine (Namespace m) (m_name m) (NoPatch\<lparr>patch_nodeName := Some target,
              patch_annotations := [(AnnotationAdoptOnly, Some ''true''), (AnnotationMigrationRef, Some (mm_name mig))],
              patch_labels := [(AssignedNodeLabel, Some target)]\<rparr>),
            to ''Adopting'' ''source migration completed; target is in adopt-only mode''])
      else if phase = ''Adopting'' then
        (if m_node m \<noteq> target \<or> st_NodeName (mach_Status m) \<noteq> target \<or> m_phase m \<noteq> ''Running'' then Ok []
         else Ok [CallMachine (Namespace m) (m_name m)
              (NoPatch\<lparr>patch_annotations := [(AnnotationAdoptOnly, None), (AnnotationMigrationRef, None)]\<rparr>),
            to ''Succeeded'' ''live migration completed and target runtime adopted''])
      else if phase = ''Stopping'' then
        (if m_phase m \<noteq> ''Stopped'' then Ok []
         else Ok [CallMachine (Namespace m) (m_name m) (NoPatch\<lparr>patch_nodeName := Some target, patch_powerState := Some ''Running'',
              patch_labels := [(AssignedNodeLabel, Some target)]\<rparr>),
            to ''Restarting'' ''source stopped; Machine reassigned to target''])
      else if phase = ''Restarting'' then
        (if m_node m = target \<and> st_NodeName (mach_Status m) = target \<and> m_phase m = ''Running''
         then Ok [to ''Succeeded'' ''cold migration completed''] else Ok [])
      else Err (''unknown migration status phase '' @ Quote phase))"

definition settled_phase :: "string \<Rightarrow> bool" where
  \<comment> \<open>the phases the controller leaves alone\<close>
  "settled_phase phase = (phase \<in> {''Succeeded'', ''Failed'', ''Blocked'', ''NeedsRecovery'', ''Cancelled''})"

definition reconcileMigration ::
  "MigConfig \<Rightarrow> (MigCall \<Rightarrow> err option) \<Rightarrow> MachineMigration \<Rightarrow> Machine list \<Rightarrow> Node list \<Rightarrow> loadmap
     \<Rightarrow> MigLoad \<Rightarrow> MigrationPolicyState list \<Rightarrow> MigOut" where
  "reconcileMigration cfg api mig machines nodes nodeLoad load ps =
     (let out = (\<lambda>r cs. \<lparr>out_err = r, out_calls = cs, out_load = load, out_policies = ps\<rparr>); phase = mm_phase mig in
      if settled_phase phase then out None []
      else if TrimSpace (mig_MachineName (mm_Spec mig)) = [] then out (Some ''spec.machineName is required'') []
      else case last_with_key machines (mm_ns mig @ ''/'' @ mig_MachineName (mm_Spec mig)) of
        None \<Rightarrow> out (Some (''machine '' @ mm_ns mig @ ''/'' @ mig_MachineName (mm_Spec mig) @ '' not found'')) []
      | Some m \<Rightarrow>
          if m_deleted m then out (Some ''machine is being deleted'') []
          else if phase = [] \<or> phase = ''Pending'' then admitMigration cfg api mig m machines nodes nodeLoad load ps
          else (case advance_calls mig m of
              Inl e \<Rightarrow> out (Some e) []
            | Inr cs \<Rightarrow> (case send api cs of (r, done) \<Rightarrow> out r done)))"

definition failed_status :: "MachineMigration \<Rightarrow> err \<Rightarrow> MachineMigrationStatus" where
  "failed_status mig e = (mm_Status mig)\<lparr>ms_Phase := ''Failed'', ms_Message := e\<rparr>"

fun migration_loop ::
  "MigConfig \<Rightarrow> (MigCall \<Rightarrow> err option) \<Rightarrow> Machine list \<Rightarrow> Node list \<Rightarrow> loadmap \<Rightarrow> MachineMigration list
     \<Rightarrow> MigLoad \<Rightarrow> MigrationPolicyState list \<Rightarrow> MigCall list \<times> MigLoad \<times> MigrationPolicyState list" where
  \<comment> \<open>the loop of \<open>Reconcile\<close>: an error of one migration marks it failed and the loop goes on\<close>
  "migration_loop cfg api machines nodes nodeLoad [] load ps = ([], load, ps)"
| "migration_loop cfg api machines nodes nodeLoad (mig # migs) load ps =
     (let out = reconcileMigration cfg api mig machines nodes nodeLoad load ps;
          cs = out_calls out @ (case out_err out of None \<Rightarrow> [] | Some e \<Rightarrow> [mig_status mig (failed_status mig e)]);
          (rest, load', ps') = migration_loop cfg api machines nodes nodeLoad migs (out_load out) (out_policies out)
      in (cs @ rest, load', ps'))"

definition patchMigrationPolicyStatuses :: "MigrationPolicyState list \<Rightarrow> (string \<times> string \<times> int) list" where
  \<comment> \<open>namespace and name of the policy and the count of active migrations written to its status\<close>
  "patchMigrationPolicyStatuses states =
     map (\<lambda>st. (meta_Namespace (mp_Metadata (mps_policy st)), meta_Name (mp_Metadata (mps_policy st)), mps_active st)) states"

definition migration_tick ::
  "MigConfig \<Rightarrow> (MigCall \<Rightarrow> err option) \<Rightarrow> Machine list \<Rightarrow> Node list \<Rightarrow> MachineMigration list \<Rightarrow> MigrationPolicy list res
     \<Rightarrow> MigCall list \<times> MigLoad \<times> MigrationPolicyState list" where
  "migration_tick cfg api machines nodes migrations policies =
     migration_loop cfg api machines nodes (BuildNodeLoad machines) migrations
       (newMigrationLoad migrations) (loadMigrationPolicyStates policies machines migrations)"

section \<open>What the calls of one migration can be\<close>

fun status_of :: "MigCall \<Rightarrow> MachineMigrationStatus option" where
  "status_of (CallMigStatus ns name st) = Some st"
| "status_of _ = None"

fun patch_of :: "MigCall \<Rightarrow> MachinePatch option" where
  "patch_of (CallMachine ns name p) = Some p"
| "patch_of _ = None"

lemma send_subset: "send api cs = (r, sent) \<Longrightarrow> set sent \<subseteq> set cs"
  by (induction cs arbitrary: r sent) (auto split: option.splits prod.splits)

lemma blockMigration_calls: "blockMigration api mig msg = (r, [mig_status mig (block_status mig msg)])"
  if "r = api (mig_status mig (block_status mig msg))"
  using that by (simp add: blockMigration_def split: option.split)

inductive admission :: "MachineMigration \<Rightarrow> Machine \<Rightarrow> MigConfig \<Rightarrow> MigLoad \<Rightarrow> MigOut \<Rightarrow> bool"
  for mig m cfg load where
  blocked: "admission mig m cfg load out"
    if "out_load out = load" "out_calls out = [mig_status mig (block_status mig msg)]"
| started: "admission mig m cfg load out"
    if "m_node m \<noteq> []" "target \<noteq> m_node m" "strategy \<in> {''live'', ''cold''}"
      "0 < cfg_MaxConcurrentCluster cfg \<longrightarrow> ml_total load < cfg_MaxConcurrentCluster cfg"
      "0 < cfg_MaxConcurrentPerNode cfg \<longrightarrow> node_count load (m_node m) < cfg_MaxConcurrentPerNode cfg"
      "0 < cfg_MaxConcurrentPerNode cfg \<longrightarrow> node_count load target < cfg_MaxConcurrentPerNode cfg"
      "out_load out = mig_admit load (m_node m) target"
      "out_calls out = bandwidth_calls mig m ps @ cs" "start_calls api mig m strategy target = (out_err out, cs)"

lemma migrationTarget_other:
  assumes "migrationTarget rc m requested strategy nodes ms load = Ok target"
  shows "target \<noteq> m_node m"
proof -
  let ?cands = "filter (\<lambda>n. node_name n \<noteq> m_node m \<and> (requested = [] \<or> node_name n = requested)) nodes"
  from assms have "Choose rc m ?cands ms load [] = Ok target"
    by (auto simp: migrationTarget_def Let_def split: if_splits sum.splits option.splits)
  then obtain n where "n \<in> set (candidates rc m ?cands ms load)" "node_name n = target" by (rule Choose_Ok)
  then show ?thesis using candidates_eligible [of n rc m ?cands ms load] by auto
qed

lemma effectiveStrategy_Ok: "effectiveStrategy m mig = Ok s \<Longrightarrow> s \<in> {''live'', ''cold''}"
  by (auto simp: effectiveStrategy_def Let_def split: if_splits)

lemma admitMigration_admission: "admission mig m cfg load (admitMigration cfg api mig m ms nodes nl load ps)"
proof -
  have block: "admission mig m cfg load (case blockMigration api mig msg of (r, cs) \<Rightarrow>
      \<lparr>out_err = r, out_calls = cs, out_load = load, out_policies = ps'\<rparr>)" for msg ps'
    by (simp add: blockMigration_calls [OF refl] admission.blocked)
  obtain b ps' where a: "AdmitMigrationPolicy ps m = (b, ps')" by fastforce
  show ?thesis
  proof (cases "m_node m = [] \<or> 0 < cfg_MaxConcurrentCluster cfg \<and> cfg_MaxConcurrentCluster cfg \<le> ml_total load
      \<or> 0 < cfg_MaxConcurrentPerNode cfg \<and> cfg_MaxConcurrentPerNode cfg \<le> node_count load (m_node m) \<or> b \<noteq> []
      \<or> (\<exists>e. effectiveStrategy m mig = Inl e)")
    case True
    then show ?thesis using a by (auto simp: admitMigration_def Let_def block split: sum.splits)
  next
    case False
    then obtain strategy where s: "effectiveStrategy m mig = Ok strategy" by (cases "effectiveStrategy m mig") auto
    show ?thesis
    proof (cases "migrationTarget (cfg_RequireCapable cfg) m (mig_TargetNode (mm_Spec mig)) strategy nodes ms nl")
      case (Inl e)
      then show ?thesis using False a s by (auto simp: admitMigration_def Let_def block)
    next
      case (Inr target)
      obtain r cs where st: "start_calls api mig m strategy target = (r, cs)" by fastforce
      show ?thesis
      proof (cases "0 < cfg_MaxConcurrentPerNode cfg \<and> cfg_MaxConcurrentPerNode cfg \<le> node_count load target")
        case True
        then show ?thesis using False a s Inr by (auto simp: admitMigration_def Let_def block)
      next
        case room: False
        have "admitMigration cfg api mig m ms nodes nl load ps = \<lparr>out_err = r, out_calls = bandwidth_calls mig m ps' @ cs,
            out_load = mig_admit load (m_node m) target, out_policies = ps'\<rparr>"
          using False room a s Inr st by (auto simp: admitMigration_def Let_def)
        then show ?thesis using False room migrationTarget_other [OF Inr] effectiveStrategy_Ok [OF s] st
          by (intro admission.started [of m target strategy cfg load _ mig ps' cs api]) auto
      qed
    qed
  qed
qed

section \<open>Concurrency limits\<close>

definition starts :: "MigCall list \<Rightarrow> MachineMigrationStatus list" where
  \<comment> \<open>the statuses that start a migration\<close>
  "starts calls = filter (\<lambda>st. ms_Phase st \<in> {''Starting'', ''Stopping''}) (List.map_filter status_of calls)"

definition touches :: "string \<Rightarrow> MachineMigrationStatus \<Rightarrow> bool" where
  "touches n st \<longleftrightarrow> ms_SourceNode st = n \<or> ms_TargetNode st = n"

lemma starts_simps [simp]:
  "starts [] = []"
  "starts (c # cs) = (case status_of c of None \<Rightarrow> [] | Some st \<Rightarrow> if ms_Phase st \<in> {''Starting'', ''Stopping''} then [st] else []) @ starts cs"
  by (simp_all add: starts_def List.map_filter_simps split: option.split)

lemma starts_append [simp]: "starts (xs @ ys) = starts xs @ starts ys"
  by (induction xs) simp_all

lemma starts_none: "(\<And>c st. c \<in> set cs \<Longrightarrow> status_of c = Some st \<Longrightarrow> ms_Phase st \<notin> {''Starting'', ''Stopping''}) \<Longrightarrow> starts cs = []"
  by (induction cs) (auto split: option.split)

lemma mig_admit_total [simp]: "ml_total (mig_admit l s t) = ml_total l + 1"
  by (simp add: mig_admit_def count_node_def Let_def)

lemma mig_admit_count: "n \<noteq> [] \<Longrightarrow> node_count (mig_admit l s t) n = node_count l n + (if s = n \<or> t = n then 1 else 0)"
  by (auto simp: mig_admit_def count_node_def node_count_def Let_def)

definition load_step :: "MigConfig \<Rightarrow> MigLoad \<Rightarrow> MigLoad \<Rightarrow> MigCall list \<Rightarrow> bool" where
  \<comment> \<open>the load counts every start, and grows only while it is below the limits\<close>
  "load_step cfg l l' calls \<longleftrightarrow>
     ml_total l + int (length (starts calls)) \<le> ml_total l'
     \<and> (0 < cfg_MaxConcurrentCluster cfg \<longrightarrow> ml_total l' \<le> max (ml_total l) (cfg_MaxConcurrentCluster cfg))
     \<and> (\<forall>n. n \<noteq> [] \<longrightarrow> node_count l n + int (length (filter (touches n) (starts calls))) \<le> node_count l' n
          \<and> (0 < cfg_MaxConcurrentPerNode cfg \<longrightarrow> node_count l' n \<le> max (node_count l n) (cfg_MaxConcurrentPerNode cfg)))"

lemma load_step_same: "starts calls = [] \<Longrightarrow> load_step cfg l l calls"
  by (simp add: load_step_def)

lemma load_step_trans:
  assumes "load_step cfg l l' cs" "load_step cfg l' l'' ds"
  shows "load_step cfg l l'' (cs @ ds)"
proof -
  have grow: "c \<le> max a k" if "b \<le> max a k" "c \<le> max b k" for a b c k :: int
    using that by (auto simp: max_def split: if_splits)
  have 1: "ml_total l + int (length (starts cs)) \<le> ml_total l'" "ml_total l' + int (length (starts ds)) \<le> ml_total l''"
    "0 < cfg_MaxConcurrentCluster cfg \<Longrightarrow> ml_total l' \<le> max (ml_total l) (cfg_MaxConcurrentCluster cfg)"
    "0 < cfg_MaxConcurrentCluster cfg \<Longrightarrow> ml_total l'' \<le> max (ml_total l') (cfg_MaxConcurrentCluster cfg)"
    using assms by (simp_all add: load_step_def)
  have 2: "node_count l n + int (length (filter (touches n) (starts cs))) \<le> node_count l' n"
    "node_count l' n + int (length (filter (touches n) (starts ds))) \<le> node_count l'' n"
    "0 < cfg_MaxConcurrentPerNode cfg \<Longrightarrow> node_count l' n \<le> max (node_count l n) (cfg_MaxConcurrentPerNode cfg)"
    "0 < cfg_MaxConcurrentPerNode cfg \<Longrightarrow> node_count l'' n \<le> max (node_count l' n) (cfg_MaxConcurrentPerNode cfg)"
    if "n \<noteq> []" for n
    using assms that by (simp_all add: load_step_def)
  show ?thesis unfolding load_step_def
  proof (intro conjI allI impI)
    show "ml_total l + int (length (starts (cs @ ds))) \<le> ml_total l''" using 1(1,2) by simp
    show "ml_total l'' \<le> max (ml_total l) (cfg_MaxConcurrentCluster cfg)" if "0 < cfg_MaxConcurrentCluster cfg"
      using grow [OF 1(3) [OF that] 1(4) [OF that]] .
    show "node_count l n + int (length (filter (touches n) (starts (cs @ ds)))) \<le> node_count l'' n" if "n \<noteq> []" for n
      using 2(1,2) [OF that] by simp
    show "node_count l'' n \<le> max (node_count l n) (cfg_MaxConcurrentPerNode cfg)" if "n \<noteq> []" "0 < cfg_MaxConcurrentPerNode cfg" for n
      using grow [OF 2(3) [OF that] 2(4) [OF that]] .
  qed
qed

lemma start_calls_starts:
  assumes "start_calls api mig m strategy target = (r, cs)" "strategy \<in> {''live'', ''cold''}"
  shows "starts cs = [] \<or> (\<exists>st. starts cs = [st] \<and> ms_SourceNode st = m_node m \<and> ms_TargetNode st = target)"
  using assms by (auto simp: start_calls_def Let_def mig_status_def ensureMigrationSourceLabel_def split: if_splits option.splits prod.splits)

lemma admission_load:
  assumes "admission mig m cfg load out"
  shows "load_step cfg load (out_load out) (out_calls out)"
  using assms
proof cases
  case (blocked msg)
  then show ?thesis by (simp add: mig_status_def block_status_def load_step_same)
next
  case (started target strategy ps cs api)
  have "starts (out_calls out) = starts cs" using started(8) by (simp add: bandwidth_calls_def)
  with start_calls_starts [OF started(9,3)]
  consider "starts (out_calls out) = []"
    | st where "starts (out_calls out) = [st]" "ms_SourceNode st = m_node m" "ms_TargetNode st = target" by auto
  then show ?thesis using started(4,5,6,7) by cases (auto simp: load_step_def mig_admit_count touches_def)
qed

lemma advance_calls_starts: "advance_calls mig m = Ok cs \<Longrightarrow> c \<in> set cs \<Longrightarrow> status_of c = Some st \<Longrightarrow> ms_Phase st \<notin> {''Starting'', ''Stopping''}"
  by (auto simp: advance_calls_def mig_status_def Let_def split: if_splits)

lemma reconcileMigration_load:
  "load_step cfg load (out_load (reconcileMigration cfg api mig ms nodes nl load ps)) (out_calls (reconcileMigration cfg api mig ms nodes nl load ps))"
proof -
  have "load_step cfg load load sent" if "advance_calls mig m = Ok cs" "send api cs = (r, sent)" for m cs r sent
    using send_subset [OF that(2)] advance_calls_starts [OF that(1)] by (intro load_step_same starts_none) auto
  then show ?thesis
    by (auto simp: reconcileMigration_def Let_def load_step_same admission_load [OF admitMigration_admission]
        split: option.splits sum.splits prod.splits)
qed

lemma migration_loop_load:
  "migration_loop cfg api ms nodes nl migs load ps = (calls, load', ps') \<Longrightarrow> load_step cfg load load' calls"
proof (induction migs arbitrary: load ps calls)
  case (Cons mig migs)
  let ?out = "reconcileMigration cfg api mig ms nodes nl load ps"
  let ?cs = "out_calls ?out @ (case out_err ?out of None \<Rightarrow> [] | Some e \<Rightarrow> [mig_status mig (failed_status mig e)])"
  obtain rest where rest: "migration_loop cfg api ms nodes nl migs (out_load ?out) (out_policies ?out) = (rest, load', ps')" "calls = ?cs @ rest"
    using Cons.prems by (auto simp: Let_def split: prod.splits)
  have "load_step cfg load (out_load ?out) ?cs"
    using reconcileMigration_load [of cfg load api mig ms nodes nl ps]
    by (auto simp: load_step_def mig_status_def failed_status_def split: option.split)
  then show ?case using load_step_trans Cons.IH [OF rest(1)] rest(2) by blast
qed (simp add: load_step_same)

definition active :: "MachineMigration \<Rightarrow> bool" where
  "active mig \<longleftrightarrow> isActiveMigrationPhase (mm_phase mig)"

lemma newMigrationLoad_counts:
  "ml_total (newMigrationLoad migs) = int (length (filter active migs))"
  "n \<noteq> [] \<Longrightarrow> node_count (newMigrationLoad migs) n = int (length (filter (\<lambda>mig. active mig \<and> touches n (mm_Status mig)) migs))"
proof -
  let ?f = "\<lambda>l m. if \<not> isActiveMigrationPhase (mm_phase m) then l
      else mig_admit l (ms_SourceNode (mm_Status m)) (ms_TargetNode (mm_Status m))"
  have "ml_total (foldl ?f l migs) = ml_total l + int (length (filter active migs))" for l
    by (induction migs arbitrary: l) (simp_all add: active_def)
  then show "ml_total (newMigrationLoad migs) = int (length (filter active migs))" by (simp add: newMigrationLoad_def)
  have "node_count (foldl ?f l migs) n = node_count l n + int (length (filter (\<lambda>mig. active mig \<and> touches n (mm_Status mig)) migs))"
    if "n \<noteq> []" for l
    using that by (induction migs arbitrary: l) (auto simp: active_def touches_def mig_admit_count)
  then show "node_count (newMigrationLoad migs) n = int (length (filter (\<lambda>mig. active mig \<and> touches n (mm_Status mig)) migs))"
    if "n \<noteq> []" using that by (simp add: newMigrationLoad_def) (simp add: node_count_def)
qed

section \<open>Properties\<close>

text \<open>
  C15. The concurrency limits of migrations hold over a whole tick. Counting the migrations
  that were active before and all those the tick starts, in whatever order they are listed,
  the cluster never has more than \<open>MaxConcurrentCluster\<close> and no node more than
  \<open>MaxConcurrentPerNode\<close> of them as source or target, unless it already had more before; then
  none is added.
\<close>

theorem migration_concurrency_bounded:
  assumes "migration_tick cfg api machines nodes migrations policies = (calls, load, ps)"
  shows "(0 < cfg_MaxConcurrentCluster cfg \<longrightarrow>
      int (length (filter active migrations)) + int (length (starts calls))
        \<le> max (int (length (filter active migrations))) (cfg_MaxConcurrentCluster cfg))
    \<and> (\<forall>n. n \<noteq> [] \<and> 0 < cfg_MaxConcurrentPerNode cfg \<longrightarrow>
      int (length (filter (\<lambda>mig. active mig \<and> touches n (mm_Status mig)) migrations)) + int (length (filter (touches n) (starts calls)))
        \<le> max (int (length (filter (\<lambda>mig. active mig \<and> touches n (mm_Status mig)) migrations))) (cfg_MaxConcurrentPerNode cfg))"
  using migration_loop_load [OF assms [unfolded migration_tick_def]]
  by (auto simp: load_step_def newMigrationLoad_counts)

section \<open>Phases and reassignment\<close>

definition phase_edges :: "(string \<times> string) set" where
  "phase_edges = {([], ''Blocked''), ([], ''Starting''), ([], ''Stopping''), (''Pending'', ''Blocked''), (''Pending'', ''Starting''),
     (''Pending'', ''Stopping''), (''Cutover'', ''Adopting''), (''Adopting'', ''Succeeded''), (''Stopping'', ''Restarting''),
     (''Restarting'', ''Succeeded'')}"

lemma reconcileMigration_cases:
  assumes "c \<in> set (out_calls (reconcileMigration cfg api mig ms nodes nl load ps))"
  obtains m where "last_with_key ms (mm_ns mig @ ''/'' @ mig_MachineName (mm_Spec mig)) = Some m" "\<not> m_deleted m"
      "mm_phase mig = [] \<or> mm_phase mig = ''Pending''" "c \<in> set (out_calls (admitMigration cfg api mig m ms nodes nl load ps))"
  | m cs where "last_with_key ms (mm_ns mig @ ''/'' @ mig_MachineName (mm_Spec mig)) = Some m" "\<not> m_deleted m"
      "advance_calls mig m = Ok cs" "c \<in> set cs"
proof -
  have "c \<in> set cs" if "c \<in> set (snd (send api cs))" for cs
    using that send_subset [of api cs] by (cases "send api cs") auto
  moreover obtain m where m: "last_with_key ms (mm_ns mig @ ''/'' @ mig_MachineName (mm_Spec mig)) = Some m"
    "\<not> m_deleted m" "\<not> settled_phase (mm_phase mig)" "TrimSpace (mig_MachineName (mm_Spec mig)) \<noteq> []"
    using assms by (cases "last_with_key ms (mm_ns mig @ ''/'' @ mig_MachineName (mm_Spec mig))")
      (auto simp: reconcileMigration_def Let_def split: if_splits)
  show ?thesis
  proof (cases "mm_phase mig = [] \<or> mm_phase mig = ''Pending''")
    case True
    then show ?thesis using that(1) [OF m(1,2)] assms m by (simp add: reconcileMigration_def Let_def)
  next
    case False
    obtain r cs where cs: "advance_calls mig m = Ok cs" and c: "c \<in> set (snd (send api cs))"
      using assms m False by (cases "advance_calls mig m") (auto simp: reconcileMigration_def Let_def split: prod.splits)
    then show ?thesis using that(2) [OF m(1,2) cs] calculation by blast
  qed
qed

lemma advance_calls_edges:
  "advance_calls mig m = Ok cs \<Longrightarrow> c \<in> set cs \<Longrightarrow> status_of c = Some st \<Longrightarrow>
     mm_phase mig = ''Cutover'' \<and> ms_Phase st = ''Adopting'' \<or> mm_phase mig = ''Adopting'' \<and> ms_Phase st = ''Succeeded''
     \<or> mm_phase mig = ''Stopping'' \<and> ms_Phase st = ''Restarting'' \<or> mm_phase mig = ''Restarting'' \<and> ms_Phase st = ''Succeeded''"
  by (auto simp: advance_calls_def mig_status_def Let_def split: if_splits)

lemma started_phase:
  assumes "start_calls api mig m strategy target = (r, cs)" "c \<in> set cs"
  shows "(\<forall>st. status_of c = Some st \<longrightarrow> ms_Phase st \<in> {''Starting'', ''Stopping''}) \<and> (\<forall>p. patch_of c = Some p \<longrightarrow> patch_nodeName p = None)"
  using assms by (auto simp: start_calls_def Let_def mig_status_def ensureMigrationSourceLabel_def NoPatch_def
      split: if_splits option.splits prod.splits)

lemma admission_calls:
  assumes "admission mig m cfg load out" "c \<in> set (out_calls out)"
  shows "(\<forall>st. status_of c = Some st \<longrightarrow> ms_Phase st \<in> {''Blocked'', ''Starting'', ''Stopping''})
    \<and> (\<forall>p. patch_of c = Some p \<longrightarrow> patch_nodeName p = None)"
  using assms
proof cases
  case (blocked msg)
  then show ?thesis using assms(2) by (simp add: mig_status_def block_status_def)
next
  case (started target strategy ps cs api)
  then have "c \<in> set cs \<or> c \<in> set (bandwidth_calls mig m ps)" using assms(2) by auto
  then show ?thesis using started_phase [OF started(9)] by (auto simp: bandwidth_calls_def split: if_splits)
qed


lemma reassigned_when:
  assumes "c \<in> set (out_calls (reconcileMigration cfg api mig ms nodes nl load ps))"
    and "patch_of c = Some p" and "patch_nodeName p = Some n"
  shows "n = ms_TargetNode (mm_Status mig) \<and>
    (mm_phase mig = ''Cutover'' \<and> ms_EffectiveStrategy (mm_Status mig) = ''live''
       \<and> map_of (patch_annotations p) AnnotationAdoptOnly = Some (Some ''true'')
     \<or> mm_phase mig = ''Stopping''
       \<and> (\<exists>m. last_with_key ms (mm_ns mig @ ''/'' @ mig_MachineName (mm_Spec mig)) = Some m \<and> m_phase m = ''Stopped''))"
  using assms(1)
proof (cases rule: reconcileMigration_cases)
  case (1 m)
  with admission_calls [OF admitMigration_admission 1(4)] assms(2,3) show ?thesis by simp
next
  case (2 m cs)
  with assms(2,3) show ?thesis
    by (auto simp: advance_calls_def mig_status_def Let_def NoPatch_def split: if_splits)
qed


definition mig_of :: "string \<Rightarrow> string \<Rightarrow> string \<Rightarrow> MachineMigration" where
  "mig_of name strategy phase = MachineMigration0\<lparr>mm_Metadata := ObjectMeta0\<lparr>meta_Name := name\<rparr>,
     mm_Spec := (mm_Spec MachineMigration0)\<lparr>mig_MachineName := ''vm'', mig_Strategy := strategy\<rparr>,
     mm_Status := (mm_Status MachineMigration0)\<lparr>ms_Phase := phase, ms_TargetNode := ''b'', ms_EffectiveStrategy := strategy\<rparr>\<rparr>"

definition vm_on :: "string \<Rightarrow> string \<Rightarrow> Machine" where
  "vm_on node phase = Machine0\<lparr>mach_Metadata := ObjectMeta0\<lparr>meta_Name := ''vm''\<rparr>,
     mach_Spec := (mach_Spec Machine0)\<lparr>spec_NodeName := node\<rparr>, mach_Status := (mach_Status Machine0)\<lparr>st_Phase := phase\<rparr>\<rparr>"

definition no_limits :: MigConfig where
  "no_limits = \<lparr>cfg_RequireCapable = False, cfg_MaxConcurrentCluster = 0, cfg_MaxConcurrentPerNode = 0\<rparr>"

lemma mig_of_sel [simp]:
  "mm_phase (mig_of n st p) = p" "ms_Phase (mm_Status (mig_of n st p)) = p" "mm_ns (mig_of n st p) = ''default''"
  "mm_name (mig_of n st p) = n" "ms_TargetNode (mm_Status (mig_of n st p)) = ''b''"
  "ms_EffectiveStrategy (mm_Status (mig_of n st p)) = st" "mig_MachineName (mm_Spec (mig_of n st p)) = ''vm''"
  "ms_SourceNode (mm_Status (mig_of n st p)) = []"
  by (simp_all add: mig_of_def MachineMigration0_def mm_ns_def meta_ns_def DefaultNamespace_def ObjectMeta0_def)

lemma vm_on_sel [simp]:
  "m_phase (vm_on n p) = p" "Namespace (vm_on n p) = ''default''" "m_name (vm_on n p) = ''vm''" "m_key (vm_on n p) = ''default/vm''"
  "m_node (vm_on n p) = n" "meta_DeletionTimestamp (mach_Metadata (vm_on n p)) = None"
  by (simp_all add: vm_on_def Machine0_def m_key_def Namespace_def meta_ns_def DefaultNamespace_def ObjectMeta0_def)

lemma TrimSpace_vm [simp]: "TrimSpace ''vm'' = ''vm''" by code_simp

lemma last_with_key_vm [simp]: "last_with_key [vm_on n p] ''default/vm'' = Some (vm_on n p)"
  by (simp add: last_with_key_def)

lemma stopping_example:
  "out_calls (reconcileMigration no_limits (\<lambda>_. None) (mig_of ''m1'' ''cold'' ''Stopping'') [vm_on ''a'' ''Stopped''] [] [] load [])
   = [CallMachine ''default'' ''vm'' (NoPatch\<lparr>patch_nodeName := Some ''b'', patch_powerState := Some ''Running'',
        patch_labels := [(AssignedNodeLabel, Some ''b'')]\<rparr>),
      mig_status (mig_of ''m1'' ''cold'' ''Stopping'') ((mm_Status (mig_of ''m1'' ''cold'' ''Stopping''))\<lparr>ms_Phase := ''Restarting'',
        ms_Message := ''source stopped; Machine reassigned to target''\<rparr>)]"
  by (simp add: reconcileMigration_def settled_phase_def advance_calls_def Let_def)

theorem migration_concurrency_bounded_witness:
  "starts (fst (migration_tick (no_limits\<lparr>cfg_MaxConcurrentCluster := 1\<rparr>) (\<lambda>_. None) [vm_on ''a'' ''Running''] []
      [mig_of ''m1'' ''live'' ''Running'', mig_of ''m2'' ''live'' []] (Ok []))) = []"
proof -
  obtain calls load ps where t: "migration_tick (no_limits\<lparr>cfg_MaxConcurrentCluster := 1\<rparr>) (\<lambda>_. None) [vm_on ''a'' ''Running''] []
      [mig_of ''m1'' ''live'' ''Running'', mig_of ''m2'' ''live'' []] (Ok []) = (calls, load, ps)" by (rule prod_cases3)
  moreover have "filter active [mig_of ''m1'' ''live'' ''Running'', mig_of ''m2'' ''live'' []] = [mig_of ''m1'' ''live'' ''Running'']"
    by (simp add: active_def isActiveMigrationPhase_def)
  moreover have "cfg_MaxConcurrentCluster (no_limits\<lparr>cfg_MaxConcurrentCluster := 1\<rparr>) = 1" by simp
  ultimately show ?thesis using migration_concurrency_bounded [OF t] by simp
qed



text \<open>
  A committed live migration is abandoned when the API refuses one call. At cutover the
  destination runs the Machine already; when the patch that reassigns the Machine fails, the
  migration is marked \<open>Failed\<close>, a phase the controller never leaves, and the Machine keeps
  naming the source node.
\<close>

theorem cutover_error_abandons_migration:
  assumes "mm_phase mig = ''Cutover''" "ms_EffectiveStrategy (mm_Status mig) = ''live''"
    and "TrimSpace (mig_MachineName (mm_Spec mig)) \<noteq> []"
    and "last_with_key ms (mm_ns mig @ ''/'' @ mig_MachineName (mm_Spec mig)) = Some m" "\<not> m_deleted m"
    and "\<forall>p. api (CallMachine (Namespace m) (m_name m) p) = Some e"
  shows "\<exists>p. patch_nodeName p = Some (ms_TargetNode (mm_Status mig))
    \<and> fst (migration_loop cfg api ms nodes nl [mig] load ps)
        = [CallMachine (Namespace m) (m_name m) p, mig_status mig (failed_status mig e)]
    \<and> settled_phase (ms_Phase (failed_status mig e))"
proof -
  have "settled_phase (ms_Phase (failed_status mig e))" by (simp add: failed_status_def settled_phase_def)
  then show ?thesis using assms by (simp add: reconcileMigration_def settled_phase_def advance_calls_def Let_def)
qed

theorem cutover_error_abandons_migration_witness:
  "\<exists>p. fst (migration_loop no_limits (\<lambda>c. case c of CallMachine _ _ _ \<Rightarrow> Some ''timeout'' | _ \<Rightarrow> None) [vm_on ''a'' ''Running''] [] []
        [mig_of ''m1'' ''live'' ''Cutover''] \<lparr>ml_byNode = [], ml_total = 0\<rparr> [])
     = [CallMachine ''default'' ''vm'' p, mig_status (mig_of ''m1'' ''live'' ''Cutover'') (failed_status (mig_of ''m1'' ''live'' ''Cutover'') ''timeout'')]"
  using cutover_error_abandons_migration [of "mig_of ''m1'' ''live'' ''Cutover''" "[vm_on ''a'' ''Running'']" "vm_on ''a'' ''Running''"
      "\<lambda>c. case c of CallMachine _ _ _ \<Rightarrow> Some ''timeout'' | _ \<Rightarrow> None" "''timeout''" no_limits "[]" "[]" "\<lparr>ml_byNode = [], ml_total = 0\<rparr>" "[]"]
  by (simp del: migration_loop.simps) blast


text \<open>
  An active migration does not keep a second one of the same Machine from starting. While
  a live migration transfers the Machine, a new cold migration of it is admitted and its first
  call powers the source down.
\<close>

theorem second_migration_started:
  assumes "cfg_MaxConcurrentCluster cfg = 0" "cfg_MaxConcurrentPerNode cfg = 0"
    and "mm_phase mig1 = ''Running''" "mm_phase mig2 = []"
    and "mm_ns mig1 = mm_ns mig2" "mig_MachineName (mm_Spec mig1) = mig_MachineName (mm_Spec mig2)"
    and "TrimSpace (mig_MachineName (mm_Spec mig2)) \<noteq> []" "effectiveStrategy m mig2 = Ok ''cold''"
    and "last_with_key ms (mm_ns mig2 @ ''/'' @ mig_MachineName (mm_Spec mig2)) = Some m" "\<not> m_deleted m" "m_node m \<noteq> []"
    and "migrationTarget (cfg_RequireCapable cfg) m (mig_TargetNode (mm_Spec mig2)) ''cold'' nodes ms (BuildNodeLoad ms) = Ok target"
  shows "\<exists>st rest. fst (migration_tick cfg (\<lambda>_. None) ms nodes [mig1, mig2] (Ok []))
      = CallMachine (Namespace m) (m_name m) (NoPatch\<lparr>patch_powerState := Some ''Stopped''\<rparr>) # mig_status mig2 st # rest
    \<and> ms_Phase st = ''Stopping'' \<and> ms_SourceNode st = m_node m \<and> ms_TargetNode st = target"
proof -
  have admit: "AdmitMigrationPolicy [] m = ([], [])" by (simp add: AdmitMigrationPolicy_def)
  have none: "loadMigrationPolicyStates (Ok []) ms [mig1, mig2] = []"
    by (simp add: loadMigrationPolicyStates_def LoadMigrationPolicyStates_def)
  show ?thesis using assms
    by (simp add: migration_tick_def none admit reconcileMigration_def settled_phase_def advance_calls_def admitMigration_def
        start_calls_def bandwidth_calls_def mig_status_def Let_def)
qed

lemma target_example:
  "migrationTarget False (vm_on ''a'' ''Running'') [] ''cold'' two_nodes [vm_on ''a'' ''Running''] load = Ok ''b''"
  if "map_of load ''b'' = None"
proof -
  have "Choose False (vm_on ''a'' ''Running'') [ready_node ''b'' [] []] [vm_on ''a'' ''Running''] load [] = Ok (node_name (ready_node ''b'' [] []))"
    by (rule Choose_only_node)
      (simp_all add: that hard_constraints_def eligible_None vm_on_def example_defs ready_def capacityFits_def nodeAllocatable_def
        pinning_reason_def load_of_def NodeLoad0_def)
  moreover have names: "node_name (ready_node n [] []) = n" "node_labels (ready_node n [] []) = []" for n by (simp_all add: example_defs)
  moreover have "filter (\<lambda>n. node_name n \<noteq> ''a'' \<and> ([] = [] \<or> node_name n = [])) two_nodes = [ready_node ''b'' [] []]"
    by (simp add: two_nodes_def names)
  moreover have "nodeByName two_nodes ''a'' = Some (ready_node ''a'' [] [])" "nodeByName two_nodes ''b'' = Some (ready_node ''b'' [] [])"
    by (simp_all add: two_nodes_def names)
  moreover have "deviceClaimsPreflight (vm_on ''a'' ''Running'') (ready_node ''b'' [] []) ''cold'' = []"
    by (simp add: deviceClaimsPreflight_def vm_on_def example_defs)
  moreover have "migrationPreflight (ready_node ''a'' [] []) (ready_node ''b'' [] []) = []"
    by (simp add: migrationPreflight_def domainMismatch_def names)
  ultimately show ?thesis by (simp add: migrationTarget_def)
qed

theorem second_migration_started_witness:
  "\<exists>st rest. fst (migration_tick no_limits (\<lambda>_. None) [vm_on ''a'' ''Running''] two_nodes
        [mig_of ''m1'' ''live'' ''Running'', mig_of ''m2'' ''cold'' []] (Ok []))
      = CallMachine ''default'' ''vm'' (NoPatch\<lparr>patch_powerState := Some ''Stopped''\<rparr>) # mig_status (mig_of ''m2'' ''cold'' []) st # rest"
proof -
  have strategy: "effectiveStrategy (vm_on ''a'' ''Running'') (mig_of ''m2'' ''cold'' []) = Ok ''cold''"
  proof -
    have "ToLower (TrimSpace ''cold'') = ''cold''" by code_simp
    moreover have "mig_Strategy (mm_Spec (mig_of ''m2'' ''cold'' [])) = ''cold''" by (simp add: mig_of_def)
    ultimately show ?thesis by (simp add: effectiveStrategy_def)
  qed
  have load: "map_of (BuildNodeLoad [vm_on ''a'' ''Running'']) ''b'' = None"
    by (simp add: BuildNodeLoad_def)
  have target: "mig_TargetNode (mm_Spec (mig_of ''m2'' ''cold'' [])) = []" by (simp add: mig_of_def MachineMigration0_def)
  from second_migration_started [OF _ _ _ _ _ _ _ strategy, of no_limits "mig_of ''m1'' ''live'' ''Running''" "[vm_on ''a'' ''Running'']" two_nodes "''b''"]
  show ?thesis using target_example [of "BuildNodeLoad [vm_on ''a'' ''Running'']"] load target by (auto simp: no_limits_def)
qed

end
