(* ===== verification/Live_Migration.thy ===== *)
theory Live_Migration
  imports Agent_Migration Migration_Controller
begin

text \<open>
  Live migration across its three processes: the agent of the source node, the migration servers
  of the destinations and the controller. The agent's calls to a peer go through the client and a
  network that may lose a request or its answer; between any two calls other clients and the
  reaper may act on the servers. What the agent is answered is computed by the server's handlers,
  so what it reports can be compared with what the destination did.
\<close>

section \<open>The client of the peer API\<close>

fun reply_code :: "Reply \<Rightarrow> nat" where
  "reply_code (Reply code _) = code"
| "reply_code (ReplyDiagnosis code _) = code"
| "reply_code (ReplyError code _) = code"

definition TrimRightSlash :: "string \<Rightarrow> string" where
  "TrimRightSlash s = rev (dropWhile (\<lambda>c. c = CHR ''/'') (rev s))"

definition peer_endpoint :: "string \<Rightarrow> string \<Rightarrow> string" where
  "peer_endpoint baseURL tail = TrimRightSlash baseURL @ ''/internal/v1/migrations/'' @ tail"

fun peer_request :: "AgentCall \<Rightarrow> (string \<times> string \<times> Request) option" where
  \<comment> \<open>the methods of the client: base URL, endpoint and the route it reaches\<close>
  "peer_request (PPrepare url s) = Some (url, peer_endpoint url ''prepare'', RPrepare (Ok s))"
| "peer_request (PCommit url sid) = Some (url, peer_endpoint url (sid @ ''/commit''), RCommit sid)"
| "peer_request (PAbort url sid) = Some (url, peer_endpoint url (sid @ ''/abort''), RAbort sid)"
| "peer_request (PHeartbeat url sid) = Some (url, peer_endpoint url (sid @ ''/heartbeat''), RHeartbeat sid)"
| "peer_request (PDiagnose url sid) = Some (url, peer_endpoint url (sid @ ''/diagnosis''), RDiagnosis sid)"
| "peer_request _ = None"

fun reply :: "('st, 'w) Server \<Rightarrow> time \<times> Request \<Rightarrow> 'st \<times> 'w \<Rightarrow> Reply option" where
  \<comment> \<open>what the handler of a route writes; the reaper answers nobody\<close>
  "reply srv (now, RPrepare s) (st, w) = Some (fst (prepare srv now s st w))"
| "reply srv (now, RGet sid) (st, w) = Some (fst (get_session srv sid st w))"
| "reply srv (now, RCommit sid) (st, w) = Some (fst (commit srv now sid st w))"
| "reply srv (now, RAbort sid) (st, w) = Some (fst (abort srv now sid st w))"
| "reply srv (now, RHeartbeat sid) (st, w) = Some (fst (heartbeat srv now sid st w))"
| "reply srv (now, RDiagnosis sid) (st, w) = Some (fst (diagnosis srv now sid st w))"
| "reply srv (now, RReap _) (st, w) = None"

definition client_do :: "(Reply \<Rightarrow> string) \<Rightarrow> string \<Rightarrow> Reply \<Rightarrow> err option" where
  "client_do body endpoint rep =
     (if reply_code rep < 200 \<or> 300 \<le> reply_code rep then
        Some (''migration peer '' @ endpoint @ '': HTTP '' @ show_int (int (reply_code rep)) @ '': '' @ TrimSpace (body rep))
      else None)"

section \<open>The network and the servers behind it\<close>

datatype Fate = Lost err | Answered time | AnswerLost time err
  \<comment> \<open>the request does not arrive; it is handled at a time and answered; it is handled but the
      answer does not come back\<close>

type_synonym 'w peers = "string \<Rightarrow> FileStore \<times> 'w"

record 'w Net =
  net_Server :: "string \<Rightarrow> (FileStore, 'w) Server"
  net_Fate :: "AgentCall list \<Rightarrow> Fate"
  net_Others :: "AgentCall list \<Rightarrow> (string \<times> time \<times> Request) list"
  net_Body :: "Reply \<Rightarrow> string"

definition peer_handles :: "(string \<Rightarrow> (FileStore, 'w) Server) \<Rightarrow> string \<times> time \<times> Request \<Rightarrow> 'w peers \<Rightarrow> 'w peers" where
  "peer_handles srvs = (\<lambda>(url, r) c. c(url := handle (srvs url) r (c url)))"

definition others_act :: "'w Net \<Rightarrow> AgentCall list \<Rightarrow> 'w peers \<Rightarrow> 'w peers" where
  "others_act net h c = fold (peer_handles (net_Server net)) (net_Others net h) c"

definition peer_step :: "'w Net \<Rightarrow> AgentCall list \<Rightarrow> AgentCall \<Rightarrow> 'w peers \<Rightarrow> 'w peers" where
  "peer_step net h call c = (let c = others_act net h c in
     case peer_request call of None \<Rightarrow> c
     | Some (url, _, r) \<Rightarrow> (case net_Fate net h of
         Lost _ \<Rightarrow> c
       | Answered t \<Rightarrow> peer_handles (net_Server net) (url, t, r) c
       | AnswerLost t _ \<Rightarrow> peer_handles (net_Server net) (url, t, r) c))"

fun peers_rev :: "'w Net \<Rightarrow> 'w peers \<Rightarrow> AgentCall list \<Rightarrow> 'w peers" where
  "peers_rev net c [] = c"
| "peers_rev net c (call # calls) = peer_step net (rev calls) call (peers_rev net c calls)"

definition peers_after :: "'w Net \<Rightarrow> 'w peers \<Rightarrow> AgentCall list \<Rightarrow> 'w peers" where
  "peers_after net c h = peers_rev net c (rev h)"

definition exchange :: "'w Net \<Rightarrow> 'w peers \<Rightarrow> AgentCall list \<Rightarrow> AgentCall \<Rightarrow> (err + Reply) option" where
  \<comment> \<open>what the client returns for a call to a peer\<close>
  "exchange net c h call = (case peer_request call of
     None \<Rightarrow> None
   | Some (url, endpoint, r) \<Rightarrow> (case net_Fate net h of
       Lost e \<Rightarrow> Some (Inl e)
     | AnswerLost _ e \<Rightarrow> Some (Inl e)
     | Answered t \<Rightarrow> (case reply (net_Server net url) (t, r) (others_act net h (peers_after net c h) url) of
         None \<Rightarrow> None
       | Some rep \<Rightarrow> Some (case client_do (net_Body net) endpoint rep of Some e \<Rightarrow> Inl e | None \<Rightarrow> Inr rep))))"

definition peer_answers :: "'w Net \<Rightarrow> 'w peers \<Rightarrow> Answers \<Rightarrow> Answers" where
  \<comment> \<open>the other calls are answered by \<open>base\<close>\<close>
  "peer_answers net c base = base\<lparr>
     ans_err := (\<lambda>h call. case exchange net c h call of None \<Rightarrow> ans_err base h call | Some (Inl e) \<Rightarrow> Some e | Some (Inr _) \<Rightarrow> None),
     ans_Prepare := (\<lambda>h call. case exchange net c h call of
         Some (Inl e) \<Rightarrow> Err e | Some (Inr (Reply _ p)) \<Rightarrow> Ok p | _ \<Rightarrow> ans_Prepare base h call),
     ans_Diagnose := (\<lambda>h call. case exchange net c h call of
         Some (Inl e) \<Rightarrow> Err e | Some (Inr (ReplyDiagnosis _ d)) \<Rightarrow> Ok d | _ \<Rightarrow> ans_Diagnose base h call)\<rparr>"

section \<open>What the servers hold\<close>

definition on_files :: "(string \<Rightarrow> (FileStore, 'w) Server) \<Rightarrow> bool" where
  "on_files srvs \<longleftrightarrow> (\<forall>url. srv_Store (srvs url) = Some FileStoreOps)"

definition held_at :: "'w peers \<Rightarrow> string \<Rightarrow> string \<Rightarrow> Session option" where
  "held_at c url = fs_session (fst (c url))"

definition sound :: "'w peers \<Rightarrow> bool" where
  "sound c \<longleftrightarrow> (\<forall>url. keyed (held_at c url))"

definition dest_committed :: "'w peers \<Rightarrow> string \<Rightarrow> bool" where
  "dest_committed c sid \<longleftrightarrow> (\<exists>url s. held_at c url sid = Some s \<and> ses_Phase s = ''Committed'')"

definition peers_move :: "'w peers \<Rightarrow> 'w peers \<Rightarrow> bool" where
  "peers_move c c' \<longleftrightarrow> (\<forall>url. moves (held_at c url) (held_at c' url))"

lemma peers_move_refl [simp]: "peers_move c c"
  by (simp add: peers_move_def)

lemma peers_move_trans: "peers_move c c' \<Longrightarrow> peers_move c' c'' \<Longrightarrow> peers_move c c''"
  unfolding peers_move_def using moves_trans by blast

lemma peer_handles_moves: "on_files srvs \<Longrightarrow> peers_move c (peer_handles srvs req c)"
  by (cases req; cases "c (fst req)") (auto simp: peers_move_def peer_handles_def held_at_def on_files_def intro: files.handle_moves)

lemma others_act_moves: "on_files (net_Server net) \<Longrightarrow> peers_move c (others_act net h c)"
proof -
  assume "on_files (net_Server net)"
  then have "peers_move c (fold (peer_handles (net_Server net)) reqs c)" for reqs
    by (induction reqs arbitrary: c) (auto intro: peers_move_trans peer_handles_moves)
  then show ?thesis by (simp add: others_act_def)
qed

lemma peer_step_moves:
  assumes "on_files (net_Server net)"
  shows "peers_move c (peer_step net h call c)"
  using others_act_moves [OF assms, of c h] peer_handles_moves [OF assms]
  by (auto simp: peer_step_def Let_def intro: peers_move_trans split: option.split Fate.split)

lemma peers_after_Nil [simp]: "peers_after net c [] = c"
  by (simp add: peers_after_def)

lemma peers_after_snoc: "peers_after net c (h @ [call]) = peer_step net h call (peers_after net c h)"
  by (simp add: peers_after_def)

lemma peers_after_moves:
  assumes "on_files (net_Server net)"
  shows "peers_move (peers_after net c h) (peers_after net c (h @ h'))"
proof (induction h' rule: rev_induct)
  case (snoc call h')
  then show ?case using peer_step_moves [OF assms]
    by (metis append.assoc peers_after_snoc peers_move_trans)
qed simp

lemma sound_moves: "sound c \<Longrightarrow> peers_move c c' \<Longrightarrow> sound c'"
  by (auto simp: sound_def peers_move_def moves_def)

lemma committed_moves: "sound c \<Longrightarrow> peers_move c c' \<Longrightarrow> dest_committed c sid \<Longrightarrow> dest_committed c' sid"
  unfolding dest_committed_def sound_def peers_move_def moves_def later_def by blast

context session_store
begin

lemma commit_accepted:
  assumes "srv_Store srv = Some S" "keyed (holds st)" "commit srv now sid st w = (rep, st', w')" "reply_code rep < 300"
  shows "\<exists>s. holds st' sid = Some s \<and> ses_Phase s = ''Committed''"
proof (cases "store_Get S st sid")
  case (Pair r st1)
  then have h: "holds st1 = holds st" using get_keeps by blast
  from assms Pair obtain s where s: "r = Inr s" "dependencies srv = None"
    by (cases r) (auto simp: commit_def transition_def get_failed_def split: option.splits StoreErr.splits)
  then have held_at: "holds st sid = Some s" "ses_ID s = sid" using get_found Pair assms(2) by (auto simp: keyed_def)
  show ?thesis
  proof (cases "transition_verdict ''Committed'' s")
    case AlreadyThere
    then have "ses_Phase s = ''Committed''" by (auto simp: transition_verdict_def split: if_splits)
    then show ?thesis using assms s Pair AlreadyThere h held_at by (auto simp: commit_def transition_def)
  next
    case Proceed
    with assms s Pair obtain w2 where put: "store_Put S st1 (advance ''Committed'' now s) = (None, st')"
      by (auto simp: commit_def transition_def Let_def split: prod.splits option.splits)
    then show ?thesis using put_done [OF put] held_at(2) by (auto simp: advance_def)
  qed (use assms s Pair in \<open>auto simp: commit_def transition_def\<close>)
qed

end

lemma commit_answered:
  assumes "on_files (net_Server net)" "sound c" "ans_err (peer_answers net c base) h (PCommit url sid) = None"
  shows "dest_committed (peers_after net c (h @ [PCommit url sid])) sid"
proof -
  let ?c = "others_act net h (peers_after net c h)"
  obtain st w where stw: "?c url = (st, w)" by (rule prod.exhaust)
  have "sound ?c" using assms(1,2) peers_after_moves [OF assms(1), of c "[]" h] others_act_moves sound_moves by (metis append_Nil peers_after_Nil)
  then have keyed: "keyed (fs_session st)" using stw by (simp add: sound_def held_at_def) (metis fst_conv)
  from assms(3) obtain t where t: "net_Fate net h = Answered t" "reply_code (fst (commit (net_Server net url) t sid st w)) < 300"
    by (auto simp: peer_answers_def exchange_def client_do_def stw split: Fate.splits if_splits)
  obtain rep st' w' where run: "commit (net_Server net url) t sid st w = (rep, st', w')" by (rule prod_cases3)
  have "srv_Store (net_Server net url) = Some FileStoreOps" using assms(1) by (simp add: on_files_def)
  from files.commit_accepted [OF this keyed run] t(2) obtain s where "fs_session st' sid = Some s" "ses_Phase s = ''Committed''"
    unfolding run by auto
  moreover have "peers_after net c (h @ [PCommit url sid]) = ?c(url := (st', w'))"
    using t(1) stw run by (simp add: peers_after_snoc peer_step_def peer_handles_def)
  ultimately show ?thesis unfolding dest_committed_def held_at_def by (intro exI [of _ url]) auto
qed

section \<open>The agent and its destination\<close>


section \<open>The whole system\<close>

text \<open>
  One migration object as everybody sees it: every status it ever had, because the agent and the
  controller act on what they read earlier, and the servers. A process may stop after any call,
  and a status it writes may or may not be stored.
\<close>

record 'w Live =
  lv_seen :: "MachineMigrationStatus set"
  lv_peers :: "'w peers"

definition agent_writes :: "AgentCall list \<Rightarrow> MachineMigrationStatus set" where
  "agent_writes calls = {st. \<exists>ns name. KMigStatus ns name st \<in> set calls}"

definition controller_writes :: "MigCall list \<Rightarrow> MachineMigrationStatus set" where
  "controller_writes calls = {st. \<exists>c \<in> set calls. status_of c = Some st}"

inductive live_step :: "(string \<Rightarrow> (FileStore, 'w) Server) \<Rightarrow> ObjectMeta \<Rightarrow> 'w Live \<Rightarrow> 'w Live \<Rightarrow> bool" for srvs meta where
  agent: "mm_Metadata item = meta \<Longrightarrow> mm_Status item \<in> lv_seen s \<Longrightarrow> mig_Recovery (mm_Spec item) = None \<Longrightarrow> net_Server net = srvs
    \<Longrightarrow> run_state (agent_migrations ag (peer_answers net (lv_peers s) base) [item]) [] = ((), calls) \<Longrightarrow> cs = take k calls
    \<Longrightarrow> written \<subseteq> agent_writes cs
    \<Longrightarrow> live_step srvs meta s (s\<lparr>lv_seen := lv_seen s \<union> written, lv_peers := peers_after net (lv_peers s) cs\<rparr>)"
| controller: "mm_Metadata item = meta \<Longrightarrow> mm_Status item \<in> lv_seen s
    \<Longrightarrow> written \<subseteq> controller_writes (fst (migration_loop cfg api machines nodes nl [item] load ps))
    \<Longrightarrow> live_step srvs meta s (s\<lparr>lv_seen := lv_seen s \<union> written\<rparr>)"
| server: "live_step srvs meta s (s\<lparr>lv_peers := peer_handles srvs req (lv_peers s)\<rparr>)"

definition cutover_backed :: "ObjectMeta \<Rightarrow> 'w Live \<Rightarrow> bool" where
  \<comment> \<open>a status that says \<open>Cutover\<close> is backed by a commit on a destination\<close>
  "cutover_backed meta s \<longleftrightarrow> sound (lv_peers s) \<and>
     (\<forall>st \<in> lv_seen s. ms_Phase st = ''Cutover'' \<longrightarrow>
        (\<forall>item. mm_Metadata item = meta \<longrightarrow> dest_committed (lv_peers s) (migrationSessionID item)))"

lemma migrationSessionID_meta: "mm_Metadata a = mm_Metadata b \<Longrightarrow> migrationSessionID a = migrationSessionID b"
  by (simp add: migrationSessionID_def mm_ns_def meta_ns_def Let_def)

lemma recovery_keeps_phase:
  assumes "mig_Recovery (mm_Spec item) = None" "mm_phase item = ''NeedsRecovery''"
  shows "only_calls (\<lambda>c. \<not> cuts_over c) (agent_reconcileMigration ag ans item)"
proof -
  have "only_calls (\<lambda>c. \<not> cuts_over c) (resolve_recovery ans item url)" for url
    unfolding resolve_recovery_def assms(1)
    using assms(2) by (auto intro!: only_calls_bind [OF quiet_helpers(7)] patch_status_calls)
  then show ?thesis using assms(2)
    by (auto simp: agent_reconcileMigration_def reconcileNeedsRecovery_def intro!: call_intros split: sum.split)
qed

lemma tick_cutover:
  assumes "on_files (net_Server net)" "sound c" "mig_Recovery (mm_Spec item) = None"
    and "run_state (agent_migrations ag (peer_answers net c base) [item]) [] = ((), calls)"
    and "KMigStatus ns name st \<in> set (take k calls)" "ms_Phase st = ''Cutover''"
  shows "dest_committed (peers_after net c (take k calls)) (migrationSessionID item)"
proof -
  let ?ans = "peer_answers net c base" and ?sid = "migrationSessionID item" and ?x = "KMigStatus ns name st"
  obtain r calls1 where run: "run_state (agent_reconcileMigration ag ?ans item) [] = (r, calls1)" by (rule prod.exhaust)
  have "ms_SourceNode (mm_Status item) = ag_NodeName ag" using assms(4,5) by (auto simp: State_Monad.return_def split: if_splits)
  then obtain tail where tail: "calls = calls1 @ tail" "list_all (\<lambda>c. \<not> cuts_over c) tail"
    using assms(4) run by (cases r) (auto simp: State_Monad.bind_def State_Monad.return_def patch_status_def perform_def ask_def)
  have x: "?x \<in> set calls1" using assms(5,6) tail by (auto simp: list_all_iff dest!: in_set_takeD)
  have "mm_phase item \<noteq> ''NeedsRecovery''"
  proof
    assume "mm_phase item = ''NeedsRecovery''"
    from only_calls_run [OF recovery_keeps_phase [OF assms(3) this] run] show False
      using x assms(6) by (fastforce simp: list_all_iff)
  qed
  from reconcile_last_cutover [OF this run, of ?x] x assms(6) obtain cs where
    cs: "calls1 = cs @ [?x]" "list_all (\<lambda>c. \<not> cuts_over c) cs" "committed ?ans ?sid cs" by auto
  then obtain before url where before: "cs = before @ [PCommit url ?sid]" "ans_err ?ans before (PCommit url ?sid) = None"
    unfolding committed_def by blast
  have "length cs < k"
  proof (rule ccontr)
    assume "\<not> length cs < k"
    then have "?x \<in> set cs" using assms(5) cs(1) tail(1) by (auto dest: in_set_takeD)
    then show False using cs(2) assms(6) by (auto simp: list_all_iff)
  qed
  then obtain more where more: "take k calls = cs @ more" using cs(1) tail(1) by auto
  have "dest_committed (peers_after net c cs) ?sid" using commit_answered [OF assms(1,2) before(2)] before(1) by simp
  moreover have "sound (peers_after net c cs)" using sound_moves [OF assms(2)] peers_after_moves [OF assms(1), of c "[]" cs] by simp
  ultimately show ?thesis unfolding more using committed_moves peers_after_moves [OF assms(1)] by blast
qed

lemma controller_never_cuts_over:
  "st \<in> controller_writes (fst (migration_loop cfg api machines nodes nl [item] load ps)) \<Longrightarrow> ms_Phase st \<noteq> ''Cutover''"
proof -
  let ?out = "reconcileMigration cfg api item machines nodes nl load ps"
  have "ms_Phase st \<noteq> ''Cutover''" if "c \<in> set (out_calls ?out)" "status_of c = Some st" for c
    using that(1)
  proof (cases rule: reconcileMigration_cases)
    case (1 m)
    then show ?thesis using admission_calls [OF admitMigration_admission 1(4)] that(2) by auto
  next
    case (2 m cs)
    then show ?thesis using advance_calls_edges [OF 2(3,4) that(2)] by auto
  qed
  then show "st \<in> controller_writes (fst (migration_loop cfg api machines nodes nl [item] load ps)) \<Longrightarrow> ms_Phase st \<noteq> ''Cutover''"
    by (auto simp: controller_writes_def Let_def mig_status_def failed_status_def split: option.splits)
qed

lemma live_step_backed:
  assumes "live_step srvs meta s s'" "on_files srvs" "cutover_backed meta s"
  shows "cutover_backed meta s'"
  using assms(1)
proof cases
  case (agent item net ag base calls cs k written)
  have net: "on_files (net_Server net)" using agent assms(2) by simp
  have sound: "sound (lv_peers s)" using assms(3) by (simp add: cutover_backed_def)
  have move: "peers_move (lv_peers s) (peers_after net (lv_peers s) cs)" using peers_after_moves [OF net, of "lv_peers s" "[]" cs] by simp
  have "dest_committed (peers_after net (lv_peers s) cs) (migrationSessionID item')"
    if "st \<in> lv_seen s \<union> written" "ms_Phase st = ''Cutover''" "mm_Metadata item' = meta" for st item'
    using that(1)
  proof
    assume "st \<in> lv_seen s"
    then have "dest_committed (lv_peers s) (migrationSessionID item')" using assms(3) that by (auto simp: cutover_backed_def)
    then show ?thesis using committed_moves [OF sound move] by blast
  next
    assume "st \<in> written"
    then obtain ns name where "KMigStatus ns name st \<in> set (take k calls)" using agent by (auto simp: agent_writes_def)
    from tick_cutover [OF net sound _ _ this that(2)] agent
    have "dest_committed (peers_after net (lv_peers s) cs) (migrationSessionID item)" by blast
    then show ?thesis using migrationSessionID_meta [of item item'] agent that(3) by simp
  qed
  then show ?thesis using agent(1) sound_moves [OF sound move] by (auto simp: cutover_backed_def)
next
  case (controller item written cfg api machines nodes nl load ps)
  then show ?thesis using assms(3) controller_never_cuts_over by (fastforce simp: cutover_backed_def)
next
  case (server req)
  have move: "peers_move (lv_peers s) (peer_handles srvs req (lv_peers s))" using peer_handles_moves [OF assms(2)] .
  have "sound (lv_peers s)" using assms(3) by (simp add: cutover_backed_def)
  then show ?thesis using assms(3) sound_moves [OF _ move] committed_moves [OF _ move] server
    by (auto simp: cutover_backed_def)
qed


section \<open>Progress\<close>

definition cooperative :: "Agent \<Rightarrow> Answers \<Rightarrow> Machine \<Rightarrow> bool" where
  \<comment> \<open>no call fails, the Machine and its runtime are found and the source transfer has completed\<close>
  "cooperative ag ans m \<longleftrightarrow> source_refusal ag m = None \<and> ag_MigrationPeer ag \<and> ag_SourceMigrator ag \<and> ag_MigrationPeerURL ag
     \<and> (\<forall>h c. ans_err ans h c = None) \<and> (\<forall>h. ans_Machine ans h = Ok m) \<and> (\<forall>h. \<exists>url. ans_URL ans h = Ok url)
     \<and> (\<forall>h. \<exists>rec. ans_Get ans h = Ok rec \<and> vm_ID rec \<noteq> []) \<and> (\<forall>h. \<exists>rec. ans_Lookup ans h = Ok (Some rec) \<and> vm_ID rec \<noteq> [])
     \<and> (\<forall>h c. \<exists>t. ans_Transfer ans h c = Inr t \<and> ToLower (TrimSpace (ts_Phase t)) = ''completed'')"

lemma coop_current:
  assumes "cooperative ag ans m"
  shows "\<exists>rec h'. run_state (current ans m) h = (Ok (Some rec), h') \<and> vm_ID rec \<noteq> []"
proof (cases "st_RuntimeID (mach_Status m) = []")
  case True
  obtain rec where "ans_Lookup ans h = Ok (Some rec)" "vm_ID rec \<noteq> []" using assms unfolding cooperative_def by blast
  then show ?thesis using True by (simp add: current_def ask_def)
next
  case False
  obtain rec where "ans_Get ans h = Ok rec" "vm_ID rec \<noteq> []" using assms unfolding cooperative_def by blast
  then show ?thesis using False by (simp add: current_def run_simps)
qed

lemma coop_url:
  assumes "cooperative ag ans m"
  shows "\<exists>url h'. run_state (peer_url ag ans node) h = (Ok url, h')"
proof -
  obtain url where "ans_URL ans h = Ok url" using assms unfolding cooperative_def by blast
  then show ?thesis using assms by (simp add: peer_url_def ask_def cooperative_def)
qed

lemma agent_reaches_cutover:
  assumes "cooperative ag ans m" "mm_phase item = ''Running''" "ms_EffectiveStrategy (mm_Status item) = ''live''" "\<not> mig_Cancel (mm_Spec item)"
    and "ms_SessionID (mm_Status item) \<noteq> []" "ms_TransferID (mm_Status item) \<noteq> []"
  shows "\<exists>calls st. run_state (agent_reconcileMigration ag ans item) h = (None, calls @ [KMigStatus (mm_ns item) (mm_name item) st])
    \<and> ms_Phase st = ''Cutover'' \<and> ms_EffectiveStrategy st = ''live'' \<and> ms_TargetNode st = ms_TargetNode (mm_Status item)"
proof -
  let ?h1 = "h @ [KGetMachine (mm_ns item) (mig_MachineName (mm_Spec item))]"
  obtain rec h2 where cur: "run_state (current ans m) ?h1 = (Ok (Some rec), h2)" "vm_ID rec \<noteq> []"
    using coop_current [OF assms(1)] by blast
  obtain url h3 where url: "run_state (peer_url ag ans (ms_TargetNode (mm_Status item))) h2 = (Ok url, h3)"
    using coop_url [OF assms(1)] by blast
  let ?s = "live_session item rec" and ?tid = "ms_TransferID (mm_Status item)"
  obtain t where t: "ans_Transfer ans h3 (SStatus ?s ?tid) = Inr t" "ToLower (TrimSpace (ts_Phase t)) = ''completed''"
    using assms(1) unfolding cooperative_def by blast
  have ok: "\<And>h c. ans_err ans h c = None" "source_refusal ag m = None" "ag_MigrationPeer ag" "ag_SourceMigrator ag"
    "\<And>h. ans_Machine ans h = Ok m" using assms(1) by (auto simp: cooperative_def)
  show ?thesis using assms(2-6) cur url t ok
    by (auto simp: agent_reconcileMigration_def continue_migration_def poll_migration_def projectTransfer_def patch_status_def
        run_simps Let_def transfer_status_def)
qed


section \<open>A run of the three processes\<close>

text \<open>
  The destination \<open>https://b\<close> holds the session as prepared; every message but the commit is lost.
\<close>

definition prepared_session :: Session where
  "prepared_session = (live_session running_item one_vm)\<lparr>ses_Phase := ''Prepared'', ses_TransferSupported := True\<rparr>"

definition prepared_peers :: "unit peers" where
  "prepared_peers = (\<lambda>_. (\<lparr>fs_files = [(migrationSessionID running_item @ ''.json'', Ok prepared_session)], fs_faults = []\<rparr>, ()))"

definition lossy_net :: "unit Net" where
  "lossy_net = \<lparr>net_Server = (\<lambda>_. sample_server), net_Fate = (\<lambda>h. if h = running_calls then Answered 5 else Lost ''timeout''),
     net_Others = (\<lambda>_. []), net_Body = (\<lambda>_. [])\<rparr>"

abbreviation (input) "sid1 \<equiv> migrationSessionID running_item"

abbreviation (input) "commit1 \<equiv> PCommit ''https://b'' (migrationSessionID running_item)"

lemma lossy_servers: "on_files (net_Server lossy_net)"
  by (simp add: on_files_def lossy_net_def sample_server_def)

lemma held_prepared: "held_at prepared_peers url sid = (if sid = sid1 then Some prepared_session else None)"
  by (auto simp: held_at_def prepared_peers_def fs_session_def)

lemma prepared_sound: "sound prepared_peers"
  by (simp add: sound_def keyed_def held_prepared prepared_session_def)

lemma lost_on_the_way: "length h \<le> length running_calls \<Longrightarrow> peers_after lossy_net prepared_peers h = prepared_peers"
proof (induction h rule: rev_induct)
  case (snoc x h)
  then have "h \<noteq> running_calls" by auto
  then show ?case using snoc by (simp add: peers_after_snoc peer_step_def others_act_def lossy_net_def split: option.split)
qed simp

lemma commit_gets_through: "ans_err (peer_answers lossy_net prepared_peers base) running_calls commit1 = None"
proof -
  have path: "fs_path sid1 = Ok (sid1 @ ''.json'')" using safe_session_id by (simp add: fs_path_def)
  have valid: "SessionValidate (advance ''Committed'' 5 prepared_session) = None"
    using safe_session_id [of running_item]
    by (simp add: SessionValidate_def advance_def prepared_session_def live_session_def safeName_def safe_text_def alnum_def in_class_def)
  have sel: "ses_ID (advance ''Committed'' 5 prepared_session) = sid1" "ses_Phase prepared_session = ''Prepared''"
    by (simp_all add: prepared_session_def advance_def)
  have reply: "fst (commit sample_server 5 sid1 (fst (prepared_peers u)) ()) = Reply 200 (response (advance ''Committed'' 5 prepared_session))" for u
    using path valid sel
    by (simp add: commit_def transition_def dependencies_def sample_server_def obliging_driver_def FileStoreOps_def prepared_peers_def
        fs_Get_def fs_Put_def next_fault_def transition_verdict_def)
  obtain st where st: "prepared_peers ''https://b'' = (st, ())" by (cases "prepared_peers ''https://b''") auto
  have "fst (commit sample_server 5 sid1 st ()) = Reply 200 (response (advance ''Committed'' 5 prepared_session))"
    using reply [of "''https://b''"] st by simp
  moreover have "net_Fate lossy_net running_calls = Answered 5" "net_Server lossy_net = (\<lambda>_. sample_server)" "net_Others lossy_net = (\<lambda>_. [])"
    by (simp_all add: lossy_net_def)
  moreover have "peers_after lossy_net prepared_peers running_calls = prepared_peers" by (rule lost_on_the_way) simp
  ultimately show ?thesis using st by (simp add: peer_answers_def exchange_def others_act_def client_do_def)
qed

lemma lossy_example:
  "run_state (agent_reconcileMigration source_agent (peer_answers lossy_net prepared_peers (smooth_answers\<lparr>ans_err := f\<rparr>)) running_item) []
    = (f (running_calls @ [commit1]) (KMigStatus ''default'' ''m1'' cutover_status), running_calls @ [commit1, KMigStatus ''default'' ''m1'' cutover_status])"
proof -
  have shape: "\<exists>g d. peer_answers net c (smooth_answers\<lparr>ans_err := f\<rparr>)
      = smooth_answers\<lparr>ans_err := ans_err (peer_answers net c (smooth_answers\<lparr>ans_err := f\<rparr>)), ans_Prepare := g, ans_Diagnose := d\<rparr>" for net and c :: "unit peers"
    by (auto simp: peer_answers_def smooth_answers_def)
  then obtain g d where ans: "peer_answers lossy_net prepared_peers (smooth_answers\<lparr>ans_err := f\<rparr>)
      = smooth_answers\<lparr>ans_err := ans_err (peer_answers lossy_net prepared_peers (smooth_answers\<lparr>ans_err := f\<rparr>)), ans_Prepare := g, ans_Diagnose := d\<rparr>"
    by blast
  show ?thesis using running_example [OF ans commit_gets_through] by (simp add: peer_answers_def exchange_def)
qed


lemma lossy_tick:
  "run_state (agent_migrations source_agent (peer_answers lossy_net prepared_peers smooth_answers) [running_item]) []
     = ((), running_calls @ [commit1, KMigStatus ''default'' ''m1'' cutover_status])"
proof -
  have "smooth_answers = smooth_answers\<lparr>ans_err := \<lambda>_ _. None\<rparr>" by (simp add: smooth_answers_def)
  then show ?thesis using lossy_example [of "\<lambda>_ _. None"] by (simp add: run_simps source_agent_def)
qed

definition running_state :: "unit Live" where
  "running_state = \<lparr>lv_seen = {mm_Status running_item}, lv_peers = prepared_peers\<rparr>"

definition cutover_state :: "unit Live" where
  "cutover_state = \<lparr>lv_seen = {mm_Status running_item, cutover_status},
     lv_peers = peers_after lossy_net prepared_peers (running_calls @ [commit1, KMigStatus ''default'' ''m1'' cutover_status])\<rparr>"

definition cutover_item :: MachineMigration where
  "cutover_item = running_item\<lparr>mm_Status := cutover_status\<rparr>"

definition cutover_patch :: MachinePatch where
  "cutover_patch = NoPatch\<lparr>patch_nodeName := Some ''b'',
     patch_annotations := [(AnnotationAdoptOnly, Some ''true''), (AnnotationMigrationRef, Some ''m1'')],
     patch_labels := [(AssignedNodeLabel, Some ''b'')]\<rparr>"

lemma running_state_step: "live_step (net_Server lossy_net) (mm_Metadata running_item) running_state cutover_state"
proof -
  let ?calls = "running_calls @ [commit1, KMigStatus ''default'' ''m1'' cutover_status]"
  have peers: "lv_peers running_state = prepared_peers" and seen: "mm_Status running_item \<in> lv_seen running_state"
    by (simp_all add: running_state_def)
  have no_recovery: "mig_Recovery (mm_Spec running_item) = None" by (simp add: running_item_def MachineMigration0_def)
  have tick: "run_state (agent_migrations source_agent (peer_answers lossy_net (lv_peers running_state) smooth_answers) [running_item]) [] = ((), ?calls)"
    unfolding peers by (rule lossy_tick)
  have written: "{cutover_status} \<subseteq> agent_writes ?calls" by (auto simp: agent_writes_def)
  have all: "?calls = take (length ?calls) ?calls" by simp
  from live_step.agent [OF refl seen no_recovery refl tick all written] show ?thesis
    by (simp add: running_state_def cutover_state_def insert_commute)
qed

lemma cutover_example:
  "fst (migration_loop no_limits (\<lambda>_. None) [vm_on ''a'' ''Running''] [] [] [cutover_item] load ps)
     = [CallMachine ''default'' ''vm'' cutover_patch,
        mig_status cutover_item (cutover_status\<lparr>ms_Phase := ''Adopting'', ms_Message := ''source migration completed; target is in adopt-only mode''\<rparr>)]"
proof -
  have sel: "mm_phase cutover_item = ''Cutover''" "mm_Status cutover_item = cutover_status" "mm_ns cutover_item = ''default''"
    "mm_name cutover_item = ''m1''" "mig_MachineName (mm_Spec cutover_item) = ''vm''"
    using running_item_sel by (simp_all add: cutover_item_def mm_ns_def cutover_status_def)
  have st: "ms_EffectiveStrategy cutover_status = ''live''" "ms_TargetNode cutover_status = ''b''"
    by (simp_all add: cutover_status_def transfer_status_def)
  show ?thesis by (simp add: reconcileMigration_def advance_calls_def settled_phase_def sel st cutover_patch_def Let_def)
qed


definition adopted_vm :: Machine where
  "adopted_vm = (vm_on ''b'' ''Running'')\<lparr>mach_Status := (mach_Status (vm_on ''b'' ''Running''))\<lparr>st_NodeName := ''b''\<rparr>\<rparr>"

lemma adopted_vm_sel [simp]:
  "m_node adopted_vm = ''b''" "st_NodeName (mach_Status adopted_vm) = ''b''" "m_phase adopted_vm = ''Running''" "meta_DeletionTimestamp (mach_Metadata adopted_vm) = None"
  "last_with_key [adopted_vm] ''default/vm'' = Some adopted_vm"
  by (simp_all add: adopted_vm_def vm_on_def last_with_key_def m_key_def Namespace_def meta_ns_def DefaultNamespace_def Machine0_def)

lemma smooth_cooperative:
  "cooperative source_agent (smooth_answers\<lparr>ans_Machine := \<lambda>_. Ok (vm_on ''a'' ''Running'')\<rparr>) (vm_on ''a'' ''Running'')"
  using done_phase
  by (simp add: cooperative_def smooth_answers_def source_agent_def source_refusal_def vm_on_def Machine0_def one_vm_def vm_ID_def)



end
