(* ===== verification/Machine_Set.thy ===== *)
theory Machine_Set
  imports Model_Types Quantity Go_Hash Call_Log
begin

text \<open>
  MachineSets (\<open>internal/model/machineset.go\<close>, \<open>internal/controller/machineset.go\<close>): replicas of one
  template, created and deleted by the controller one batch a tick, and the cascade of a deleted
  set. The JSON text of a template and the random suffix of a name are arguments.
\<close>

section \<open>Objects\<close>

definition LabelMachineSet :: string where "LabelMachineSet = ''kairon.zyvor.dev/machineset''"
definition LabelMachineSetTemplateHash :: string where "LabelMachineSetTemplateHash = ''kairon.zyvor.dev/machineset-template-hash''"
definition FinalizerMachineSet :: string where "FinalizerMachineSet = ''kairon.zyvor.dev/machineset-cleanup''"

record MachineTemplate =
  mt_Labels :: smap
  mt_Spec :: MachineSpec

record MachineSetSpec =
  mset_Replicas :: int
  mset_Template :: MachineTemplate
  mset_Strategy :: string
  mset_MaxUnavailable :: string

record MachineSetStatus =
  mss_Replicas :: int
  mss_ReadyReplicas :: int
  mss_UpdatedReplicas :: int
  mss_Selector :: string
  mss_Message :: string

record MachineSet =
  mset_Metadata :: ObjectMeta
  mset_Spec :: MachineSetSpec
  mset_Status :: MachineSetStatus

abbreviation mset_ns :: "MachineSet \<Rightarrow> string" where "mset_ns ms \<equiv> meta_Namespace (mset_Metadata ms)"
abbreviation mset_name :: "MachineSet \<Rightarrow> string" where "mset_name ms \<equiv> meta_Name (mset_Metadata ms)"

section \<open>The controller\<close>

datatype SetCall =
    SetFinalizers string string "string list"
  | SetStatus string string MachineSetStatus
  | DeleteMachine string string
  | CreateMachine string Machine

record SetEnv =
  env_api :: "SetCall list \<Rightarrow> SetCall \<Rightarrow> err option"
  env_rand :: "SetCall list \<Rightarrow> nat list"  \<comment> \<open>the bytes \<open>rand.Read\<close> fills in\<close>
  env_json :: "MachineTemplate \<Rightarrow> string"

definition machineSetTemplateHash :: "(MachineTemplate \<Rightarrow> string) \<Rightarrow> MachineTemplate \<Rightarrow> string" where
  "machineSetTemplateHash json t = take 12 (hex (Sum256 (json t)))"

definition set_labelled :: "MachineSet \<Rightarrow> Machine \<Rightarrow> bool" where
  "set_labelled ms m \<longleftrightarrow> Namespace m = mset_ns ms \<and> mget (m_labels m) LabelMachineSet = mset_name ms"

definition ownedMachines :: "MachineSet \<Rightarrow> Machine list \<Rightarrow> Machine list" where
  "ownedMachines ms machines = filter (\<lambda>m. set_labelled ms m \<and> \<not> m_deleted m) machines"

definition resolveMaxUnavailable :: "string \<Rightarrow> int \<Rightarrow> int res" where
  "resolveMaxUnavailable spec desired =
     (case ParseIntOrPercent (if spec = [] then ''1'' else spec) desired of
        Inl e \<Rightarrow> Err e
      | Inr n \<Rightarrow> Ok (if n < 1 then 1 else n))"

fun deleteMachines :: "SetEnv \<Rightarrow> Machine list \<Rightarrow> (SetCall, err option) io" where
  "deleteMachines env [] = State_Monad.return None"
| "deleteMachines env (m # ms) = do {
     e \<leftarrow> attempt (env_api env) (DeleteMachine (Namespace m) (m_name m));
     (case e of
        Some e \<Rightarrow> State_Monad.return (Some (''delete machine '' @ Namespace m @ ''/'' @ m_name m @ '': '' @ e))
      | None \<Rightarrow> deleteMachines env ms)
   }"

definition generateMachineSetChildName :: "string \<Rightarrow> nat list \<Rightarrow> string" where
  "generateMachineSetChildName name buf = name @ ''-'' @ hex (take 4 buf)"

definition set_replica :: "MachineSet \<Rightarrow> string \<Rightarrow> nat list \<Rightarrow> Machine" where
  "set_replica ms hash buf = Machine0\<lparr>
     mach_Metadata := ObjectMeta0\<lparr>meta_Name := generateMachineSetChildName (mset_name ms) buf, meta_Namespace := mset_ns ms,
       meta_Labels := mput (mput (mt_Labels (mset_Template (mset_Spec ms))) LabelMachineSet (mset_name ms))
         LabelMachineSetTemplateHash hash\<rparr>,
     mach_Spec := mt_Spec (mset_Template (mset_Spec ms))\<rparr>"

fun createMachineSetReplicas :: "SetEnv \<Rightarrow> MachineSet \<Rightarrow> string \<Rightarrow> nat \<Rightarrow> (SetCall, err option) io" where
  "createMachineSetReplicas env ms hash 0 = State_Monad.return None"
| "createMachineSetReplicas env ms hash (Suc n) = do {
     buf \<leftarrow> State (\<lambda>h. (env_rand env h, h));
     e \<leftarrow> attempt (env_api env) (CreateMachine (mset_ns ms) (set_replica ms hash buf));
     (case e of
        Some e \<Rightarrow> State_Monad.return (Some (''create machine for machineset '' @ mset_ns ms @ ''/'' @ mset_name ms @ '': '' @ e))
      | None \<Rightarrow> createMachineSetReplicas env ms hash n)
   }"

definition rolling_deletes :: "int \<Rightarrow> int \<Rightarrow> nat \<Rightarrow> Machine list \<Rightarrow> Machine list" where
  \<comment> \<open>the outdated replicas a rolling update takes down in this tick\<close>
  "rolling_deletes desired maxUnavailable readyCurrent outdated =
     (let minAvailable = desired - maxUnavailable; available = int readyCurrent + int (length outdated);
          canDelete = available - minAvailable in
      if canDelete \<le> 0 then []
      else take (nat (if canDelete > int (length outdated) then int (length outdated) else canDelete)) outdated)"

definition stepMachineSetToward ::
  "SetEnv \<Rightarrow> MachineSet \<Rightarrow> string \<Rightarrow> string \<Rightarrow> int \<Rightarrow> Machine list \<Rightarrow> Machine list \<Rightarrow> nat \<Rightarrow> (SetCall, err option) io" where
  "stepMachineSetToward env ms hash strategy desired current outdated readyCurrent =
     (let totl = int (length current) + int (length outdated) in
      if totl < desired then createMachineSetReplicas env ms hash (nat (desired - totl))
      else if strategy = ''Recreate'' then
        (if outdated \<noteq> [] then deleteMachines env outdated
         else if int (length current) > desired then deleteMachines env (take (nat (int (length current) - desired)) current)
         else State_Monad.return None)
      else if outdated \<noteq> [] then
        (case resolveMaxUnavailable (mset_MaxUnavailable (mset_Spec ms)) desired of
           Inl e \<Rightarrow> State_Monad.return (Some (''spec.maxUnavailable: '' @ e))
         | Inr maxUnavailable \<Rightarrow> deleteMachines env (rolling_deletes desired maxUnavailable readyCurrent outdated))
      else if int (length current) > desired then deleteMachines env (take (nat (int (length current) - desired)) current)
      else State_Monad.return None)"

definition set_current :: "string \<Rightarrow> Machine \<Rightarrow> bool" where
  "set_current hash m \<longleftrightarrow> mget (m_labels m) LabelMachineSetTemplateHash = hash"

definition set_desired :: "MachineSet \<Rightarrow> int" where
  "set_desired ms = (if mset_Replicas (mset_Spec ms) < 0 then 0 else mset_Replicas (mset_Spec ms))"

definition set_ready :: "Machine list \<Rightarrow> nat" where
  "set_ready ms = length (filter (\<lambda>m. m_phase m = ''Running'') ms)"

definition set_tally :: "MachineSet \<Rightarrow> Machine list \<Rightarrow> Machine list \<Rightarrow> MachineSetStatus" where
  "set_tally ms owned current = \<lparr>mss_Replicas = int (length owned), mss_ReadyReplicas = int (set_ready current),
     mss_UpdatedReplicas = int (length current), mss_Selector = LabelMachineSet @ ''='' @ mset_name ms, mss_Message = []\<rparr>"

definition add_set_finalizer :: "SetEnv \<Rightarrow> MachineSet \<Rightarrow> (SetCall, err option) io" where
  "add_set_finalizer env ms =
     (let finals = meta_Finalizers (mset_Metadata ms) in
      if HasFinalizerList finals FinalizerMachineSet then State_Monad.return None
      else attempt (env_api env) (SetFinalizers (mset_ns ms) (mset_name ms) (finals @ [FinalizerMachineSet])))"

definition reconcileMachineSet :: "SetEnv \<Rightarrow> MachineSet \<Rightarrow> Machine list \<Rightarrow> (SetCall, MachineSetStatus \<times> err option) io" where
  "reconcileMachineSet env ms machines =
     (let desired = set_desired ms;
          strategy = (if mset_Strategy (mset_Spec ms) = [] then ''RollingUpdate'' else mset_Strategy (mset_Spec ms));
          hash = machineSetTemplateHash (env_json env) (mset_Template (mset_Spec ms));
          owned = ownedMachines ms machines;
          current = filter (set_current hash) owned; outdated = filter (\<lambda>m. \<not> set_current hash m) owned;
          status = set_tally ms owned current in do {
        e \<leftarrow> add_set_finalizer env ms;
        (case e of
           Some e \<Rightarrow> State_Monad.return (status, Some (''add machineset finalizer: '' @ e))
         | None \<Rightarrow> do {
             e \<leftarrow> stepMachineSetToward env ms hash strategy desired current outdated (set_ready current);
             (case e of
                Some e \<Rightarrow> State_Monad.return (status, Some e)
              | None \<Rightarrow> do {
                  e \<leftarrow> attempt (env_api env) (SetStatus (mset_ns ms) (mset_name ms) status);
                  State_Monad.return (status, e)
                })
           })
      })"

fun delete_owned :: "SetEnv \<Rightarrow> Machine list \<Rightarrow> (SetCall, bool) io" where
  \<comment> \<open>the loop of the cascade; False when a deletion failed and the tick stops\<close>
  "delete_owned env [] = State_Monad.return True"
| "delete_owned env (m # ms) =
     (if m_deleted m then delete_owned env ms
      else do {
        e \<leftarrow> attempt (env_api env) (DeleteMachine (Namespace m) (m_name m));
        (case e of Some _ \<Rightarrow> State_Monad.return False | None \<Rightarrow> delete_owned env ms)
      })"

definition reconcileMachineSetDeletion :: "SetEnv \<Rightarrow> MachineSet \<Rightarrow> Machine list \<Rightarrow> (SetCall, unit) io" where
  "reconcileMachineSetDeletion env ms machines =
     (let finals = meta_Finalizers (mset_Metadata ms); owned = filter (set_labelled ms) machines in
      if \<not> HasFinalizerList finals FinalizerMachineSet then State_Monad.return ()
      else do {
        done \<leftarrow> delete_owned env owned;
        (if \<not> done \<or> owned \<noteq> [] then State_Monad.return ()
         else do {
           _ \<leftarrow> attempt (env_api env) (SetFinalizers (mset_ns ms) (mset_name ms) (RemoveFinalizer finals FinalizerMachineSet));
           State_Monad.return ()
         })
      })"

fun reconcileMachineSets :: "SetEnv \<Rightarrow> MachineSet list \<Rightarrow> Machine list \<Rightarrow> (SetCall, unit) io" where
  "reconcileMachineSets env [] machines = State_Monad.return ()"
| "reconcileMachineSets env (ms # mss) machines =
     (if meta_DeletionTimestamp (mset_Metadata ms) \<noteq> None then do {
        _ \<leftarrow> reconcileMachineSetDeletion env ms machines;
        reconcileMachineSets env mss machines
      }
      else do {
        (status, err) \<leftarrow> reconcileMachineSet env ms machines;
        _ \<leftarrow> (case err of
          None \<Rightarrow> State_Monad.return None
        | Some e \<Rightarrow> attempt (env_api env) (SetStatus (mset_ns ms) (mset_name ms) (status\<lparr>mss_Message := e\<rparr>)));
        reconcileMachineSets env mss machines
      })"

section \<open>What a tick calls\<close>

fun set_touches :: "(Machine \<Rightarrow> bool) \<Rightarrow> SetCall \<Rightarrow> bool" where
  \<comment> \<open>a deletion is of one of these Machines\<close>
  "set_touches P (DeleteMachine ns n) = (\<exists>m. P m \<and> ns = Namespace m \<and> n = m_name m)"
| "set_touches P _ = True"

fun lifts_finalizer :: "SetCall \<Rightarrow> bool" where
  "lifts_finalizer (SetFinalizers ns n fs) = (FinalizerMachineSet \<notin> set fs)"
| "lifts_finalizer _ = False"

definition set_call_ok :: "MachineSet list \<Rightarrow> Machine list \<Rightarrow> SetCall \<Rightarrow> bool" where
  "set_call_ok sets machines c \<longleftrightarrow>
     set_touches (\<lambda>m. m \<in> set machines \<and> \<not> m_deleted m \<and> (\<exists>ms \<in> set sets. set_labelled ms m)) c
     \<and> (lifts_finalizer c \<longrightarrow> (\<exists>ms \<in> set sets. meta_DeletionTimestamp (mset_Metadata ms) \<noteq> None \<and> (\<forall>m \<in> set machines. \<not> set_labelled ms m)))"

lemma set_call_ok_simps [simp]:
  "set_call_ok sets machines (SetStatus ns n st)" "set_call_ok sets machines (CreateMachine ns m)"
  by (simp_all add: set_call_ok_def)

lemma deleteMachines_calls:
  "(\<And>m. m \<in> set ms \<Longrightarrow> ok (DeleteMachine (Namespace m) (m_name m))) \<Longrightarrow> only_calls ok (deleteMachines env ms)"
  by (induction ms) (auto intro!: call_intros split: option.split)

lemma createMachineSetReplicas_calls:
  "(\<And>m. ok (CreateMachine (mset_ns ms) m)) \<Longrightarrow> only_calls ok (createMachineSetReplicas env ms hash n)"
proof (induction n)
  case (Suc n)
  have "only_calls ok (State (\<lambda>h. (env_rand env h, h)))" by (simp add: only_calls_def)
  then show ?case using Suc by (auto intro!: call_intros split: option.split)
qed (simp add: call_intros)

lemma delete_owned_calls:
  "(\<And>m. m \<in> set ms \<Longrightarrow> \<not> m_deleted m \<Longrightarrow> ok (DeleteMachine (Namespace m) (m_name m))) \<Longrightarrow> only_calls ok (delete_owned env ms)"
  by (induction ms) (auto intro!: call_intros split: option.split)

lemma step_calls:
  assumes "\<And>m. m \<in> set current \<union> set outdated \<Longrightarrow> ok (DeleteMachine (Namespace m) (m_name m))"
    and "\<And>m. ok (CreateMachine (mset_ns ms) m)"
  shows "only_calls ok (stepMachineSetToward env ms hash strategy desired current outdated ready)"
proof -
  have "only_calls ok (deleteMachines env xs)" if "set xs \<subseteq> set current \<union> set outdated" for xs
    using that assms(1) by (intro deleteMachines_calls) blast
  moreover have "set (rolling_deletes d k r outdated) \<subseteq> set outdated" for d k r
    by (auto simp: rolling_deletes_def Let_def dest: in_set_takeD)
  moreover have "set (take n current) \<subseteq> set current" for n by (rule set_take_subset)
  moreover have "only_calls ok (createMachineSetReplicas env ms hash n)" for n
    by (rule createMachineSetReplicas_calls) (rule assms(2))
  ultimately show ?thesis
    by (auto simp: stepMachineSetToward_def Let_def subset_iff intro!: call_intros split: sum.split)
qed

lemma reconcileMachineSet_calls:
  assumes "ms \<in> set sets"
  shows "only_calls (set_call_ok sets machines) (reconcileMachineSet env ms machines)"
proof -
  have del: "set_call_ok sets machines (DeleteMachine (Namespace m) (m_name m))" if "m \<in> set (ownedMachines ms machines)" for m
    using that assms by (auto simp: set_call_ok_def ownedMachines_def)
  have "set_call_ok sets machines (SetFinalizers ns n (fs @ [FinalizerMachineSet]))" for ns n fs
    by (simp add: set_call_ok_def)
  then have fin: "only_calls (set_call_ok sets machines) (add_set_finalizer env ms)"
    by (auto simp: add_set_finalizer_def Let_def intro!: call_intros)
  have "only_calls (set_call_ok sets machines) (stepMachineSetToward env ms hash strategy d
      (filter (set_current hash) (ownedMachines ms machines)) (filter (\<lambda>m. \<not> set_current hash m) (ownedMachines ms machines)) r)" for hash strategy d r
    using del by (intro step_calls) auto
  then show ?thesis using fin unfolding reconcileMachineSet_def Let_def
    by (auto intro!: call_intros split: option.split)
qed

lemma reconcileMachineSetDeletion_calls:
  assumes "ms \<in> set sets" "meta_DeletionTimestamp (mset_Metadata ms) \<noteq> None"
  shows "only_calls (set_call_ok sets machines) (reconcileMachineSetDeletion env ms machines)"
proof -
  have "only_calls (set_call_ok sets machines) (delete_owned env (filter (set_labelled ms) machines))"
    using assms by (intro delete_owned_calls) (auto simp: set_call_ok_def)
  moreover have "set_call_ok sets machines (SetFinalizers ns n (RemoveFinalizer fs FinalizerMachineSet))"
    if "filter (set_labelled ms) machines = []" for ns n fs
    using that assms by (auto simp: set_call_ok_def RemoveFinalizer_def filter_empty_conv)
  ultimately show ?thesis unfolding reconcileMachineSetDeletion_def Let_def
    by (auto intro!: call_intros)
qed

lemma reconcileMachineSets_calls:
  assumes "set mss \<subseteq> set sets"
  shows "only_calls (set_call_ok sets machines) (reconcileMachineSets env mss machines)"
  using assms
proof (induction mss)
  case (Cons ms mss)
  then show ?case
    by (auto intro!: call_intros reconcileMachineSet_calls reconcileMachineSetDeletion_calls
        split: option.split prod.split)
qed (simp add: call_intros)

section \<open>Properties\<close>

text \<open>
  C24. MachineSets touch only their own Machines and fail closed. In a tick over all sets, with any
  calls failing, every Machine deleted carries the label of one of the sets in its namespace and is
  not being deleted already; and the finalizer is taken off only a deleted set of which no labelled
  Machine is left in the listing.
\<close>

theorem sets_touch_only_their_machines:
  assumes "run_state (reconcileMachineSets env sets machines) [] = ((), calls)" "c \<in> set calls"
  shows "set_touches (\<lambda>m. m \<in> set machines \<and> \<not> m_deleted m \<and> (\<exists>ms \<in> set sets. set_labelled ms m)) c
     \<and> (lifts_finalizer c \<longrightarrow> (\<exists>ms \<in> set sets. meta_DeletionTimestamp (mset_Metadata ms) \<noteq> None \<and> (\<forall>m \<in> set machines. \<not> set_labelled ms m)))"
proof -
  have "only_calls (set_call_ok sets machines) (reconcileMachineSets env sets machines)" by (rule reconcileMachineSets_calls) simp
  from only_calls_run [OF this assms(1)] show ?thesis using assms(2) by (auto simp: list_all_iff set_call_ok_def)
qed

section \<open>The rollout as arithmetic\<close>

text \<open>
  What the controller promises, on two numbers: the replicas of an old template and those of the
  current one. The world answers a tick by carrying out its calls: a deleted Machine is gone and a
  created one runs.
\<close>

definition set_roll :: "string \<Rightarrow> int \<Rightarrow> int \<Rightarrow> nat \<times> nat \<Rightarrow> nat \<times> nat" where
  "set_roll strategy d k = (\<lambda>(old, cur).
     if int (old + cur) < d then (old, nat d - old)
     else if old = 0 then (0, min cur (nat d))
     else if strategy = ''Recreate'' then (0, cur)
     else (old - min old (nat (int (old + cur) - (d - k))), cur))"

abbreviation m_id :: "Machine \<Rightarrow> string \<times> string" where "m_id m \<equiv> (Namespace m, m_name m)"

definition started :: "Machine \<Rightarrow> Machine" where
  "started m = m\<lparr>mach_Status := (mach_Status m)\<lparr>st_Phase := ''Running''\<rparr>\<rparr>"

fun carry_out :: "SetCall \<Rightarrow> Machine list \<Rightarrow> Machine list" where
  "carry_out (DeleteMachine ns n) w = filter (\<lambda>m. m_id m \<noteq> (ns, n)) w"
| "carry_out (CreateMachine ns m) w = w @ [started m]"
| "carry_out _ w = w"

fun created :: "SetCall list \<Rightarrow> Machine list" where
  "created [] = []"
| "created (CreateMachine ns m # cs) = m # created cs"
| "created (_ # cs) = created cs"

definition set_calls :: "SetEnv \<Rightarrow> MachineSet \<Rightarrow> Machine list \<Rightarrow> SetCall list" where
  "set_calls env ms w = snd (run_state (reconcileMachineSet env ms w) [])"

definition set_tick :: "SetEnv \<Rightarrow> MachineSet \<Rightarrow> Machine list \<Rightarrow> Machine list" where
  "set_tick env ms w = fold carry_out (set_calls env ms w) w"

definition calm_tick :: "SetEnv \<Rightarrow> MachineSet \<Rightarrow> Machine list \<Rightarrow> bool" where
  \<comment> \<open>no call fails and the random names collide with no other\<close>
  "calm_tick env ms w \<longleftrightarrow> (\<forall>h c. env_api env h c = None) \<and> distinct (map m_id (w @ created (set_calls env ms w)))"

definition set_strategy :: "MachineSet \<Rightarrow> string" where
  "set_strategy ms = (if mset_Strategy (mset_Spec ms) = [] then ''RollingUpdate'' else mset_Strategy (mset_Spec ms))"

definition set_hash :: "(MachineTemplate \<Rightarrow> string) \<Rightarrow> MachineSet \<Rightarrow> string" where
  "set_hash json ms = machineSetTemplateHash json (mset_Template (mset_Spec ms))"

definition set_old :: "(MachineTemplate \<Rightarrow> string) \<Rightarrow> MachineSet \<Rightarrow> Machine list \<Rightarrow> Machine list" where
  "set_old json ms w = filter (\<lambda>m. \<not> set_current (set_hash json ms) m) (ownedMachines ms w)"

definition set_cur :: "(MachineTemplate \<Rightarrow> string) \<Rightarrow> MachineSet \<Rightarrow> Machine list \<Rightarrow> Machine list" where
  "set_cur json ms w = filter (set_current (set_hash json ms)) (ownedMachines ms w)"

definition set_counts :: "(MachineTemplate \<Rightarrow> string) \<Rightarrow> MachineSet \<Rightarrow> Machine list \<Rightarrow> nat \<times> nat" where
  "set_counts json ms w = (length (set_old json ms w), length (set_cur json ms w))"

definition all_running :: "MachineSet \<Rightarrow> Machine list \<Rightarrow> bool" where
  "all_running ms w \<longleftrightarrow> (\<forall>m \<in> set (ownedMachines ms w). m_phase m = ''Running'')"

abbreviation del_call :: "Machine \<Rightarrow> SetCall" where "del_call m \<equiv> DeleteMachine (Namespace m) (m_name m)"

lemma delete_run: "\<forall>h c. env_api env h c = None \<Longrightarrow> run_state (deleteMachines env xs) h = (None, h @ map del_call xs)"
  by (induction xs arbitrary: h) (simp_all add: State_Monad.bind_def State_Monad.return_def attempt_def ask_def)

lemma create_run:
  "\<forall>h c. env_api env h c = None \<Longrightarrow> \<exists>bufs. length bufs = n \<and>
     run_state (createMachineSetReplicas env ms hash n) h = (None, h @ map (\<lambda>b. CreateMachine (mset_ns ms) (set_replica ms hash b)) bufs)"
proof (induction n arbitrary: h)
  case (Suc n)
  obtain bufs where "length bufs = n" "run_state (createMachineSetReplicas env ms hash n)
      (h @ [CreateMachine (mset_ns ms) (set_replica ms hash (env_rand env h))])
      = (None, (h @ [CreateMachine (mset_ns ms) (set_replica ms hash (env_rand env h))])
           @ map (\<lambda>b. CreateMachine (mset_ns ms) (set_replica ms hash b)) bufs)"
    using Suc by blast
  then show ?case using Suc.prems
    by (intro exI [of _ "env_rand env h # bufs"]) (simp add: State_Monad.bind_def attempt_def ask_def)
qed (simp add: State_Monad.return_def)

definition set_batch :: "string \<Rightarrow> int \<Rightarrow> int \<Rightarrow> Machine list \<Rightarrow> Machine list \<Rightarrow> nat \<Rightarrow> nat + Machine list" where
  \<comment> \<open>how many replicas a tick creates, or which ones it deletes\<close>
  "set_batch strategy d k old cur ready =
     (if int (length old + length cur) < d then Inl (nat (d - int (length old + length cur)))
      else Inr (if old = [] then take (length cur - nat d) cur
        else if strategy = ''Recreate'' then old else rolling_deletes d k ready old))"

lemma step_run:
  assumes "\<forall>h c. env_api env h c = None" "resolveMaxUnavailable (mset_MaxUnavailable (mset_Spec ms)) d = Ok k" "0 \<le> d"
  shows "case set_batch strategy d k old cur ready of
      Inr xs \<Rightarrow> run_state (stepMachineSetToward env ms hash strategy d cur old ready) h = (None, h @ map del_call xs)
    | Inl n \<Rightarrow> \<exists>bufs. length bufs = n \<and> run_state (stepMachineSetToward env ms hash strategy d cur old ready) h
        = (None, h @ map (\<lambda>b. CreateMachine (mset_ns ms) (set_replica ms hash b)) bufs)"
proof (cases "int (length old + length cur) < d")
  case True
  then show ?thesis using create_run [OF assms(1), of "nat (d - int (length old + length cur))" ms hash h]
    by (simp add: set_batch_def stepMachineSetToward_def Let_def add.commute)
next
  case False
  have "nat (int (length cur) - d) = length cur - nat d" using assms(3) by linarith
  then show ?thesis using False delete_run [OF assms(1)] assms(2,3)
    by (auto simp: set_batch_def stepMachineSetToward_def Let_def State_Monad.return_def)
qed

lemma fold_deletes: "fold carry_out (map del_call xs) w = filter (\<lambda>m. m_id m \<notin> m_id ` set xs) w"
  by (induction xs arbitrary: w) (auto simp: filter_filter intro: filter_cong)

lemma fold_creates: "fold carry_out (map (\<lambda>b. CreateMachine ns (f b)) bufs) w = w @ map (\<lambda>b. started (f b)) bufs"
  by (induction bufs arbitrary: w) auto

lemma created_simps [simp]: "created (xs @ ys) = created xs @ created ys" "created (map del_call ms) = []"
  "created (map (\<lambda>b. CreateMachine ns (f b)) bufs) = map f bufs"
  by (induction xs rule: created.induct, auto) (induction ms, auto, induction bufs, auto)

lemma finalizer_run:
  assumes "\<forall>h c. env_api env h c = None"
  shows "\<exists>pre. run_state (add_set_finalizer env ms) [] = (None, pre) \<and> (\<forall>c \<in> set pre. \<exists>ns n fs. c = SetFinalizers ns n fs)"
  using assms by (cases "HasFinalizerList (meta_Finalizers (mset_Metadata ms)) FinalizerMachineSet")
    (simp_all add: add_set_finalizer_def State_Monad.return_def attempt_def ask_def)

lemma calm_calls:
  assumes "calm_tick env ms w" "resolveMaxUnavailable (mset_MaxUnavailable (mset_Spec ms)) (set_desired ms) = Ok k"
  shows "\<exists>pre batch st. set_calls env ms w = pre @ batch @ [SetStatus (mset_ns ms) (mset_name ms) st]
    \<and> (\<forall>c \<in> set pre. \<exists>ns n fs. c = SetFinalizers ns n fs)
    \<and> (case set_batch (set_strategy ms) (set_desired ms) k (set_old (env_json env) ms w) (set_cur (env_json env) ms w)
          (set_ready (set_cur (env_json env) ms w)) of
        Inr xs \<Rightarrow> batch = map del_call xs
      | Inl n \<Rightarrow> \<exists>bufs. length bufs = n \<and> batch = map (\<lambda>b. CreateMachine (mset_ns ms) (set_replica ms (set_hash (env_json env) ms) b)) bufs)"
proof -
  let ?h = "set_hash (env_json env) ms" and ?b = "set_batch (set_strategy ms) (set_desired ms) k (set_old (env_json env) ms w)
     (set_cur (env_json env) ms w) (set_ready (set_cur (env_json env) ms w))"
  let ?step = "stepMachineSetToward env ms ?h (set_strategy ms) (set_desired ms) (set_cur (env_json env) ms w) (set_old (env_json env) ms w)
     (set_ready (set_cur (env_json env) ms w))"
  let ?st = "set_tally ms (ownedMachines ms w) (set_cur (env_json env) ms w)"
  have ok: "\<forall>h c. env_api env h c = None" using assms(1) by (simp add: calm_tick_def)
  obtain pre where pre: "run_state (add_set_finalizer env ms) [] = (None, pre)" "\<forall>c \<in> set pre. \<exists>ns n fs. c = SetFinalizers ns n fs"
    using finalizer_run [OF ok] by blast
  have "0 \<le> set_desired ms" by (simp add: set_desired_def)
  from step_run [OF ok assms(2) this, where strategy = "set_strategy ms" and old = "set_old (env_json env) ms w"
      and cur = "set_cur (env_json env) ms w" and ready = "set_ready (set_cur (env_json env) ms w)" and hash = ?h and h = pre]
  obtain batch where batch: "run_state ?step pre = (None, pre @ batch)"
    "case ?b of Inr xs \<Rightarrow> batch = map del_call xs
      | Inl n \<Rightarrow> \<exists>bufs. length bufs = n \<and> batch = map (\<lambda>b. CreateMachine (mset_ns ms) (set_replica ms ?h b)) bufs"
    by (auto split: sum.splits)
  have "run_state (reconcileMachineSet env ms w) [] = ((?st, None), (pre @ batch) @ [SetStatus (mset_ns ms) (mset_name ms) ?st])"
    using pre(1) batch(1) ok
    by (simp add: reconcileMachineSet_def Let_def State_Monad.bind_def State_Monad.return_def attempt_def ask_def
        set_strategy_def set_hash_def set_old_def set_cur_def)
  then show ?thesis using batch(2) pre(2) by (auto simp: set_calls_def)
qed

lemma filter_not_take: "distinct (map f L) \<Longrightarrow> filter (\<lambda>m. f m \<notin> f ` set (take n L)) L = drop n L"
proof (induction L arbitrary: n)
  case (Cons x L)
  then have x: "f y \<noteq> f x" if "y \<in> set L" for y using that by (metis distinct.simps(2) imageI list.simps(9) list.set_map)
  show ?case
  proof (cases n)
    case (Suc k)
    have "filter (\<lambda>m. f m \<notin> insert (f x) (f ` set (take k L))) L = filter (\<lambda>m. f m \<notin> f ` set (take k L)) L"
      using x by (intro filter_cong) auto
    then show ?thesis using Cons Suc by simp
  qed simp
qed simp

lemma part_after_deletes:
  "filter P (ownedMachines ms (filter (\<lambda>m. m_id m \<notin> D) w)) = filter (\<lambda>m. m_id m \<notin> D) (filter P (ownedMachines ms w))"
  unfolding ownedMachines_def filter_filter by (rule filter_cong) auto

lemma parts_after_deletes:
  "set_old json ms (filter (\<lambda>m. m_id m \<notin> D) w) = filter (\<lambda>m. m_id m \<notin> D) (set_old json ms w)"
  "set_cur json ms (filter (\<lambda>m. m_id m \<notin> D) w) = filter (\<lambda>m. m_id m \<notin> D) (set_cur json ms w)"
  by (simp_all only: set_old_def set_cur_def part_after_deletes)

lemma replica_owned:
  assumes "mset_ns ms \<noteq> []"
  shows "set_labelled ms (started (set_replica ms hash b))" "\<not> m_deleted (started (set_replica ms hash b))"
    "set_current hash (started (set_replica ms hash b))" "m_phase (started (set_replica ms hash b)) = ''Running''"
    "m_id (started (set_replica ms hash b)) = m_id (set_replica ms hash b)"
  using assms by (auto simp: started_def set_replica_def set_labelled_def set_current_def Namespace_def meta_ns_def mget_def
      LabelMachineSet_def LabelMachineSetTemplateHash_def ObjectMeta0_def)

lemma distinct_parts:
  assumes "distinct (map m_id w)"
  shows "distinct (map m_id (set_old json ms w))" "distinct (map m_id (set_cur json ms w))"
    "m \<in> set (set_old json ms w) \<Longrightarrow> m_id m \<notin> m_id ` set (set_cur json ms w)"
    "m \<in> set (set_cur json ms w) \<Longrightarrow> m_id m \<notin> m_id ` set (set_old json ms w)"
proof -
  have inj: "inj_on m_id (set w)" using assms by (simp add: distinct_map)
  have "set (set_old json ms w) \<subseteq> set w" "set (set_cur json ms w) \<subseteq> set w" "set (set_old json ms w) \<inter> set (set_cur json ms w) = {}"
    by (auto simp: set_old_def set_cur_def ownedMachines_def)
  then show "m \<in> set (set_old json ms w) \<Longrightarrow> m_id m \<notin> m_id ` set (set_cur json ms w)"
    "m \<in> set (set_cur json ms w) \<Longrightarrow> m_id m \<notin> m_id ` set (set_old json ms w)"
    using inj by (auto simp: inj_on_def simp del: prod.inject) blast+
  show "distinct (map m_id (set_old json ms w))" "distinct (map m_id (set_cur json ms w))"
    using assms by (auto simp: set_old_def set_cur_def ownedMachines_def distinct_map_filter)
qed

lemma deletes_old:
  assumes "distinct (map m_id w)"
  shows "set_counts json ms (fold carry_out (map del_call (take n (set_old json ms w))) w)
    = (length (set_old json ms w) - n, length (set_cur json ms w))"
proof -
  let ?D = "m_id ` set (take n (set_old json ms w))"
  have "filter (\<lambda>m. m_id m \<notin> ?D) (set_old json ms w) = drop n (set_old json ms w)"
    by (rule filter_not_take) (rule distinct_parts [OF assms])
  moreover have "filter (\<lambda>m. m_id m \<notin> ?D) (set_cur json ms w) = set_cur json ms w"
    using distinct_parts(4) [OF assms] by (intro filter_True) (auto dest!: in_set_takeD simp del: prod.inject)
  ultimately show ?thesis by (simp only: fold_deletes set_counts_def parts_after_deletes length_drop)
qed

lemma deletes_cur:
  assumes "distinct (map m_id w)"
  shows "set_counts json ms (fold carry_out (map del_call (take n (set_cur json ms w))) w)
    = (length (set_old json ms w), length (set_cur json ms w) - n)"
proof -
  let ?D = "m_id ` set (take n (set_cur json ms w))"
  have "filter (\<lambda>m. m_id m \<notin> ?D) (set_cur json ms w) = drop n (set_cur json ms w)"
    by (rule filter_not_take) (rule distinct_parts [OF assms])
  moreover have "filter (\<lambda>m. m_id m \<notin> ?D) (set_old json ms w) = set_old json ms w"
    using distinct_parts(3) [OF assms] by (intro filter_True) (auto dest!: in_set_takeD simp del: prod.inject)
  ultimately show ?thesis by (simp only: fold_deletes set_counts_def parts_after_deletes length_drop)
qed

lemma creates_cur:
  assumes "mset_ns ms \<noteq> []"
  shows "set_counts json ms (w @ map (\<lambda>b. started (set_replica ms (set_hash json ms) b)) bufs)
    = (length (set_old json ms w), length (set_cur json ms w) + length bufs)"
proof -
  have "ownedMachines ms (map (\<lambda>b. started (set_replica ms hash b)) bufs) = map (\<lambda>b. started (set_replica ms hash b)) bufs" for hash
    unfolding ownedMachines_def using replica_owned [OF assms] by (intro filter_True) auto
  then show ?thesis using replica_owned [OF assms]
    by (simp add: set_counts_def set_old_def set_cur_def ownedMachines_def filter_True filter_False)
qed

lemma rolling_deletes_take:
  "rolling_deletes d k r old = take (nat (int r + int (length old) - (d - k))) old"
  by (auto simp: rolling_deletes_def Let_def)

lemma all_running_ready: "all_running ms w \<Longrightarrow> set_ready (set_cur json ms w) = length (set_cur json ms w)"
  by (auto simp: set_ready_def set_cur_def all_running_def intro!: arg_cong [where f = length] filter_cong)

lemma roll_tick:
  assumes "calm_tick env ms w" "all_running ms w" "mset_ns ms \<noteq> []"
    and "resolveMaxUnavailable (mset_MaxUnavailable (mset_Spec ms)) (set_desired ms) = Ok k"
  shows "set_counts (env_json env) ms (set_tick env ms w) = set_roll (set_strategy ms) (set_desired ms) k (set_counts (env_json env) ms w)
    \<and> all_running ms (set_tick env ms w)"
proof -
  let ?json = "env_json env" and ?d = "set_desired ms"
  let ?old = "set_old ?json ms w" and ?cur = "set_cur ?json ms w"
  have ready: "set_ready ?cur = length ?cur" by (rule all_running_ready [OF assms(2)])
  have dist: "distinct (map m_id w)" using assms(1) by (simp add: calm_tick_def)
  obtain pre batch st where calls: "set_calls env ms w = pre @ batch @ [SetStatus (mset_ns ms) (mset_name ms) st]"
    and pre: "\<forall>c \<in> set pre. \<exists>ns n fs. c = SetFinalizers ns n fs"
    and batch: "case set_batch (set_strategy ms) ?d k ?old ?cur (length ?cur) of
        Inr xs \<Rightarrow> batch = map del_call xs
      | Inl n \<Rightarrow> \<exists>bufs. length bufs = n \<and> batch = map (\<lambda>b. CreateMachine (mset_ns ms) (set_replica ms (set_hash ?json ms) b)) bufs"
    using calm_calls [OF assms(1,4)] unfolding ready by blast
  have "fold carry_out pre v = v" for v using pre by (induction pre) auto
  then have tick: "set_tick env ms w = fold carry_out batch w" by (simp add: set_tick_def calls)
  have d: "0 \<le> ?d" by (simp add: set_desired_def)
  show ?thesis
  proof (cases "set_batch (set_strategy ms) ?d k ?old ?cur (length ?cur)")
    case (Inl n)
    then obtain bufs where bufs: "length bufs = n" "batch = map (\<lambda>b. CreateMachine (mset_ns ms) (set_replica ms (set_hash ?json ms) b)) bufs"
      using batch by auto
    have w': "set_tick env ms w = w @ map (\<lambda>b. started (set_replica ms (set_hash ?json ms) b)) bufs"
      unfolding tick bufs(2) by (rule fold_creates)
    have n: "int (length ?old + length ?cur) < ?d" "n = nat (?d - int (length ?old + length ?cur))"
      using Inl by (auto simp: set_batch_def split: if_splits)
    have "set_counts ?json ms (set_tick env ms w) = (length ?old, length ?cur + n)" unfolding w' creates_cur [OF assms(3)] bufs(1) ..
    moreover have "all_running ms (set_tick env ms w)"
      using assms(2) replica_owned(4) [OF assms(3)] unfolding w' by (auto simp: all_running_def ownedMachines_def)
    ultimately show ?thesis using n d by (auto simp: set_roll_def set_counts_def)
  next
    case (Inr xs)
    have run: "all_running ms (set_tick env ms w)"
      using assms(2) batch Inr unfolding tick by (auto simp: fold_deletes all_running_def ownedMachines_def)
    have tot: "\<not> int (length ?old + length ?cur) < ?d" using Inr by (auto simp: set_batch_def split: if_splits)
    show ?thesis
    proof (cases "?old = []")
      case True
      then have "xs = take (length ?cur - nat ?d) ?cur" using Inr by (auto simp: set_batch_def split: if_splits)
      then show ?thesis using run tot d deletes_cur [OF dist, of ?json ms "length ?cur - nat ?d"] batch Inr True
        by (auto simp: tick set_roll_def set_counts_def [of _ _ w])
    next
      case False
      then have "xs = take (if set_strategy ms = ''Recreate'' then length ?old else nat (int (length ?cur) + int (length ?old) - (?d - k))) ?old"
        using Inr by (auto simp: set_batch_def rolling_deletes_take split: if_splits)
      then show ?thesis using run tot False batch Inr deletes_old [OF dist, of ?json ms]
        by (auto simp: tick set_roll_def set_counts_def [of _ _ w] add.commute)
    qed
  qed
qed


definition roll_left :: "int \<Rightarrow> nat \<times> nat \<Rightarrow> nat" where
  \<comment> \<open>a bound on the ticks a rollout still takes\<close>
  "roll_left d = (\<lambda>(old, cur). 2 * old + (if int (old + cur) < d then 1 else 0) + (if d < int cur then 1 else 0))"

lemma set_roll_decreases:
  assumes "0 \<le> d" "1 \<le> k" "c \<noteq> (0, nat d)"
  shows "roll_left d (set_roll strategy d k c) < roll_left d c"
  using assms by (cases c) (auto simp: set_roll_def roll_left_def split: if_splits)

lemma set_roll_done: "0 \<le> d \<Longrightarrow> set_roll strategy d k (0, nat d) = (0, nat d)"
  by (simp add: set_roll_def)

lemma rolls_done:
  assumes "0 \<le> d" "1 \<le> k" "\<And>i. c (Suc i) = set_roll strategy d k (c i)" "roll_left d (c 0) \<le> n"
  shows "c n = (0, nat d)"
proof -
  have "c i = (0, nat d) \<or> roll_left d (c i) + i \<le> roll_left d (c 0)" for i
  proof (induction i)
    case (Suc i)
    then show ?case using assms(3) set_roll_decreases [OF assms(1,2), of "c i" strategy] set_roll_done [OF assms(1), of strategy k]
      by (cases "c i = (0, nat d)") auto
  qed simp
  from this [of n] show ?thesis
  proof
    assume *: "roll_left d (c n) + n \<le> roll_left d (c 0)"
    then have "roll_left d (c n) = 0" using assms(4) by simp
    then show ?thesis using set_roll_decreases [OF assms(1,2), of "c n" strategy] by (cases "c n = (0, nat d)") auto
  qed
qed

lemma resolveMaxUnavailable_pos: "resolveMaxUnavailable spec d = Ok k \<Longrightarrow> 1 \<le> k"
  by (auto simp: resolveMaxUnavailable_def split: sum.splits if_splits)

text \<open>
  C10. Rollouts terminate. From any number of old and current replicas, at most two ticks for
  each old replica and two more bring a MachineSet to exactly the replicas it asks for, all of the
  current template, and from then on no tick creates or deletes a Machine.
\<close>

theorem rollout_terminates:
  assumes "\<And>i. calm_tick (envs i) ms (w i)" "\<And>i. env_json (envs i) = json" "\<And>i. w (Suc i) = set_tick (envs i) ms (w i)"
    and "all_running ms (w 0)" "mset_ns ms \<noteq> []"
    and "resolveMaxUnavailable (mset_MaxUnavailable (mset_Spec ms)) (set_desired ms) = Ok k"
    and "2 * length (set_old json ms (w 0)) + 2 \<le> n"
  shows "set_old json ms (w n) = [] \<and> int (length (set_cur json ms (w n))) = set_desired ms
    \<and> created (set_calls (envs n) ms (w n)) = [] \<and> (\<forall>m. del_call m \<notin> set (set_calls (envs n) ms (w n)))"
proof -
  let ?d = "set_desired ms"
  have d: "0 \<le> ?d" by (simp add: set_desired_def)
  have run: "all_running ms (w i)" for i
  proof (induction i)
    case (Suc i)
    then show ?case using roll_tick [OF assms(1) _ assms(5,6)] unfolding assms(3) by blast
  qed (rule assms(4))
  have "set_counts json ms (w (Suc i)) = set_roll (set_strategy ms) ?d k (set_counts json ms (w i))" for i
    using roll_tick [OF assms(1) run assms(5,6), of i] unfolding assms(2) assms(3) by blast
  moreover have "roll_left ?d (set_counts json ms (w 0)) \<le> n" using assms(7) by (simp add: roll_left_def set_counts_def)
  ultimately have "set_counts json ms (w n) = (0, nat ?d)"
    by (intro rolls_done [OF d resolveMaxUnavailable_pos [OF assms(6)], where c = "\<lambda>i. set_counts json ms (w i)"])
  then have parts: "set_old json ms (w n) = []" "length (set_cur json ms (w n)) = nat ?d" by (simp_all add: set_counts_def)
  then have batch: "set_batch (set_strategy ms) ?d k (set_old json ms (w n)) (set_cur json ms (w n)) ready = Inr []" for ready
    using d by (simp add: set_batch_def)
  obtain pre st where "set_calls (envs n) ms (w n) = pre @ [SetStatus (mset_ns ms) (mset_name ms) st]"
    and pre: "\<forall>c \<in> set pre. \<exists>ns n fs. c = SetFinalizers ns n fs"
    using calm_calls [OF assms(1) assms(6), of n] unfolding assms(2) batch by auto
  moreover have "created pre = []" using pre by (induction pre) auto
  ultimately show ?thesis using parts d by auto
qed

lemma ready_parts:
  "set_ready (filter P (ownedMachines ms w)) = set_ready (filter P (set_cur json ms w)) + set_ready (filter P (set_old json ms w))"
  using sum_length_filter_compl [of "set_current (set_hash json ms)" "filter (\<lambda>m. m_phase m = ''Running'') (filter P (ownedMachines ms w))"]
  by (simp add: set_ready_def set_cur_def set_old_def conj_ac)

lemma set_ready_mono: "(\<And>m. m \<in> set xs \<Longrightarrow> P m \<Longrightarrow> Q m) \<Longrightarrow> set_ready (filter P xs) \<le> set_ready (filter Q xs)"
  unfolding set_ready_def by (induction xs) auto


section \<open>An example\<close>

definition web_set :: "int \<Rightarrow> MachineSet" where
  "web_set r = \<lparr>mset_Metadata = ObjectMeta0\<lparr>meta_Name := ''web'', meta_Namespace := ''prod'', meta_Finalizers := [FinalizerMachineSet]\<rparr>,
     mset_Spec = \<lparr>mset_Replicas = r, mset_Template = \<lparr>mt_Labels = [], mt_Spec = MachineSpec0\<rparr>, mset_Strategy = [], mset_MaxUnavailable = []\<rparr>,
     mset_Status = \<lparr>mss_Replicas = 0, mss_ReadyReplicas = 0, mss_UpdatedReplicas = 0, mss_Selector = [], mss_Message = []\<rparr>\<rparr>"

definition web_vm :: "string \<Rightarrow> Machine" where
  "web_vm name = Machine0\<lparr>mach_Metadata := ObjectMeta0\<lparr>meta_Name := name, meta_Namespace := ''prod'', meta_Labels := [(LabelMachineSet, ''web'')]\<rparr>,
     mach_Status := (mach_Status Machine0)\<lparr>st_Phase := ''Running''\<rparr>\<rparr>"

definition quiet_env :: SetEnv where
  "quiet_env = \<lparr>env_api = (\<lambda>_ _. None), env_rand = (\<lambda>_. []), env_json = (\<lambda>_. [])\<rparr>"

lemma quiet_env_sel [simp]: "env_api quiet_env h c = None" "env_json quiet_env t = []"
  by (simp_all add: quiet_env_def)

lemma hash_not_empty: "machineSetTemplateHash json t \<noteq> []"
proof -
  have "length (machineSetTemplateHash json t) = 12" by (simp add: machineSetTemplateHash_def length_hex Sum256_bytes)
  then show ?thesis by auto
qed

lemma web_vm_sel [simp]:
  "set_labelled (web_set r) (web_vm n)" "\<not> set_current (set_hash json (web_set r)) (web_vm n)" "m_phase (web_vm n) = ''Running''"
  "meta_DeletionTimestamp (mach_Metadata (web_vm n)) = None" "Namespace (web_vm n) = ''prod''" "m_name (web_vm n) = n"
proof -
  have "LabelMachineSetTemplateHash \<noteq> LabelMachineSet" by (simp add: LabelMachineSetTemplateHash_def LabelMachineSet_def)
  then show "\<not> set_current (set_hash json (web_set r)) (web_vm n)"
    using hash_not_empty [of json] by (auto simp: set_current_def web_vm_def mget_def set_hash_def dest: sym)
qed (simp_all add: set_labelled_def web_set_def web_vm_def mget_def Namespace_def meta_ns_def ObjectMeta0_def)

lemma web_owned [simp]: "ownedMachines (web_set r) [] = []" "ownedMachines (web_set r) (web_vm n # w) = web_vm n # ownedMachines (web_set r) w"
  by (simp_all add: ownedMachines_def)

lemma web_parts [simp]:
  "set_old json (web_set r) [] = []" "set_old json (web_set r) (web_vm n # w) = web_vm n # set_old json (web_set r) w"
  "set_cur json (web_set r) [] = []" "set_cur json (web_set r) (web_vm n # w) = set_cur json (web_set r) w"
  by (simp_all add: set_old_def set_cur_def)

lemma web_set_sel [simp]:
  "mset_ns (web_set r) = ''prod''" "set_strategy (web_set r) = ''RollingUpdate''" "set_desired (web_set r) = (if r < 0 then 0 else r)"
  "resolveMaxUnavailable (mset_MaxUnavailable (mset_Spec (web_set r))) d = Ok 1"
proof -
  show "resolveMaxUnavailable (mset_MaxUnavailable (mset_Spec (web_set r))) d = Ok 1"
    by (simp add: resolveMaxUnavailable_def web_set_def parse_one)
qed (simp_all add: set_strategy_def set_desired_def web_set_def)


lemma web_map [simp]:
  "ownedMachines (web_set r) (map web_vm ns) = map web_vm ns" "set_old json (web_set r) (map web_vm ns) = map web_vm ns"
  "set_cur json (web_set r) (map web_vm ns) = []"
  by (induction ns) simp_all

lemma web_run:
  assumes "0 \<le> r" "r \<le> int (length ns)"
  shows "\<exists>st. run_state (reconcileMachineSet quiet_env (web_set r) (map web_vm ns)) []
    = ((st, None), map del_call (take (nat (int (length ns) - (r - 1))) (map web_vm ns)) @ [SetStatus ''prod'' ''web'' st])"
proof -
  have calm: "\<forall>h c. env_api quiet_env h c = None" by simp
  let ?w = "map web_vm ns" and ?h = "set_hash (env_json quiet_env) (web_set r)"
  have "run_state (stepMachineSetToward quiet_env (web_set r) ?h ''RollingUpdate'' r [] ?w 0) h
      = (None, h @ map del_call (take (nat (int (length ns) - (r - 1))) ?w))" for h
    using step_run [OF calm, where ms = "web_set r" and d = r and k = 1 and strategy = "''RollingUpdate''" and old = ?w and cur = "[]"
        and ready = 0 and hash = ?h and h = h] assms
    by (auto simp: set_batch_def rolling_deletes_take)
  moreover have "mset_name (web_set r) = ''web''" "meta_Finalizers (mset_Metadata (web_set r)) = [FinalizerMachineSet]" by (simp_all add: web_set_def)
  moreover have "filter (set_current ?h) ?w = []" "filter (\<lambda>m. \<not> set_current ?h m) ?w = ?w" by (induction ns) simp_all
  ultimately show ?thesis using assms(1)
    by (simp add: reconcileMachineSet_def Let_def set_hash_def [symmetric] set_strategy_def [symmetric] add_set_finalizer_def
        HasFinalizerList_def State_Monad.bind_def State_Monad.return_def attempt_def ask_def set_ready_def)
qed

lemma web_calls:
  "0 \<le> r \<Longrightarrow> r \<le> int (length ns) \<Longrightarrow> \<exists>st. set_calls quiet_env (web_set r) (map web_vm ns)
     = map del_call (take (nat (int (length ns) - (r - 1))) (map web_vm ns)) @ [SetStatus ''prod'' ''web'' st]"
  using web_run [of r ns] by (auto simp: set_calls_def)

theorem sets_touch_only_their_machines_witness:
  "\<exists>calls. run_state (reconcileMachineSets quiet_env [web_set 1] [web_vm ''web-1'']) [] = ((), calls)
     \<and> set_touches (\<lambda>m. m \<in> set [web_vm ''web-1''] \<and> \<not> m_deleted m) (del_call (web_vm ''web-1'')) \<and> del_call (web_vm ''web-1'') \<in> set calls"
proof -
  obtain st where "run_state (reconcileMachineSet quiet_env (web_set 1) [web_vm ''web-1'']) []
      = ((st, None), [del_call (web_vm ''web-1''), SetStatus ''prod'' ''web'' st])"
    using web_run [of 1 "[''web-1'']"] by auto
  then have run: "run_state (reconcileMachineSets quiet_env [web_set 1] [web_vm ''web-1'']) []
      = ((), [del_call (web_vm ''web-1''), SetStatus ''prod'' ''web'' st])"
    by (simp add: State_Monad.bind_def State_Monad.return_def web_set_def ObjectMeta0_def)
  from sets_touch_only_their_machines [OF this, of "del_call (web_vm ''web-1'')"] show ?thesis
    by (intro exI [of _ "[del_call (web_vm ''web-1''), SetStatus ''prod'' ''web'' st]"] conjI) (use run in auto)
qed



theorem rollout_terminates_witness:
  "\<exists>w :: nat \<Rightarrow> Machine list. w 0 = [web_vm ''web-1''] \<and> w 1 = set_tick quiet_env (web_set 0) (w 0)
     \<and> set_old (env_json quiet_env) (web_set 0) (w 4) = []"
proof -
  let ?w = "\<lambda>i :: nat. if i = 0 then map web_vm [''web-1''] else map web_vm []"
  obtain st where 1: "set_calls quiet_env (web_set 0) [web_vm ''web-1''] = [del_call (web_vm ''web-1''), SetStatus ''prod'' ''web'' st]"
    using web_calls [of 0 "[''web-1'']"] by auto
  obtain st' where 2: "set_calls quiet_env (web_set 0) [] = [SetStatus ''prod'' ''web'' st']"
    using web_calls [of 0 "[]"] by auto
  have "calm_tick quiet_env (web_set 0) (?w i)" for i using 1 2 by (simp add: calm_tick_def)
  moreover have step: "?w (Suc i) = set_tick quiet_env (web_set 0) (?w i)" for i using 1 2 by (simp add: set_tick_def)
  ultimately have "set_old (env_json quiet_env) (web_set 0) (?w 4) = []"
    using rollout_terminates [of "\<lambda>_. quiet_env" "web_set 0" ?w "env_json quiet_env" 1 4] by (simp add: all_running_def)
  then show ?thesis using step [of 0] by (intro exI [of _ ?w]) simp
qed

end
