(* ===== verification/Kube_Error.thy ===== *)
theory Kube_Error
  imports Go_Strings Call_Log
begin

text \<open>
  The errors of the Kubernetes client (\<open>internal/kube/client.go\<close>): an answer of the API server with
  its status code, or anything else that can go wrong with a request, of which only the text matters.
\<close>

record APIError =
  ae_Method :: string
  ae_Path :: string
  ae_StatusCode :: int
  ae_Body :: string

datatype KubeErr = ApiErr APIError | OtherErr string

fun err_text :: "KubeErr \<Rightarrow> err" where
  "err_text (ApiErr e) = ''kubernetes '' @ ae_Method e @ '' '' @ ae_Path e @ '': HTTP '' @ show_int (ae_StatusCode e) @ '': '' @ ae_Body e"
| "err_text (OtherErr s) = s"

fun IsNotFound :: "KubeErr \<Rightarrow> bool" where
  "IsNotFound (ApiErr e) = (ae_StatusCode e = 404)"
| "IsNotFound (OtherErr _) = False"

fun IsConflict :: "KubeErr \<Rightarrow> bool" where
  "IsConflict (ApiErr e) = (ae_StatusCode e = 409)"
| "IsConflict (OtherErr _) = False"

definition unless_found :: "KubeErr option \<Rightarrow> KubeErr option" where
  \<comment> \<open>\<open>err != nil && !kube.IsNotFound(err)\<close>\<close>
  "unless_found e = (case e of Some e \<Rightarrow> if IsNotFound e then None else Some e | None \<Rightarrow> None)"

end
