(* ===== verification/Machine_Pool.thy ===== *)
theory Machine_Pool
  imports Machine_Set Go_Time Kube_Error "HOL-Library.Sublist"
begin

text \<open>
  Pools of warm Machines and the claims that take them (\<open>internal/model/machinepool.go\<close>,
  \<open>internal/controller/machinepool.go\<close>, and what they use of \<open>internal/agentplane\<close>): binding a claim
  to a Machine, its egress policy and expiry, the release of a deleted claim, and the refilling of
  the pools. A slice that Go compares with \<open>reflect.DeepEqual\<close> is an option, None the nil slice.
\<close>

section \<open>Objects\<close>

definition LabelMachinePool :: string where "LabelMachinePool = ''kairon.zyvor.dev/machinepool''"
definition LabelMachinePoolTemplate :: string where "LabelMachinePoolTemplate = ''kairon.zyvor.dev/machinepool-template-hash''"
definition LabelPoolState :: string where "LabelPoolState = ''kairon.zyvor.dev/pool-state''"
definition LabelMachineClaim :: string where "LabelMachineClaim = ''kairon.zyvor.dev/machineclaim''"
definition PoolStateWarm :: string where "PoolStateWarm = ''warm''"
definition PoolStateClaimed :: string where "PoolStateClaimed = ''claimed''"
definition FinalizerMachinePool :: string where "FinalizerMachinePool = ''kairon.zyvor.dev/machinepool-cleanup''"
definition FinalizerMachineClaim :: string where "FinalizerMachineClaim = ''kairon.zyvor.dev/machineclaim-cleanup''"
definition ReclaimRetain :: string where "ReclaimRetain = ''Retain''"
definition ClaimPending :: string where "ClaimPending = ''Pending''"
definition ClaimBound :: string where "ClaimBound = ''Bound''"
definition ClaimLost :: string where "ClaimLost = ''Lost''"
definition AnnHypervisor :: string where "AnnHypervisor = ''kairon.zyvor.dev/hypervisor''"
definition AnnSnapshotOnRelease :: string where "AnnSnapshotOnRelease = ''kairon.zyvor.dev/snapshot-on-release''"

record MachinePoolSpec =
  mp_Replicas :: int
  mp_Template :: MachineTemplate

record MachinePoolStatus =
  mps_Replicas :: int
  mps_ReadyReplicas :: int
  mps_Claimed :: int
  mps_Selector :: string
  mps_Message :: string

record MachinePool =
  mp_Metadata :: ObjectMeta
  mp_Spec :: MachinePoolSpec
  mp_Status :: MachinePoolStatus

type_synonym slice = "string list option"

record VmNetworkPolicy =
  vnp_DefaultAllow :: bool
  vnp_AllowCidrs :: slice
  vnp_DenyCidrs :: slice
  vnp_AllowPorts :: slice
  vnp_MaxEgressMbps :: "32 word option"
  vnp_MaxEgressPps :: "32 word option"
  vnp_AllowFqdns :: slice
  vnp_Groups :: slice
  vnp_Labels :: slice
  vnp_Entities :: slice
  vnp_AuditMode :: bool
  vnp_AllowIcmp :: bool
  vnp_SampleRate :: "32 word"
  vnp_AllowSNI :: slice
  vnp_AllowDNS :: slice
  vnp_MaxIngressMbps :: "32 word option"
  vnp_MaxIngressPps :: "32 word option"

record ClaimEgress =
  ce_AllowCidrs :: slice
  ce_AllowPorts :: slice
  ce_AllowFqdns :: slice
  ce_AllowDNS :: slice
  ce_AllowSNI :: slice
  ce_AllowIcmp :: bool

record MachineClaimSpec =
  mc_PoolName :: string
  mc_Labels :: smap
  mc_ReclaimPolicy :: string
  mc_TTLSeconds :: int
  mc_Egress :: "ClaimEgress option"

record MachineClaimStatus =
  mcs_Phase :: string
  mcs_MachineName :: string
  mcs_BoundAt :: "time option"
  mcs_BindMillis :: int
  mcs_EgressPolicy :: string
  mcs_Message :: string

record MachineClaim =
  mc_Metadata :: ObjectMeta
  mc_Spec :: MachineClaimSpec
  mc_Status :: MachineClaimStatus

abbreviation mp_ns :: "MachinePool \<Rightarrow> string" where "mp_ns p \<equiv> meta_Namespace (mp_Metadata p)"
abbreviation mp_name :: "MachinePool \<Rightarrow> string" where "mp_name p \<equiv> meta_Name (mp_Metadata p)"
abbreviation mc_ns :: "MachineClaim \<Rightarrow> string" where "mc_ns c \<equiv> meta_Namespace (mc_Metadata c)"
abbreviation mc_name :: "MachineClaim \<Rightarrow> string" where "mc_name c \<equiv> meta_Name (mc_Metadata c)"
abbreviation mc_deleted :: "MachineClaim \<Rightarrow> bool" where "mc_deleted c \<equiv> meta_DeletionTimestamp (mc_Metadata c) \<noteq> None"
abbreviation m_created :: "Machine \<Rightarrow> time" where "m_created m \<equiv> meta_CreationTimestamp (mach_Metadata m)"

definition egress_Policy :: "ClaimEgress \<Rightarrow> VmNetworkPolicy" where
  "egress_Policy e = \<lparr>vnp_DefaultAllow = False, vnp_AllowCidrs = ce_AllowCidrs e, vnp_DenyCidrs = None, vnp_AllowPorts = ce_AllowPorts e,
     vnp_MaxEgressMbps = None, vnp_MaxEgressPps = None, vnp_AllowFqdns = ce_AllowFqdns e, vnp_Groups = None, vnp_Labels = None,
     vnp_Entities = None, vnp_AuditMode = False, vnp_AllowIcmp = ce_AllowIcmp e, vnp_SampleRate = 0, vnp_AllowSNI = ce_AllowSNI e,
     vnp_AllowDNS = ce_AllowDNS e, vnp_MaxIngressMbps = None, vnp_MaxIngressPps = None\<rparr>"

definition ClaimEgressPolicyName :: "string \<Rightarrow> string" where
  "ClaimEgressPolicyName claim = (let name = ''claim-egress-'' @ claim in if length name > 253 then take 253 name else name)"

definition truthy :: "string \<Rightarrow> bool" where
  "truthy v = (ToLower (TrimSpace v) \<in> {''1'', ''true'', ''yes''})"

definition EligibleWarm :: "MachineClaim \<Rightarrow> Machine \<Rightarrow> bool" where
  "EligibleWarm claim m =
     (if m_phase m \<noteq> [] \<and> m_phase m \<noteq> ''Running'' then False
      else if mget (m_labels m) LabelPoolState \<noteq> [] \<and> mget (m_labels m) LabelPoolState \<noteq> PoolStateWarm then False
      else let wantTenant = mget (mc_Labels (mc_Spec claim)) ''kairon.zyvor.dev/tenant''; tenant = spec_Tenant (mach_Spec m) in
        if wantTenant \<noteq> [] \<and> tenant \<noteq> [] \<and> tenant \<noteq> wantTenant then False
        else let wantHV = mget (meta_Annotations (mc_Metadata claim)) AnnHypervisor; gotHV = mget (m_annotations m) AnnHypervisor in
          \<not> (wantHV \<noteq> [] \<and> gotHV \<noteq> [] \<and> wantHV \<noteq> gotHV))"

definition WantsSnapshot :: "MachineClaim \<Rightarrow> bool" where
  "WantsSnapshot claim = truthy (mget (meta_Annotations (mc_Metadata claim)) AnnSnapshotOnRelease)"

definition ReleaseSnapshotName :: "string \<Rightarrow> string" where
  "ReleaseSnapshotName claim = (let name = claim @ ''-release'' in if length name > 253 then take 253 name else name)"

section \<open>Calls\<close>

datatype PoolCall =
    PClaimStatus string string MachineClaimStatus
  | PClaimFinalizers string string "string list"
  | PDeleteClaim string string
  | PBind string string smap string
    \<comment> \<open>the labels merged into those of a Machine, and the resource version it must still have, if any\<close>
  | PUnlabel string string  \<comment> \<open>takes the three labels of the pool off a Machine\<close>
  | PGetPolicy string string
  | PCreatePolicy string string smap string VmNetworkPolicy
  | PPatchPolicy string string string VmNetworkPolicy
  | PDeletePolicy string string
  | PGetSnapshot string string
  | PCreateSnapshot string string string
  | PPoolStatus string string MachinePoolStatus
  | PPoolFinalizers string string "string list"
  | PDeleteMachine string string
  | PCreateMachine string Machine

record PoolEnv =
  pv_err :: "PoolCall list \<Rightarrow> PoolCall \<Rightarrow> KubeErr option"
  pv_policy :: "PoolCall list \<Rightarrow> string \<Rightarrow> KubeErr + string \<times> VmNetworkPolicy"
    \<comment> \<open>the Machine name and the policy of an existing network policy\<close>
  pv_snapshot :: "PoolCall list \<Rightarrow> string \<Rightarrow> KubeErr + string \<times> string"  \<comment> \<open>phase and message\<close>
  pv_now :: "PoolCall list \<Rightarrow> time"
  pv_rand :: "PoolCall list \<Rightarrow> nat list"
  pv_json :: "MachineTemplate \<Rightarrow> string"

type_synonym 'a pool_io = "(PoolCall, 'a) io"

definition pool_clock :: "PoolEnv \<Rightarrow> time pool_io" where
  "pool_clock env = State (\<lambda>h. (pv_now env h, h))"

section \<open>Claims\<close>

definition warm_member :: "string \<Rightarrow> string \<Rightarrow> string list \<Rightarrow> Machine \<Rightarrow> bool" where
  "warm_member ns pool bound m \<longleftrightarrow> Namespace m = ns \<and> mget (m_labels m) LabelMachinePool = pool
     \<and> mget (m_labels m) LabelPoolState = PoolStateWarm \<and> ns @ ''/'' @ m_name m \<notin> set bound"

definition warmMembers :: "string \<Rightarrow> string \<Rightarrow> Machine list \<Rightarrow> string list \<Rightarrow> Machine list \<times> nat" where
  "warmMembers ns pool machines bound =
     (let members = filter (\<lambda>m. warm_member ns pool bound m \<and> \<not> m_deleted m) machines in
      (sort_by (\<lambda>a b. m_created a < m_created b) (filter (\<lambda>m. m_phase m = ''Running'') members),
       length (filter (\<lambda>m. m_phase m \<noteq> ''Running'') members)))"

definition bindMachine :: "PoolEnv \<Rightarrow> MachineClaim \<Rightarrow> Machine \<Rightarrow> KubeErr option pool_io" where
  "bindMachine env claim m = attempt (pv_err env) (PBind (Namespace m) (m_name m)
     (mput (mput (mc_Labels (mc_Spec claim)) LabelPoolState PoolStateClaimed) LabelMachineClaim (mc_name claim))
     (meta_ResourceVersion (mach_Metadata m)))"

definition ensureClaimEgress :: "PoolEnv \<Rightarrow> MachineClaim \<Rightarrow> string \<Rightarrow> (string \<times> err option) pool_io" where
  "ensureClaimEgress env claim machine =
     (let ns = mc_ns claim; name = ClaimEgressPolicyName (mc_name claim); old = mcs_EgressPolicy (mc_Status claim) in
      (case mc_Egress (mc_Spec claim) of
         None \<Rightarrow>
           if old = [] then State_Monad.return ([], None)
           else do {
             e \<leftarrow> attempt (pv_err env) (PDeletePolicy ns old);
             State_Monad.return (case unless_found e of
               Some e \<Rightarrow> (old, Some (''delete egress policy: '' @ err_text e))
             | None \<Rightarrow> ([], None))
           }
       | Some egress \<Rightarrow> do {
           a \<leftarrow> ask (\<lambda>h. pv_policy env h name) (PGetPolicy ns name);
           (case a of
              Inl e \<Rightarrow>
                if IsNotFound e then do {
                  e \<leftarrow> attempt (pv_err env) (PCreatePolicy ns name [(LabelMachineClaim, mc_name claim)] machine (egress_Policy egress));
                  State_Monad.return (case e of
                    Some e \<Rightarrow> ([], Some (''create egress policy: '' @ err_text e))
                  | None \<Rightarrow> (name, None))
                }
                else State_Monad.return ([], Some (''get egress policy: '' @ err_text e))
            | Inr (target, policy) \<Rightarrow>
                if target \<noteq> machine \<or> policy \<noteq> egress_Policy egress then do {
                  e \<leftarrow> attempt (pv_err env) (PPatchPolicy ns name machine (egress_Policy egress));
                  State_Monad.return (name, map_option (\<lambda>e. ''update egress policy: '' @ err_text e) e)
                }
                else State_Monad.return (name, None))
         }))"

definition by_name :: "Machine list \<Rightarrow> string \<Rightarrow> Machine option" where
  "by_name machines = map_of (rev (map (\<lambda>m. (m_key m, m)) machines))"

definition check_bound :: "PoolEnv \<Rightarrow> MachineClaim \<Rightarrow> Machine list \<Rightarrow> (MachineClaimStatus \<times> err option) pool_io" where
  \<comment> \<open>a claim whose status names a Machine\<close>
  "check_bound env claim machines =
     (let status = mc_Status claim; m = by_name machines (mc_ns claim @ ''/'' @ mcs_MachineName status) in
      if (case m of None \<Rightarrow> True | Some m \<Rightarrow> m_deleted m) then
        State_Monad.return (status\<lparr>mcs_Phase := ClaimLost,
          mcs_Message := ''machine '' @ mcs_MachineName status @ '' no longer exists''\<rparr>, None)
      else do {
        (policy, e) \<leftarrow> ensureClaimEgress env claim (mcs_MachineName status);
        now \<leftarrow> pool_clock env;
        (let status = status\<lparr>mcs_Phase := ClaimBound, mcs_Message := [], mcs_EgressPolicy := policy\<rparr>;
             ttl = mc_TTLSeconds (mc_Spec claim) in
         if e \<noteq> None then State_Monad.return (status, e)
         else if ttl > 0 \<and> (case mcs_BoundAt status of None \<Rightarrow> False | Some t \<Rightarrow> time_Sub now t \<ge> seconds ttl) then do {
           e \<leftarrow> attempt (pv_err env) (PDeleteClaim (mc_ns claim) (mc_name claim));
           State_Monad.return (status, map_option (\<lambda>e. ''delete expired claim: '' @ err_text e) (unless_found e))
         }
         else State_Monad.return (status, None))
      })"

definition bound_status :: "MachineClaim \<Rightarrow> time \<Rightarrow> string \<Rightarrow> string \<Rightarrow> MachineClaimStatus" where
  "bound_status claim now machine policy =
     (let created = meta_CreationTimestamp (mc_Metadata claim) in
      (mc_Status claim)\<lparr>mcs_Phase := ClaimBound, mcs_MachineName := machine, mcs_BoundAt := Some now,
        mcs_BindMillis := (if created \<noteq> 0 then quot (time_Sub now created) 1000000 else mcs_BindMillis (mc_Status claim)),
        mcs_Message := [], mcs_EgressPolicy := policy\<rparr>)"

fun try_bind :: "PoolEnv \<Rightarrow> MachineClaim \<Rightarrow> nat \<Rightarrow> string list \<Rightarrow> Machine list \<Rightarrow> ((MachineClaimStatus \<times> err option) \<times> string list) pool_io" where
  \<comment> \<open>the loop over the candidates\<close>
  "try_bind env claim warming bound [] =
     State_Monad.return (((mc_Status claim)\<lparr>mcs_Phase := ClaimPending, mcs_Message := ''no Running warm machine in pool ''
       @ Quote (mc_PoolName (mc_Spec claim)) @ '' ('' @ show_nat warming @ '' warming)''\<rparr>, None), bound)"
| "try_bind env claim warming bound (m # ms) = do {
     e \<leftarrow> bindMachine env claim m;
     (case e of
        Some e \<Rightarrow>
          if IsConflict e then try_bind env claim warming bound ms
          else State_Monad.return (((mc_Status claim)\<lparr>mcs_Phase := ClaimPending\<rparr>,
            Some (''bind machine '' @ m_name m @ '': '' @ err_text e)), bound)
      | None \<Rightarrow> do {
          now \<leftarrow> pool_clock env;
          (policy, e) \<leftarrow> ensureClaimEgress env claim (m_name m);
          State_Monad.return ((bound_status claim now (m_name m) policy, e), bound @ [m_key m])
        })
   }"

definition add_claim_finalizer :: "PoolEnv \<Rightarrow> MachineClaim \<Rightarrow> KubeErr option pool_io" where
  "add_claim_finalizer env claim =
     (let finals = meta_Finalizers (mc_Metadata claim) in
      if HasFinalizerList finals FinalizerMachineClaim then State_Monad.return None
      else attempt (pv_err env) (PClaimFinalizers (mc_ns claim) (mc_name claim) (finals @ [FinalizerMachineClaim])))"

definition reconcileMachineClaim ::
  "PoolEnv \<Rightarrow> MachineClaim \<Rightarrow> Machine list \<Rightarrow> string list \<Rightarrow> ((MachineClaimStatus \<times> err option) \<times> string list) pool_io" where
  \<comment> \<open>the status and error of the claim, and the Machines bound in this tick so far\<close>
  "reconcileMachineClaim env claim machines bound =
     (let status = mc_Status claim in
      if mcs_MachineName status \<noteq> [] then do {
        r \<leftarrow> check_bound env claim machines;
        State_Monad.return (r, bound)
      }
      else if mc_PoolName (mc_Spec claim) = [] then
        State_Monad.return ((status\<lparr>mcs_Phase := ClaimPending\<rparr>, Some ''spec.poolName is required''), bound)
      else do {
        e \<leftarrow> add_claim_finalizer env claim;
        (case e of
           Some e \<Rightarrow> State_Monad.return ((status\<lparr>mcs_Phase := ClaimPending\<rparr>, Some (''add machineclaim finalizer: '' @ err_text e)), bound)
         | None \<Rightarrow> (case warmMembers (mc_ns claim) (mc_PoolName (mc_Spec claim)) machines bound of (candidates, warming) \<Rightarrow>
             try_bind env claim warming bound (filter (EligibleWarm claim) candidates)))
      })"

definition ensureReleaseSnapshot :: "PoolEnv \<Rightarrow> MachineClaim \<Rightarrow> string \<Rightarrow> (err + bool) pool_io" where
  "ensureReleaseSnapshot env claim machine =
     (let name = ReleaseSnapshotName (mc_name claim) in do {
        a \<leftarrow> ask (\<lambda>h. pv_snapshot env h name) (PGetSnapshot (mc_ns claim) name);
        (case a of
           Inr (phase, message) \<Rightarrow> State_Monad.return
             (if phase = ''Succeeded'' then Inr True
              else if phase = ''Failed'' then Inl (''snapshot '' @ name @ '' failed: '' @ message @ ''; delete it to retry'')
              else Inr False)
         | Inl e \<Rightarrow>
             if \<not> IsNotFound e then State_Monad.return (Inl (err_text e))
             else do {
               e \<leftarrow> attempt (pv_err env) (PCreateSnapshot (mc_ns claim) name machine);
               State_Monad.return (case e of Some e \<Rightarrow> if IsConflict e then Inr False else Inl (err_text e) | None \<Rightarrow> Inr False)
             })
      })"

definition release_machine :: "PoolEnv \<Rightarrow> MachineClaim \<Rightarrow> Machine option \<Rightarrow> KubeErr option pool_io" where
  \<comment> \<open>deletes the Machine, or unlabels it, if it is the claim's\<close>
  "release_machine env claim m =
     (let name = mcs_MachineName (mc_Status claim) in
      (case m of
         None \<Rightarrow> State_Monad.return None
       | Some m \<Rightarrow>
           if name = [] \<or> mget (m_labels m) LabelMachineClaim \<noteq> mc_name claim then State_Monad.return None
           else if mc_ReclaimPolicy (mc_Spec claim) = ReclaimRetain then attempt (pv_err env) (PUnlabel (Namespace m) name)
           else if m_deleted m then State_Monad.return None
           else attempt (pv_err env) (PDeleteMachine (Namespace m) name)))"

definition delete_egress :: "PoolEnv \<Rightarrow> MachineClaim \<Rightarrow> KubeErr option pool_io" where
  "delete_egress env claim =
     (let policy = mcs_EgressPolicy (mc_Status claim) in
      if policy = [] then State_Monad.return None else attempt (pv_err env) (PDeletePolicy (mc_ns claim) policy))"

definition releaseMachineClaim :: "PoolEnv \<Rightarrow> MachineClaim \<Rightarrow> Machine list \<Rightarrow> unit pool_io" where
  "releaseMachineClaim env claim machines =
     (let finals = meta_Finalizers (mc_Metadata claim); name = mcs_MachineName (mc_Status claim);
          m = by_name machines (mc_ns claim @ ''/'' @ name) in
      if \<not> HasFinalizerList finals FinalizerMachineClaim then State_Monad.return ()
      else do {
        e \<leftarrow> delete_egress env claim;
        (if unless_found e \<noteq> None then State_Monad.return ()
         else do {
           snap \<leftarrow> (if m \<noteq> None \<and> name \<noteq> [] \<and> WantsSnapshot claim then ensureReleaseSnapshot env claim name
             else State_Monad.return (Inr True));
           (if snap \<noteq> Inr True then State_Monad.return ()
            else do {
              e \<leftarrow> release_machine env claim m;
              (if unless_found e \<noteq> None then State_Monad.return ()
               else do {
                 _ \<leftarrow> attempt (pv_err env) (PClaimFinalizers (mc_ns claim) (mc_name claim) (RemoveFinalizer finals FinalizerMachineClaim));
                 State_Monad.return ()
               })
            })
         })
      })"

definition patch_claim_status :: "PoolEnv \<Rightarrow> MachineClaim \<Rightarrow> MachineClaimStatus \<Rightarrow> err option \<Rightarrow> KubeErr option pool_io" where
  \<comment> \<open>the status is compared as a struct; a new \<open>BoundAt\<close> pointer comes with a new Machine name\<close>
  "patch_claim_status env claim status e =
     (let status = (case e of Some e \<Rightarrow> status\<lparr>mcs_Message := e\<rparr> | None \<Rightarrow> status) in
      if status = mc_Status claim then State_Monad.return None
      else attempt (pv_err env) (PClaimStatus (mc_ns claim) (mc_name claim) status))"

fun claim_loop :: "PoolEnv \<Rightarrow> Machine list \<Rightarrow> string list \<Rightarrow> MachineClaim list \<Rightarrow> string list pool_io" where
  "claim_loop env machines bound [] = State_Monad.return bound"
| "claim_loop env machines bound (claim # claims) =
     (if mc_deleted claim then do {
        _ \<leftarrow> releaseMachineClaim env claim machines;
        claim_loop env machines bound claims
      }
      else do {
        ((status, e), bound) \<leftarrow> reconcileMachineClaim env claim machines bound;
        _ \<leftarrow> patch_claim_status env claim status e;
        claim_loop env machines bound claims
      })"

definition reconcileMachineClaims :: "PoolEnv \<Rightarrow> MachineClaim list \<Rightarrow> Machine list \<Rightarrow> string list pool_io" where
  "reconcileMachineClaims env claims machines = claim_loop env machines []
     (sort_by (\<lambda>a b. meta_CreationTimestamp (mc_Metadata a) < meta_CreationTimestamp (mc_Metadata b)) claims)"

section \<open>Pools\<close>

definition pool_member :: "MachinePool \<Rightarrow> Machine \<Rightarrow> bool" where
  "pool_member pool m \<longleftrightarrow> Namespace m = mp_ns pool \<and> mget (m_labels m) LabelMachinePool = mp_name pool \<and> \<not> m_deleted m"

definition pool_current :: "string \<Rightarrow> Machine \<Rightarrow> bool" where
  "pool_current hash m \<longleftrightarrow> mget (m_labels m) LabelMachinePoolTemplate = hash"

definition pool_warm :: "MachinePool \<Rightarrow> string list \<Rightarrow> Machine \<Rightarrow> bool" where
  "pool_warm pool bound m \<longleftrightarrow> mget (m_labels m) LabelPoolState = PoolStateWarm \<and> mp_ns pool @ ''/'' @ m_name m \<notin> set bound"

definition pool_tally :: "MachinePool \<Rightarrow> Machine list \<Rightarrow> nat \<Rightarrow> MachinePoolStatus" where
  "pool_tally pool current claimed = \<lparr>mps_Replicas = int (length current), mps_ReadyReplicas = int (set_ready current),
     mps_Claimed = int claimed,
     mps_Selector = LabelMachinePool @ ''='' @ mp_name pool @ '','' @ LabelPoolState @ ''='' @ PoolStateWarm, mps_Message = []\<rparr>"

definition add_pool_finalizer :: "PoolEnv \<Rightarrow> MachinePool \<Rightarrow> KubeErr option pool_io" where
  "add_pool_finalizer env pool =
     (let finals = meta_Finalizers (mp_Metadata pool) in
      if HasFinalizerList finals FinalizerMachinePool then State_Monad.return None
      else attempt (pv_err env) (PPoolFinalizers (mp_ns pool) (mp_name pool) (finals @ [FinalizerMachinePool])))"

fun delete_members :: "PoolEnv \<Rightarrow> string \<Rightarrow> string \<Rightarrow> Machine list \<Rightarrow> err option pool_io" where
  "delete_members env ns what [] = State_Monad.return None"
| "delete_members env ns what (m # ms) = do {
     e \<leftarrow> attempt (pv_err env) (PDeleteMachine ns (m_name m));
     (case unless_found e of
        Some e \<Rightarrow> State_Monad.return (Some (''delete '' @ what @ '' warm machine '' @ m_name m @ '': '' @ err_text e))
      | None \<Rightarrow> delete_members env ns what ms)
   }"

definition pool_replica :: "MachinePool \<Rightarrow> string \<Rightarrow> nat list \<Rightarrow> Machine" where
  "pool_replica pool hash buf = Machine0\<lparr>
     mach_Metadata := ObjectMeta0\<lparr>meta_Name := generateMachineSetChildName (mp_name pool) buf, meta_Namespace := mp_ns pool,
       meta_Labels := mput (mput (mput (mt_Labels (mp_Template (mp_Spec pool))) LabelMachinePool (mp_name pool))
         LabelMachinePoolTemplate hash) LabelPoolState PoolStateWarm\<rparr>,
     mach_Spec := mt_Spec (mp_Template (mp_Spec pool))\<rparr>"

definition createPoolMember :: "PoolEnv \<Rightarrow> MachinePool \<Rightarrow> string \<Rightarrow> err option pool_io" where
  "createPoolMember env pool hash = do {
     buf \<leftarrow> State (\<lambda>h. (pv_rand env h, h));
     e \<leftarrow> attempt (pv_err env) (PCreateMachine (mp_ns pool) (pool_replica pool hash buf));
     State_Monad.return (map_option (\<lambda>e. ''create warm machine for pool '' @ mp_ns pool @ ''/'' @ mp_name pool @ '': '' @ err_text e) e)
   }"

fun create_members :: "PoolEnv \<Rightarrow> MachinePool \<Rightarrow> string \<Rightarrow> nat \<Rightarrow> err option pool_io" where
  "create_members env pool hash 0 = State_Monad.return None"
| "create_members env pool hash (Suc n) = do {
     e \<leftarrow> createPoolMember env pool hash;
     (case e of Some e \<Rightarrow> State_Monad.return (Some e) | None \<Rightarrow> create_members env pool hash n)
   }"

definition pool_surplus :: "nat \<Rightarrow> Machine list \<Rightarrow> Machine list" where
  \<comment> \<open>the members beyond the wanted number, booting ones first\<close>
  "pool_surplus desired current = take (length current - desired)
     (sort_by (\<lambda>a b. m_phase a \<noteq> ''Running'' \<and> m_phase b = ''Running'') current)"

definition fill_pool :: "PoolEnv \<Rightarrow> MachinePool \<Rightarrow> string \<Rightarrow> Machine list \<Rightarrow> err option pool_io" where
  "fill_pool env pool hash current =
     (let desired = nat (mp_Replicas (mp_Spec pool)) in
      if length current < desired then create_members env pool hash (desired - length current)
      else delete_members env (mp_ns pool) ''surplus'' (pool_surplus desired current))"

definition reconcileMachinePool :: "PoolEnv \<Rightarrow> MachinePool \<Rightarrow> Machine list \<Rightarrow> string list \<Rightarrow> (MachinePoolStatus \<times> err option) pool_io" where
  "reconcileMachinePool env pool machines bound =
     (let hash = machineSetTemplateHash (pv_json env) (mp_Template (mp_Spec pool));
          members = filter (pool_member pool) machines;
          warm = filter (pool_warm pool bound) members;
          current = filter (pool_current hash) warm;
          outdated = filter (\<lambda>m. \<not> pool_current hash m) warm;
          status = pool_tally pool current (length (filter (\<lambda>m. \<not> pool_warm pool bound m) members)) in do {
        e \<leftarrow> add_pool_finalizer env pool;
        (case e of
           Some e \<Rightarrow> State_Monad.return (status, Some (''add machinepool finalizer: '' @ err_text e))
         | None \<Rightarrow> do {
             e \<leftarrow> delete_members env (mp_ns pool) ''outdated'' outdated;
             (case e of
                Some e \<Rightarrow> State_Monad.return (status, Some e)
              | None \<Rightarrow> do {
                  e \<leftarrow> fill_pool env pool hash current;
                  State_Monad.return (status, e)
                })
           })
      })"

fun delete_warm :: "PoolEnv \<Rightarrow> string \<Rightarrow> Machine list \<Rightarrow> bool pool_io" where
  \<comment> \<open>False when a deletion failed and the tick stops\<close>
  "delete_warm env ns [] = State_Monad.return True"
| "delete_warm env ns (m # ms) =
     (if m_deleted m then delete_warm env ns ms
      else do {
        e \<leftarrow> attempt (pv_err env) (PDeleteMachine ns (m_name m));
        (case unless_found e of Some _ \<Rightarrow> State_Monad.return False | None \<Rightarrow> delete_warm env ns ms)
      })"

definition reconcileMachinePoolDeletion :: "PoolEnv \<Rightarrow> MachinePool \<Rightarrow> Machine list \<Rightarrow> string list \<Rightarrow> unit pool_io" where
  "reconcileMachinePoolDeletion env pool machines bound =
     (let finals = meta_Finalizers (mp_Metadata pool); ns = mp_ns pool;
          warm = filter (warm_member ns (mp_name pool) bound) machines in
      if \<not> HasFinalizerList finals FinalizerMachinePool then State_Monad.return ()
      else do {
        done \<leftarrow> delete_warm env ns warm;
        (if \<not> done \<or> warm \<noteq> [] then State_Monad.return ()
         else do {
           _ \<leftarrow> attempt (pv_err env) (PPoolFinalizers ns (mp_name pool) (RemoveFinalizer finals FinalizerMachinePool));
           State_Monad.return ()
         })
      })"

definition patch_pool_status :: "PoolEnv \<Rightarrow> MachinePool \<Rightarrow> MachinePoolStatus \<Rightarrow> err option \<Rightarrow> KubeErr option pool_io" where
  "patch_pool_status env pool status e =
     (let status = (case e of Some e \<Rightarrow> status\<lparr>mps_Message := e\<rparr> | None \<Rightarrow> status) in
      if status = mp_Status pool then State_Monad.return None
      else attempt (pv_err env) (PPoolStatus (mp_ns pool) (mp_name pool) status))"

fun reconcileMachinePools :: "PoolEnv \<Rightarrow> MachinePool list \<Rightarrow> Machine list \<Rightarrow> string list \<Rightarrow> unit pool_io" where
  "reconcileMachinePools env [] machines bound = State_Monad.return ()"
| "reconcileMachinePools env (pool # pools) machines bound =
     (if meta_DeletionTimestamp (mp_Metadata pool) \<noteq> None then do {
        _ \<leftarrow> reconcileMachinePoolDeletion env pool machines bound;
        reconcileMachinePools env pools machines bound
      }
      else do {
        (status, e) \<leftarrow> reconcileMachinePool env pool machines bound;
        _ \<leftarrow> patch_pool_status env pool status e;
        reconcileMachinePools env pools machines bound
      })"

section \<open>What a tick binds\<close>

fun bind_keys :: "PoolEnv \<Rightarrow> PoolCall list \<Rightarrow> PoolCall list \<Rightarrow> string list" where
  \<comment> \<open>the Machines bound by the calls made after \<open>h\<close>, in order\<close>
  "bind_keys env h [] = []"
| "bind_keys env h (c # cs) = (case c of PBind ns name _ _ \<Rightarrow> if pv_err env h c = None then [ns @ ''/'' @ name] else [] | _ \<Rightarrow> [])
     @ bind_keys env (h @ [c]) cs"

fun is_bind :: "PoolCall \<Rightarrow> bool" where
  "is_bind (PBind _ _ _ _) = True"
| "is_bind _ = False"

lemma bind_keys_append: "bind_keys env h (xs @ ys) = bind_keys env h xs @ bind_keys env (h @ xs) ys"
  by (induction xs arbitrary: h) auto

lemma no_bind_keys: "list_all (\<lambda>c. \<not> is_bind c) cs \<Longrightarrow> bind_keys env h cs = []"
  by (induction cs arbitrary: h) (auto split: PoolCall.split)

abbreviation "quiet \<equiv> only_calls (\<lambda>c. \<not> is_bind c)"

lemma pool_clock_quiet [call_intros]: "only_calls ok (pool_clock env)"
  by (simp add: pool_clock_def only_calls_def)

lemma ensureClaimEgress_quiet: "quiet (ensureClaimEgress env claim m)"
  unfolding ensureClaimEgress_def Let_def
  by (auto intro!: call_intros split: option.split sum.split prod.split)

lemma check_bound_quiet: "quiet (check_bound env claim machines)"
  unfolding check_bound_def Let_def
  by (auto intro!: call_intros ensureClaimEgress_quiet split: option.split prod.split)

lemma releaseMachineClaim_quiet: "quiet (releaseMachineClaim env claim machines)"
proof -
  have "quiet (delete_egress env claim)" by (auto simp: delete_egress_def Let_def intro!: call_intros)
  moreover have "quiet (ensureReleaseSnapshot env claim n)" for n
    by (auto simp: ensureReleaseSnapshot_def Let_def intro!: call_intros split: sum.split prod.split)
  moreover have "quiet (release_machine env claim m)" for m
    by (auto simp: release_machine_def Let_def intro!: call_intros split: option.split)
  ultimately show ?thesis unfolding releaseMachineClaim_def Let_def by (auto intro!: call_intros)
qed

definition may_bind :: "Machine list \<Rightarrow> MachineClaim \<Rightarrow> Machine \<Rightarrow> bool" where
  \<comment> \<open>the Machine is a Running, warm member of the pool of the claim, in its namespace, and suits it\<close>
  "may_bind machines claim m \<longleftrightarrow> m \<in> set machines \<and> \<not> mc_deleted claim \<and> mcs_MachineName (mc_Status claim) = []
     \<and> warm_member (mc_ns claim) (mc_PoolName (mc_Spec claim)) [] m \<and> \<not> m_deleted m \<and> m_phase m = ''Running'' \<and> EligibleWarm claim m"

lemma quiet_keys:
  assumes "quiet m" "run_state m h = (x, h1)"
  shows "\<exists>cs. h1 = h @ cs \<and> bind_keys env h cs = []"
proof -
  obtain cs where "h1 = h @ cs" "list_all (\<lambda>c. \<not> is_bind c) cs" using only_calls_run [OF assms] by auto
  then show ?thesis using no_bind_keys by auto
qed

lemma try_bind_run:
  "\<exists>r bound' cs. run_state (try_bind env claim warming bound ms) h = ((r, bound'), h @ cs) \<and> bound' = bound @ bind_keys env h cs
     \<and> (bind_keys env h cs = [] \<or> (\<exists>m \<in> set ms. bind_keys env h cs = [m_key m]))"
proof (induction ms arbitrary: h)
  case Nil
  then show ?case by (simp add: State_Monad.return_def)
next
  case (Cons m ms)
  let ?c = "PBind (Namespace m) (m_name m) (mput (mput (mc_Labels (mc_Spec claim)) LabelPoolState PoolStateClaimed) LabelMachineClaim (mc_name claim))
     (meta_ResourceVersion (mach_Metadata m))"
  have bind: "run_state (bindMachine env claim m) h = (pv_err env h ?c, h @ [?c])" by (simp add: bindMachine_def attempt_def ask_def)
  show ?case
  proof (cases "pv_err env h ?c")
    case None
    obtain r h1 where eg: "run_state (ensureClaimEgress env claim (m_name m)) (h @ [?c]) = (r, h1)" by (rule prod.exhaust)
    obtain cs where cs: "h1 = (h @ [?c]) @ cs" "bind_keys env (h @ [?c]) cs = []" using quiet_keys [OF ensureClaimEgress_quiet eg] by blast
    obtain policy e where "r = (policy, e)" by (rule prod.exhaust)
    then have "run_state (try_bind env claim warming bound (m # ms)) h
        = (((bound_status claim (pv_now env (h @ [?c])) (m_name m) policy, e), bound @ [m_key m]), h @ (?c # cs))"
      using bind None eg cs(1) by (simp add: State_Monad.bind_def State_Monad.return_def pool_clock_def)
    moreover have "bind_keys env h (?c # cs) = [m_key m]" using None cs(2) by (simp add: m_key_def)
    ultimately show ?thesis by (intro exI [of _ "(bound_status claim (pv_now env (h @ [?c])) (m_name m) policy, e)"] exI [of _ "bound @ [m_key m]"] exI [of _ "?c # cs"]) simp
  next
    case (Some e)
    show ?thesis
    proof (cases "IsConflict e")
      case True
      obtain r bound' cs where r: "run_state (try_bind env claim warming bound ms) (h @ [?c]) = ((r, bound'), (h @ [?c]) @ cs)"
        "bound' = bound @ bind_keys env (h @ [?c]) cs"
        "bind_keys env (h @ [?c]) cs = [] \<or> (\<exists>m \<in> set ms. bind_keys env (h @ [?c]) cs = [m_key m])" using Cons by blast
      have "run_state (try_bind env claim warming bound (m # ms)) h = ((r, bound'), h @ (?c # cs))"
        using bind Some True r(1) by (simp add: State_Monad.bind_def)
      moreover have "bind_keys env h (?c # cs) = bind_keys env (h @ [?c]) cs" using Some by simp
      ultimately show ?thesis using r(2,3) by (intro exI [of _ r] exI [of _ bound'] exI [of _ "?c # cs"]) auto
    next
      case False
      have "run_state (try_bind env claim warming bound (m # ms)) h = ((((mc_Status claim)\<lparr>mcs_Phase := ClaimPending\<rparr>,
            Some (''bind machine '' @ m_name m @ '': '' @ err_text e)), bound), h @ [?c])"
        using bind Some False by (simp add: State_Monad.bind_def State_Monad.return_def)
      moreover have "bind_keys env h [?c] = []" using Some by simp
      ultimately show ?thesis by (intro exI conjI) (assumption, simp, simp)
    qed
  qed
qed

lemma warmMembers_set:
  "m \<in> set (fst (warmMembers ns pool machines bound)) \<longleftrightarrow>
     m \<in> set machines \<and> warm_member ns pool bound m \<and> \<not> m_deleted m \<and> m_phase m = ''Running''"
  by (auto simp: warmMembers_def Let_def)

lemma reconcileMachineClaim_run:
  assumes "\<not> mc_deleted claim"
  shows "\<exists>r bound' cs. run_state (reconcileMachineClaim env claim machines bound) h = ((r, bound'), h @ cs) \<and> bound' = bound @ bind_keys env h cs
     \<and> (bind_keys env h cs = [] \<or> (\<exists>m. may_bind machines claim m \<and> m_key m \<notin> set bound \<and> bind_keys env h cs = [m_key m]))"
proof (cases "mcs_MachineName (mc_Status claim) \<noteq> []")
  case True
  obtain r h1 where r: "run_state (check_bound env claim machines) h = (r, h1)" by (rule prod.exhaust)
  obtain cs where cs: "h1 = h @ cs" "bind_keys env h cs = []" using quiet_keys [OF check_bound_quiet r] by blast
  have "run_state (reconcileMachineClaim env claim machines bound) h = ((r, bound), h @ cs)"
    using True r cs(1) by (simp add: reconcileMachineClaim_def State_Monad.bind_def State_Monad.return_def)
  then show ?thesis using cs(2) by (intro exI [of _ r] exI [of _ bound] exI [of _ cs]) simp
next
  case unbound: False
  show ?thesis
  proof (cases "mc_PoolName (mc_Spec claim) = []")
    case True
    then have "run_state (reconcileMachineClaim env claim machines bound) h
        = ((((mc_Status claim)\<lparr>mcs_Phase := ClaimPending\<rparr>, Some ''spec.poolName is required''), bound), h @ [])"
      using unbound by (simp add: reconcileMachineClaim_def State_Monad.return_def)
    then show ?thesis by (intro exI conjI disjI1) (assumption, simp, simp)
  next
    case pool: False
    have q: "quiet (add_claim_finalizer env claim)" by (auto simp: add_claim_finalizer_def Let_def intro!: call_intros)
    obtain e h1 where e: "run_state (add_claim_finalizer env claim) h = (e, h1)" by (rule prod.exhaust)
    obtain cs1 where cs1: "h1 = h @ cs1" "bind_keys env h cs1 = []" using quiet_keys [OF q e] by blast
    show ?thesis
    proof (cases e)
      case (Some x)
      then have "run_state (reconcileMachineClaim env claim machines bound) h
          = ((((mc_Status claim)\<lparr>mcs_Phase := ClaimPending\<rparr>, Some (''add machineclaim finalizer: '' @ err_text x)), bound), h @ cs1)"
        using unbound pool e cs1 by (simp add: reconcileMachineClaim_def State_Monad.bind_def State_Monad.return_def)
      then show ?thesis using cs1(2) by (intro exI conjI disjI1) (assumption, simp, simp)
    next
      case None
      obtain ready warming where w: "warmMembers (mc_ns claim) (mc_PoolName (mc_Spec claim)) machines bound = (ready, warming)" by (rule prod.exhaust)
      let ?ms = "filter (EligibleWarm claim) ready"
      obtain r bound' cs2 where b: "run_state (try_bind env claim warming bound ?ms) (h @ cs1) = ((r, bound'), (h @ cs1) @ cs2)"
        "bound' = bound @ bind_keys env (h @ cs1) cs2"
        "bind_keys env (h @ cs1) cs2 = [] \<or> (\<exists>m \<in> set ?ms. bind_keys env (h @ cs1) cs2 = [m_key m])" using try_bind_run [of env claim warming bound ?ms "h @ cs1"] by blast
      have ok: "may_bind machines claim m \<and> m_key m \<notin> set bound" if "m \<in> set ?ms" for m
      proof -
        have "m \<in> set (fst (warmMembers (mc_ns claim) (mc_PoolName (mc_Spec claim)) machines bound))" "EligibleWarm claim m"
          using that w by auto
        then show ?thesis using assms unbound unfolding warmMembers_set by (auto simp: may_bind_def warm_member_def m_key_def)
      qed
      have run: "run_state (reconcileMachineClaim env claim machines bound) h = ((r, bound'), h @ (cs1 @ cs2))"
        using unbound pool e cs1 None w b(1) by (simp add: reconcileMachineClaim_def State_Monad.bind_def)
      have keys: "bind_keys env h (cs1 @ cs2) = bind_keys env (h @ cs1) cs2" using cs1(2) by (simp add: bind_keys_append)
      show ?thesis
      proof (intro exI conjI)
        show "run_state (reconcileMachineClaim env claim machines bound) h = ((r, bound'), h @ (cs1 @ cs2))" by (rule run)
        show "bound' = bound @ bind_keys env h (cs1 @ cs2)" using b(2) keys by simp
        show "bind_keys env h (cs1 @ cs2) = [] \<or> (\<exists>m. may_bind machines claim m \<and> m_key m \<notin> set bound \<and> bind_keys env h (cs1 @ cs2) = [m_key m])"
          using b(3) ok unfolding keys by blast
      qed
    qed
  qed
qed

definition bindings :: "Machine list \<Rightarrow> MachineClaim list \<Rightarrow> string list \<Rightarrow> string list \<Rightarrow> bool" where
  \<comment> \<open>these keys are Machines the claims, each at most once and in their order, may take, all different and not taken before\<close>
  "bindings machines claims bound keys \<longleftrightarrow>
     (\<exists>ps. keys = map (\<lambda>(c, m). m_key m) ps \<and> subseq (map fst ps) claims \<and> (\<forall>(c, m) \<in> set ps. may_bind machines c m))
     \<and> distinct keys \<and> set keys \<inter> set bound = {}"

lemma bindings_Nil: "bindings machines claims bound []"
  unfolding bindings_def by (auto intro!: exI [of _ "[]"])

lemma bindings_skip: "bindings machines claims bound keys \<Longrightarrow> bindings machines (c # claims) bound keys"
  unfolding bindings_def by (metis (no_types, lifting) list_emb_Cons)

lemma bindings_bind:
  assumes "may_bind machines c m" "m_key m \<notin> set bound" "bindings machines claims (bound @ [m_key m]) keys"
  shows "bindings machines (c # claims) bound (m_key m # keys)"
proof -
  obtain ps where ps: "keys = map (\<lambda>(c, m). m_key m) ps" "subseq (map fst ps) claims" "\<forall>(c, m) \<in> set ps. may_bind machines c m"
    and d: "distinct keys" "set keys \<inter> set (bound @ [m_key m]) = {}" using assms(3) unfolding bindings_def by blast
  show ?thesis unfolding bindings_def
    using ps d assms(1,2) by (intro conjI exI [of _ "(c, m) # ps"]) auto
qed

lemma claim_loop_run:
  "\<exists>bound' cs. run_state (claim_loop env machines bound claims) h = (bound', h @ cs) \<and> bound' = bound @ bind_keys env h cs
     \<and> bindings machines claims bound (bind_keys env h cs)"
proof (induction claims arbitrary: bound h)
  case Nil
  then show ?case by (simp add: State_Monad.return_def bindings_Nil)
next
  case (Cons claim claims)
  show ?case
  proof (cases "mc_deleted claim")
    case True
    obtain r h1 where r: "run_state (releaseMachineClaim env claim machines) h = (r, h1)" by (rule prod.exhaust)
    obtain cs1 where cs1: "h1 = h @ cs1" "bind_keys env h cs1 = []" using quiet_keys [OF releaseMachineClaim_quiet r] by blast
    obtain bound' cs2 where l: "run_state (claim_loop env machines bound claims) (h @ cs1) = (bound', (h @ cs1) @ cs2)"
      "bound' = bound @ bind_keys env (h @ cs1) cs2" "bindings machines claims bound (bind_keys env (h @ cs1) cs2)" using Cons [of bound "h @ cs1"] by blast
    have "run_state (claim_loop env machines bound (claim # claims)) h = (bound', h @ (cs1 @ cs2))"
      using True r cs1 l(1) by (simp add: State_Monad.bind_def)
    then show ?thesis using l(2) bindings_skip [OF l(3)] cs1(2)
      by (intro exI [of _ bound'] exI [of _ "cs1 @ cs2"]) (simp add: bind_keys_append)
  next
    case False
    obtain r bound1 cs1 where c: "run_state (reconcileMachineClaim env claim machines bound) h = ((r, bound1), h @ cs1)"
      "bound1 = bound @ bind_keys env h cs1"
      "bind_keys env h cs1 = [] \<or> (\<exists>m. may_bind machines claim m \<and> m_key m \<notin> set bound \<and> bind_keys env h cs1 = [m_key m])"
      using reconcileMachineClaim_run [OF False, of env machines bound h] by blast
    obtain status e where r: "r = (status, e)" by (rule prod.exhaust)
    have q: "quiet (patch_claim_status env claim status e)" unfolding patch_claim_status_def Let_def by (auto intro!: call_intros)
    obtain x h2 where x: "run_state (patch_claim_status env claim status e) (h @ cs1) = (x, h2)" by (rule prod.exhaust)
    obtain cs2 where cs2: "h2 = (h @ cs1) @ cs2" "bind_keys env (h @ cs1) cs2 = []" using quiet_keys [OF q x] by blast
    obtain bound' cs3 where l: "run_state (claim_loop env machines bound1 claims) h2 = (bound', h2 @ cs3)"
      "bound' = bound1 @ bind_keys env h2 cs3" "bindings machines claims bound1 (bind_keys env h2 cs3)" using Cons [of bound1 h2] by blast
    have run: "run_state (claim_loop env machines bound (claim # claims)) h = (bound', h @ (cs1 @ cs2 @ cs3))"
      using False c(1) r l(1) x cs2(1) by (simp add: State_Monad.bind_def)
    have keys: "bind_keys env h (cs1 @ cs2 @ cs3) = bind_keys env h cs1 @ bind_keys env h2 cs3"
      using cs2 by (simp add: bind_keys_append)
    have "bindings machines (claim # claims) bound (bind_keys env h cs1 @ bind_keys env h2 cs3)"
      using c(3)
    proof
      assume "bind_keys env h cs1 = []"
      then show ?thesis using bindings_skip l(3) c(2) by simp
    next
      assume "\<exists>m. may_bind machines claim m \<and> m_key m \<notin> set bound \<and> bind_keys env h cs1 = [m_key m]"
      then obtain m where "may_bind machines claim m" "m_key m \<notin> set bound" "bind_keys env h cs1 = [m_key m]" by blast
      then show ?thesis using bindings_bind [of machines claim m bound claims] l(3) c(2) by simp
    qed
    then show ?thesis using run l(2) c(2) keys by (intro exI [of _ bound'] exI [of _ "cs1 @ cs2 @ cs3"]) simp
  qed
qed

section \<open>What the pools may delete\<close>

fun pool_call_ok :: "MachinePool list \<Rightarrow> Machine list \<Rightarrow> string list \<Rightarrow> PoolCall \<Rightarrow> bool" where
  "pool_call_ok pools machines bound (PDeleteMachine ns n) =
     (\<exists>pool \<in> set pools. \<exists>m \<in> set machines. ns = mp_ns pool \<and> n = m_name m \<and> warm_member ns (mp_name pool) bound m \<and> \<not> m_deleted m)"
| "pool_call_ok pools machines bound (PPoolFinalizers ns n fs) =
     (FinalizerMachinePool \<in> set fs \<or> (\<exists>pool \<in> set pools. ns = mp_ns pool \<and> n = mp_name pool \<and> meta_DeletionTimestamp (mp_Metadata pool) \<noteq> None
        \<and> (\<forall>m \<in> set machines. \<not> warm_member ns n bound m)))"
| "pool_call_ok pools machines bound (PCreateMachine ns m) = True"
| "pool_call_ok pools machines bound (PPoolStatus ns n st) = True"
| "pool_call_ok pools machines bound _ = False"

lemma delete_members_calls:
  "(\<And>m. m \<in> set ms \<Longrightarrow> ok (PDeleteMachine ns (m_name m))) \<Longrightarrow> only_calls ok (delete_members env ns what ms)"
  by (induction ms) (auto intro!: call_intros split: option.split)

lemma delete_warm_calls:
  "(\<And>m. m \<in> set ms \<Longrightarrow> \<not> m_deleted m \<Longrightarrow> ok (PDeleteMachine ns (m_name m))) \<Longrightarrow> only_calls ok (delete_warm env ns ms)"
  by (induction ms) (auto intro!: call_intros split: option.split)

lemma create_members_calls: "(\<And>m. ok (PCreateMachine (mp_ns pool) m)) \<Longrightarrow> only_calls ok (create_members env pool hash n)"
proof (induction n)
  case (Suc n)
  have "only_calls ok (State (\<lambda>h. (pv_rand env h, h)))" by (simp add: only_calls_def)
  then show ?case using Suc by (auto simp: createPoolMember_def intro!: call_intros split: option.split)
qed (simp add: call_intros)

lemma reconcileMachinePool_calls:
  assumes "pool \<in> set pools"
  shows "only_calls (pool_call_ok pools machines bound) (reconcileMachinePool env pool machines bound)"
proof -
  let ?ok = "pool_call_ok pools machines bound" and ?warm = "filter (pool_warm pool bound) (filter (pool_member pool) machines)"
  have del: "only_calls ?ok (delete_members env (mp_ns pool) what xs)" if "set xs \<subseteq> set ?warm" for what xs
    using that assms by (intro delete_members_calls) (auto simp: pool_member_def pool_warm_def warm_member_def subset_iff)
  have "only_calls ?ok (add_pool_finalizer env pool)" by (auto simp: add_pool_finalizer_def Let_def intro!: call_intros)
  moreover have "only_calls ?ok (create_members env pool hash n)" for hash n by (rule create_members_calls) simp
  moreover have "set (pool_surplus d (filter P ?warm)) \<subseteq> set ?warm" for d P
    by (auto simp: pool_surplus_def dest!: in_set_takeD)
  then have "only_calls ?ok (delete_members env (mp_ns pool) what (pool_surplus d (filter P ?warm)))" for what d P by (rule del)
  moreover have "only_calls ?ok (delete_members env (mp_ns pool) what (filter P ?warm))" for what P by (rule del) auto
  ultimately show ?thesis unfolding reconcileMachinePool_def fill_pool_def Let_def
    by (auto intro!: call_intros split: option.split simp del: filter_filter)
qed

lemma reconcileMachinePoolDeletion_calls:
  assumes "pool \<in> set pools" "meta_DeletionTimestamp (mp_Metadata pool) \<noteq> None"
  shows "only_calls (pool_call_ok pools machines bound) (reconcileMachinePoolDeletion env pool machines bound)"
proof -
  have "only_calls (pool_call_ok pools machines bound) (delete_warm env (mp_ns pool) (filter (warm_member (mp_ns pool) (mp_name pool) bound) machines))"
    using assms(1) by (intro delete_warm_calls) auto
  moreover have "pool_call_ok pools machines bound (PPoolFinalizers (mp_ns pool) (mp_name pool) (RemoveFinalizer fs FinalizerMachinePool))"
    if "filter (warm_member (mp_ns pool) (mp_name pool) bound) machines = []" for fs
    using that assms by (auto simp: filter_empty_conv)
  ultimately show ?thesis unfolding reconcileMachinePoolDeletion_def Let_def by (auto intro!: call_intros)
qed

lemma reconcileMachinePools_calls:
  "set ps \<subseteq> set pools \<Longrightarrow> only_calls (pool_call_ok pools machines bound) (reconcileMachinePools env ps machines bound)"
proof (induction ps)
  case (Cons pool ps)
  have "only_calls (pool_call_ok pools machines bound) (patch_pool_status env pool st e)" for st e
    by (auto simp: patch_pool_status_def Let_def intro!: call_intros)
  then show ?case using Cons
    by (auto intro!: call_intros reconcileMachinePool_calls reconcileMachinePoolDeletion_calls split: prod.split)
qed (simp add: call_intros)

abbreviation claims_by_age :: "MachineClaim list \<Rightarrow> MachineClaim list" where
  "claims_by_age \<equiv> sort_by (\<lambda>a b. meta_CreationTimestamp (mc_Metadata a) < meta_CreationTimestamp (mc_Metadata b))"

lemma reconcileMachineClaims_bound:
  assumes "run_state (reconcileMachineClaims env claims machines) [] = (bound, calls)"
  shows "bound = bind_keys env [] calls" "bindings machines (claims_by_age claims) [] bound"
proof -
  obtain bound' cs where "run_state (claim_loop env machines [] (claims_by_age claims)) [] = (bound', [] @ cs)" "bound' = [] @ bind_keys env [] cs"
    "bindings machines (claims_by_age claims) [] (bind_keys env [] cs)" using claim_loop_run [of env machines "[]" "claims_by_age claims" "[]"] by blast
  then show "bound = bind_keys env [] calls" "bindings machines (claims_by_age claims) [] bound" using assms by (auto simp: reconcileMachineClaims_def)
qed

section \<open>Properties\<close>

text \<open>
  C11. In one tick a Machine is bound to at most one claim and a claim to at most one Machine,
  whatever calls fail: the Machines bound are all different; each is a Running, warm, suitable
  member of the pool of its claim in its namespace; the claims served are those not yet
  bound, each once, oldest first; and they are exactly what the pools are told about.
\<close>

theorem claims_bind_once:
  assumes "run_state (reconcileMachineClaims env claims machines) [] = (bound, calls)"
  shows "bound = bind_keys env [] calls \<and> distinct bound
    \<and> (\<exists>ps. bound = map (\<lambda>(c, m). m_key m) ps \<and> (\<forall>(c, m) \<in> set ps. may_bind machines c m)
         \<and> subseq (map fst ps) (claims_by_age claims))"
  using reconcileMachineClaims_bound [OF assms] unfolding bindings_def by blast

text \<open>
  C25. A pool never takes a Machine from a claim. When the claims and then the pools of a tick are
  reconciled from one listing, with any calls failing, every Machine the pools delete is listed as a
  warm member of one of them and was not bound to a claim in this tick.
\<close>

theorem pools_spare_claimed:
  assumes "run_state (reconcileMachineClaims env claims machines) [] = (bound, calls)"
    and "run_state (reconcileMachinePools env pools machines bound) calls = ((), calls @ calls')"
    and "PDeleteMachine ns n \<in> set calls'"
  shows "(\<exists>pool \<in> set pools. \<exists>m \<in> set machines. ns = mp_ns pool \<and> n = m_name m \<and> warm_member ns (mp_name pool) [] m \<and> \<not> m_deleted m)
    \<and> ns @ ''/'' @ n \<notin> set (bind_keys env [] calls)"
proof -
  obtain cs where "calls @ calls' = calls @ cs" "list_all (pool_call_ok pools machines bound) cs"
    using only_calls_run [OF reconcileMachinePools_calls [OF subset_refl] assms(2)] by blast
  then have "pool_call_ok pools machines bound (PDeleteMachine ns n)" using assms(3) unfolding list_all_iff by blast
  with reconcileMachineClaims_bound(1) [OF assms(1)] show ?thesis by (auto simp: warm_member_def)
qed

section \<open>Examples\<close>

definition pool_machine :: "string \<Rightarrow> time \<Rightarrow> Machine" where
  \<comment> \<open>a Running warm member of pool p\<close>
  "pool_machine name t = Machine0\<lparr>
     mach_Metadata := ObjectMeta0\<lparr>meta_Name := name, meta_Namespace := ''ns'', meta_CreationTimestamp := t,
       meta_Labels := [(LabelMachinePool, ''p''), (LabelPoolState, PoolStateWarm)]\<rparr>,
     mach_Status := MachineStatus0\<lparr>st_Phase := ''Running''\<rparr>\<rparr>"

definition claimed_machine :: "string \<Rightarrow> time \<Rightarrow> Machine" where
  \<comment> \<open>the same after the binding of claim c\<close>
  "claimed_machine name t = (pool_machine name t)\<lparr>
     mach_Metadata := (mach_Metadata (pool_machine name t))\<lparr>
       meta_Labels := [(LabelMachinePool, ''p''), (LabelPoolState, PoolStateClaimed), (LabelMachineClaim, ''c'')]\<rparr>\<rparr>"

definition claim_c :: "time option \<Rightarrow> MachineClaimStatus \<Rightarrow> MachineClaim" where
  "claim_c deleted status = \<lparr>mc_Metadata = ObjectMeta0\<lparr>meta_Name := ''c'', meta_Namespace := ''ns'',
       meta_Finalizers := [FinalizerMachineClaim], meta_DeletionTimestamp := deleted\<rparr>,
     mc_Spec = \<lparr>mc_PoolName = ''p'', mc_Labels = [], mc_ReclaimPolicy = [], mc_TTLSeconds = 0, mc_Egress = None\<rparr>,
     mc_Status = status\<rparr>"

definition no_status :: MachineClaimStatus where
  "no_status = \<lparr>mcs_Phase = [], mcs_MachineName = [], mcs_BoundAt = None, mcs_BindMillis = 0, mcs_EgressPolicy = [], mcs_Message = []\<rparr>"

definition bound_to :: "string \<Rightarrow> MachineClaimStatus" where
  "bound_to m = no_status\<lparr>mcs_Phase := ClaimBound, mcs_MachineName := m, mcs_BoundAt := Some 9\<rparr>"

definition pool_env :: "KubeErr option \<Rightarrow> PoolEnv" where
  \<comment> \<open>a server that answers the status patch of a claim as given and does everything else\<close>
  "pool_env e = \<lparr>pv_err = (\<lambda>h c. case c of PClaimStatus _ _ _ \<Rightarrow> e | _ \<Rightarrow> None), pv_policy = (\<lambda>h n. Inl (OtherErr [])),
     pv_snapshot = (\<lambda>h n. Inl (OtherErr [])), pv_now = (\<lambda>h. 9), pv_rand = (\<lambda>h. [0, 0, 0, 0]), pv_json = (\<lambda>t. [])\<rparr>"

definition bind_call :: "string \<Rightarrow> PoolCall" where
  "bind_call m = PBind ''ns'' m [(LabelPoolState, PoolStateClaimed), (LabelMachineClaim, ''c'')] []"

lemma labels_differ [simp]:
  "LabelMachinePool \<noteq> LabelPoolState" "LabelPoolState \<noteq> LabelMachinePool" "LabelMachineClaim \<noteq> LabelPoolState" "LabelPoolState \<noteq> LabelMachineClaim"
  "LabelMachinePool \<noteq> LabelMachineClaim" "LabelMachineClaim \<noteq> LabelMachinePool" "PoolStateClaimed \<noteq> PoolStateWarm" "PoolStateWarm \<noteq> PoolStateClaimed"
  "PoolStateWarm \<noteq> []" "PoolStateClaimed \<noteq> []" "ClaimBound \<noteq> []"
  by (simp_all add: LabelMachinePool_def LabelPoolState_def LabelMachineClaim_def PoolStateWarm_def PoolStateClaimed_def ClaimBound_def)

lemma pool_machine_sel [simp]:
  "m_name (pool_machine n t) = n" "Namespace (pool_machine n t) = ''ns''" "m_created (pool_machine n t) = t" "m_phase (pool_machine n t) = ''Running''"
  "m_labels (pool_machine n t) = [(LabelMachinePool, ''p''), (LabelPoolState, PoolStateWarm)]"
  "meta_DeletionTimestamp (mach_Metadata (pool_machine n t)) = None" "meta_ResourceVersion (mach_Metadata (pool_machine n t)) = []"
  "m_annotations (pool_machine n t) = []"
  by (simp_all add: pool_machine_def Namespace_def meta_ns_def)

lemma claimed_machine_sel [simp]:
  "m_name (claimed_machine n t) = n" "Namespace (claimed_machine n t) = ''ns''"
  "m_labels (claimed_machine n t) = [(LabelMachinePool, ''p''), (LabelPoolState, PoolStateClaimed), (LabelMachineClaim, ''c'')]"
  "meta_DeletionTimestamp (mach_Metadata (claimed_machine n t)) = None"
  by (simp_all add: claimed_machine_def Namespace_def meta_ns_def) (simp_all add: pool_machine_def)

lemma claim_c_sel [simp]:
  "mc_name (claim_c d st) = ''c''" "mc_ns (claim_c d st) = ''ns''" "meta_Finalizers (mc_Metadata (claim_c d st)) = [FinalizerMachineClaim]"
  "meta_DeletionTimestamp (mc_Metadata (claim_c d st)) = d" "meta_CreationTimestamp (mc_Metadata (claim_c d st)) = 0" "meta_Annotations (mc_Metadata (claim_c d st)) = []"
  "mc_PoolName (mc_Spec (claim_c d st)) = ''p''" "mc_Labels (mc_Spec (claim_c d st)) = []" "mc_ReclaimPolicy (mc_Spec (claim_c d st)) = []"
  "mc_Egress (mc_Spec (claim_c d st)) = None" "mc_Status (claim_c d st) = st"
  by (simp_all add: claim_c_def)

lemma no_status_sel [simp]: "mcs_MachineName no_status = []" "mcs_EgressPolicy no_status = []" "mcs_MachineName (bound_to m) = m" "mcs_EgressPolicy (bound_to m) = []"
  by (simp_all add: no_status_def bound_to_def)

lemma pool_env_sel [simp]:
  "pv_err (pool_env e) h (PClaimStatus a b c) = e" "pv_err (pool_env e) h (PBind a b d r) = None" "pv_err (pool_env e) h (PDeleteMachine a b) = None"
  "pv_err (pool_env e) h (PClaimFinalizers a b fs) = None" "pv_now (pool_env e) h = 9"
  by (simp_all add: pool_env_def)

lemma eligible_example [simp]: "EligibleWarm (claim_c d st) (pool_machine n t)"
  by (simp add: EligibleWarm_def mget_def)

lemma bind_example:
  assumes "fst (warmMembers ''ns'' ''p'' machines []) = pool_machine m t # ms"
  shows "run_state (reconcileMachineClaims (pool_env e) [claim_c None no_status] machines) []
    = ([''ns/'' @ m], [bind_call m, PClaimStatus ''ns'' ''c'' (bound_to m)])"
proof -
  have "bound_status (claim_c None no_status) 9 m [] = bound_to m" by (simp add: bound_status_def bound_to_def no_status_def)
  moreover have "bound_to m \<noteq> no_status" by (simp add: bound_to_def no_status_def)
  moreover have "run_state (ensureClaimEgress (pool_env e) (claim_c None no_status) m) h = (([], None), h)" for h
    by (simp add: ensureClaimEgress_def State_Monad.return_def)
  moreover have "run_state (bindMachine (pool_env e) (claim_c None no_status) (pool_machine m t)) h = (None, h @ [bind_call m])" for h
    by (simp add: bindMachine_def attempt_def ask_def bind_call_def)
  moreover have "run_state (add_claim_finalizer (pool_env e) (claim_c None no_status)) h = (None, h)" for h
    by (simp add: add_claim_finalizer_def HasFinalizerList_def State_Monad.return_def)
  moreover have "m_key (pool_machine m t) = ''ns/'' @ m" by (simp add: m_key_def)
  ultimately show ?thesis using assms
    by (cases "warmMembers ''ns'' ''p'' machines []")
      (simp add: reconcileMachineClaims_def reconcileMachineClaim_def State_Monad.bind_def State_Monad.return_def
         pool_clock_def patch_claim_status_def attempt_def ask_def)
qed

lemma release_example:
  assumes "by_name machines (''ns/'' @ m) = Some (claimed_machine m t)" "m \<noteq> []"
  shows "run_state (releaseMachineClaim (pool_env None) (claim_c (Some 7) (bound_to m)) machines) []
    = ((), [PDeleteMachine ''ns'' m, PClaimFinalizers ''ns'' ''c'' []])"
  using assms
  by (simp add: releaseMachineClaim_def delete_egress_def release_machine_def HasFinalizerList_def RemoveFinalizer_def WantsSnapshot_def
      truthy_def ReclaimRetain_def mget_def unless_found_def State_Monad.bind_def State_Monad.return_def attempt_def ask_def
      TrimSpace_def ToLower_def)

theorem claims_bind_once_witness:
  "\<exists>ps. [''ns/a''] = map (\<lambda>(c, m). m_key m) ps \<and> (\<forall>(c, m) \<in> set ps. may_bind [pool_machine ''b'' 2, pool_machine ''a'' 1] c m)"
proof -
  have "fst (warmMembers ''ns'' ''p'' [pool_machine ''b'' 2, pool_machine ''a'' 1] []) = [pool_machine ''a'' 1, pool_machine ''b'' 2]"
    by (simp add: warmMembers_def warm_member_def mget_def)
  note run = bind_example [OF this, of None]
  from claims_bind_once [OF run] obtain ps where "[''ns/'' @ ''a''] = map (\<lambda>(c, m). m_key m) ps"
    "\<forall>(c, m) \<in> set ps. may_bind [pool_machine ''b'' 2, pool_machine ''a'' 1] c m" by (elim conjE exE) (rule that)
  then show ?thesis by (intro exI [of _ ps]) simp
qed

definition pool_p :: MachinePool where
  "pool_p = \<lparr>mp_Metadata = ObjectMeta0\<lparr>meta_Name := ''p'', meta_Namespace := ''ns'', meta_Finalizers := [FinalizerMachinePool], meta_DeletionTimestamp := Some 3\<rparr>,
     mp_Spec = \<lparr>mp_Replicas = 1, mp_Template = \<lparr>mt_Labels = [], mt_Spec = MachineSpec0\<rparr>\<rparr>,
     mp_Status = \<lparr>mps_Replicas = 0, mps_ReadyReplicas = 0, mps_Claimed = 0, mps_Selector = [], mps_Message = []\<rparr>\<rparr>"

lemma pool_p_sel [simp]: "mp_name pool_p = ''p''" "mp_ns pool_p = ''ns''" "meta_Finalizers (mp_Metadata pool_p) = [FinalizerMachinePool]"
  "meta_DeletionTimestamp (mp_Metadata pool_p) = Some 3"
  by (simp_all add: pool_p_def)

theorem pools_spare_claimed_witness:
  "\<exists>calls. run_state (reconcileMachineClaims (pool_env None) [claim_c None no_status] [pool_machine ''b'' 2, pool_machine ''a'' 1]) [] = ([''ns/a''], calls)
     \<and> run_state (reconcileMachinePools (pool_env None) [pool_p] [pool_machine ''b'' 2, pool_machine ''a'' 1] [''ns/a'']) calls = ((), calls @ [PDeleteMachine ''ns'' ''b''])
     \<and> ''ns/b'' \<notin> set (bind_keys (pool_env None) [] calls)"
proof -
  let ?ms = "[pool_machine ''b'' 2, pool_machine ''a'' 1]"
  have "fst (warmMembers ''ns'' ''p'' ?ms []) = [pool_machine ''a'' 1, pool_machine ''b'' 2]"
    by (simp add: warmMembers_def warm_member_def mget_def)
  note claims = bind_example [OF this, of None]
  let ?calls = "[bind_call ''a'', PClaimStatus ''ns'' ''c'' (bound_to ''a'')]"
  have pools: "run_state (reconcileMachinePools (pool_env None) [pool_p] ?ms [''ns/a'']) ?calls = ((), ?calls @ [PDeleteMachine ''ns'' ''b''])"
    by (simp add: reconcileMachinePoolDeletion_def warm_member_def mget_def HasFinalizerList_def unless_found_def State_Monad.bind_def State_Monad.return_def attempt_def ask_def)
  have "''ns'' @ ''/'' @ ''b'' \<notin> set (bind_keys (pool_env None) [] ?calls)"
    using pools_spare_claimed [of "pool_env None" "[claim_c None no_status]" ?ms "[''ns/a'']" ?calls "[pool_p]" "[PDeleteMachine ''ns'' ''b'']" "''ns''" "''b''"] claims pools by simp
  with claims pools show ?thesis by (intro exI [of _ ?calls]) simp
qed


text \<open>
  A very long lifetime is none: the product of \<open>ttlSeconds\<close> and a second wraps at 64 bits, and a claim whose
  lifetime is 293 years or a little more is deleted in the tick after its binding.
\<close>

theorem long_ttl_expires_at_once:
  assumes "by_name machines (mc_ns claim @ ''/'' @ mcs_MachineName (mc_Status claim)) = Some m" "\<not> m_deleted m"
    and "mc_Egress (mc_Spec claim) = None" "mcs_EgressPolicy (mc_Status claim) = []"
    and "mcs_BoundAt (mc_Status claim) = Some t" "pv_now env h = t"
    and "9223372037 \<le> mc_TTLSeconds (mc_Spec claim)" "mc_TTLSeconds (mc_Spec claim) \<le> 18446744073"
  shows "snd (run_state (check_bound env claim machines) h) = h @ [PDeleteClaim (mc_ns claim) (mc_name claim)]"
proof -
  let ?ttl = "mc_TTLSeconds (mc_Spec claim)"
  have "?ttl * 1000000000 + 2 ^ 63 = (?ttl * 1000000000 - 2 ^ 63) + 1 * 2 ^ 64" by simp
  then have "(?ttl * 1000000000 + 2 ^ 63) mod 2 ^ 64 = (?ttl * 1000000000 - 2 ^ 63) mod 2 ^ 64" by (metis mod_mult_self1)
  also have "\<dots> = ?ttl * 1000000000 - 2 ^ 63" using assms(7,8) by (intro mod_pos_pos_trivial) simp_all
  finally have "seconds ?ttl = ?ttl * 1000000000 - 2 ^ 64" by (simp add: seconds_def wrap64_def duration_defs)
  then have neg: "seconds ?ttl \<le> 0" using assms(8) by simp
  have "run_state (ensureClaimEgress env claim n) h = (([], None), h)" for n
    using assms(3,4) by (simp add: ensureClaimEgress_def State_Monad.return_def)
  then show ?thesis using assms neg
    by (simp add: check_bound_def Let_def State_Monad.bind_def State_Monad.return_def pool_clock_def attempt_def ask_def time_Sub_def)
qed

end
