(* ===== verification/Node_Fencing.thy ===== *)
theory Node_Fencing
  imports Disruption Lease Call_Log
begin

text \<open>
  Nodes that fail (\<open>internal/controller/fencing.go\<close>, \<open>internal/controller/staleevac.go\<close>,
  \<open>internal/controller/cordon.go\<close>, \<open>internal/fencing/fencing.go\<close>): the condition that marks the
  Machines of an unreachable node, the fencing of Machines off a node attested dead, and the
  migrations a cordon starts. Log lines, and the memory of which were logged, are left out; the text
  of instants is that of the package \<open>time\<close>, an argument.
\<close>

section \<open>Calls\<close>

definition ConditionNodeUnreachable :: string where "ConditionNodeUnreachable = ''NodeUnreachable''"
definition ConditionFenced :: string where "ConditionFenced = ''Fenced''"
definition AnnotationNodeFenced :: string where "AnnotationNodeFenced = ''kairon.zyvor.dev/node-fenced''"
definition AnnotationEvacuate :: string where "AnnotationEvacuate = ''kairon.zyvor.dev/evacuate''"
definition AnnotationCordonEvacuateAttemptedAt :: string where
  "AnnotationCordonEvacuateAttemptedAt = ''kairon.zyvor.dev/cordon-evacuate-attempted-at''"
definition RuntimeFinalizer :: string where "RuntimeFinalizer = ''kairon.zyvor.dev/runtime-cleanup''"

datatype NodeCall =
    NGetLease string string
  | NListBudgets
  | NClearNode string string "string list option"
    \<comment> \<open>empties the node name, drops the label of the node and, when given, sets the finalizers\<close>
  | NMachineStatus string string MachineStatus
  | NCreateMigration string MachineMigration
  | NAnnotate string string string string

record NodeEnv =
  nv_err :: "NodeCall list \<Rightarrow> NodeCall \<Rightarrow> err option"
  nv_lease :: "NodeCall list \<Rightarrow> string \<Rightarrow> LeaseAnswer"
  nv_budgets :: "NodeCall list \<Rightarrow> MachineDisruptionBudget list ListAnswer"
  nv_now :: "NodeCall list \<Rightarrow> time"
  nv_parse :: "string \<Rightarrow> time option"  \<comment> \<open>\<open>time.Parse(time.RFC3339, _)\<close>\<close>
  nv_format :: "time \<Rightarrow> string"  \<comment> \<open>\<open>Format(time.RFC3339)\<close>\<close>
  nv_compact :: "time \<Rightarrow> string"  \<comment> \<open>\<open>Format("20060102-150405")\<close>\<close>

record NodeConfig =
  nc_LeaseNamespace :: string
  nc_StaleEnabled :: bool
  nc_MaxPerTick :: int
  nc_CordonEnabled :: bool
  nc_CordonStrategy :: string
  nc_MinRetryInterval :: int

type_synonym 'a node_io = "(NodeCall, 'a) io"

definition node_clock :: "NodeEnv \<Rightarrow> time node_io" where
  "node_clock env = State (\<lambda>h. (nv_now env h, h))"

section \<open>Unreachable nodes\<close>

fun nodeReady_conditions :: "NodeCondition list \<Rightarrow> bool" where
  "nodeReady_conditions [] = False"
| "nodeReady_conditions (c # cs) = (if ncond_Type c = ''Ready'' then ncond_Status c = ''True'' else nodeReady_conditions cs)"

definition nodeReady :: "Node \<Rightarrow> bool" where
  "nodeReady n = nodeReady_conditions (nst_Conditions (node_Status n))"

definition get_lease :: "NodeEnv \<Rightarrow> string \<Rightarrow> string \<Rightarrow> LeaseAnswer node_io" where
  "get_lease env ns name = ask (\<lambda>h. nv_lease env h (LeaseName name)) (NGetLease ns (LeaseName name))"

fun lease_freshness :: "NodeEnv \<Rightarrow> string \<Rightarrow> Node list \<Rightarrow> (string \<times> bool) list node_io" where
  \<comment> \<open>the map \<open>leaseFresh\<close>; a failed lookup leaves a node out\<close>
  "lease_freshness env ns [] = State_Monad.return []"
| "lease_freshness env ns (n # nodes) = do {
     a \<leftarrow> get_lease env ns (node_name n);
     now \<leftarrow> node_clock env;
     rest \<leftarrow> lease_freshness env ns nodes;
     State_Monad.return (case a of LeaseFound l \<Rightarrow> (node_name n, IsFresh l 0 now) # rest | _ \<Rightarrow> rest)
   }"

definition unreachable_reason :: "string \<Rightarrow> Node list \<Rightarrow> (string \<times> bool) list \<Rightarrow> string \<Rightarrow> string option" where
  \<comment> \<open>why a node counts as unreachable, if it does; of several entries of a name the last is the one of the map\<close>
  "unreachable_reason leaseNS nodes fresh nodeName =
     (if \<not> list_ex (\<lambda>n. node_name n = nodeName \<and> nodeReady n) nodes then Some ''NodeNotReadyOrMissing''
      else if leaseNS \<noteq> [] \<and> map_of (rev fresh) nodeName = Some False then Some ''AgentLivenessStale''
      else None)"

definition unreachable_message :: "string \<Rightarrow> string \<Rightarrow> string" where
  "unreachable_message reason nodeName =
     (if reason = ''AgentLivenessStale'' then
        ''node '' @ Quote nodeName @ '' is Ready but kairon-node's liveness Lease is stale '' @ [CHR 0xE2, CHR 0x80, CHR 0x94]
        @ '' agent may be wedged; this Machine will NOT be automatically rescheduled '' @ [CHR 0xE2, CHR 0x80, CHR 0x94]
        @ '' use \"kaironctl fence\" only after confirming the agent/node is truly gone''
      else ''node '' @ Quote nodeName @ '' is not Ready or no longer exists in the cluster; this Machine will NOT be automatically rescheduled -- see \"kaironctl fence\" only once you've confirmed out-of-band that the node is truly gone, not just unreachable'')"

definition currently_unreachable :: "Machine \<Rightarrow> bool" where
  "currently_unreachable m = (case FindCondition (st_Conditions (mach_Status m)) ConditionNodeUnreachable of
     None \<Rightarrow> False | Some c \<Rightarrow> cond_Status c = ''True'')"

definition reachability_condition :: "string option \<Rightarrow> string \<Rightarrow> Condition" where
  "reachability_condition reason nodeName = (case reason of
     Some r \<Rightarrow> \<lparr>cond_Type = ConditionNodeUnreachable, cond_Status = ''True'', cond_Reason = r,
       cond_Message = unreachable_message r nodeName, cond_LastTransitionTime = 0\<rparr>
   | None \<Rightarrow> \<lparr>cond_Type = ConditionNodeUnreachable, cond_Status = ''False'', cond_Reason = ''NodeReady'',
       cond_Message = ''node '' @ Quote nodeName @ '' is Ready'', cond_LastTransitionTime = 0\<rparr>)"

fun mark_machines :: "NodeEnv \<Rightarrow> (string \<Rightarrow> string option) \<Rightarrow> Machine list \<Rightarrow> unit node_io" where
  "mark_machines env why [] = State_Monad.return ()"
| "mark_machines env why (m # ms) =
     (if m_deleted m \<or> m_node m = [] then mark_machines env why ms
      else if (why (m_node m) \<noteq> None) = currently_unreachable m then mark_machines env why ms
      else do {
        now \<leftarrow> node_clock env;
        _ \<leftarrow> attempt (nv_err env) (NMachineStatus (Namespace m) (m_name m)
          ((mach_Status m)\<lparr>st_Conditions := SetCondition now (st_Conditions (mach_Status m)) (reachability_condition (why (m_node m)) (m_node m))\<rparr>));
        mark_machines env why ms
      })"

definition detectUnreachableNodes :: "NodeConfig \<Rightarrow> NodeEnv \<Rightarrow> Machine list \<Rightarrow> Node list \<Rightarrow> unit node_io" where
  "detectUnreachableNodes cfg env machines nodes = do {
     fresh \<leftarrow> (if nc_LeaseNamespace cfg \<noteq> [] then lease_freshness env (nc_LeaseNamespace cfg) nodes else State_Monad.return []);
     mark_machines env (unreachable_reason (nc_LeaseNamespace cfg) nodes fresh) machines
   }"

section \<open>Fencing\<close>

definition fenced_status :: "time \<Rightarrow> Machine \<Rightarrow> string \<Rightarrow> string \<Rightarrow> MachineStatus" where
  "fenced_status now m condReason message =
     (mach_Status m)\<lparr>st_Phase := [], st_NodeName := [], st_RuntimeID := [], st_GuestIP := [], st_GuestIPs := [], st_Network := None,
       st_AppliedVCPUs := 0, st_AppliedMemoryMiB := 0,
       st_Conditions := SetCondition now (st_Conditions (mach_Status m)) \<lparr>cond_Type = ConditionFenced, cond_Status = ''True'',
         cond_Reason = condReason, cond_Message = message, cond_LastTransitionTime = 0\<rparr>\<rparr>"

definition Fence :: "NodeEnv \<Rightarrow> Machine \<Rightarrow> string \<Rightarrow> string \<Rightarrow> err option node_io" where
  "Fence env m condReason message = do {
     e \<leftarrow> attempt (nv_err env) (NClearNode (Namespace m) (m_name m)
       (if HasFinalizerList (meta_Finalizers (mach_Metadata m)) RuntimeFinalizer
        then Some (RemoveFinalizer (meta_Finalizers (mach_Metadata m)) RuntimeFinalizer) else None));
     (case e of
        Some e \<Rightarrow> State_Monad.return (Some (''clear spec.nodeName on '' @ Namespace m @ ''/'' @ m_name m @ '': '' @ e))
      | None \<Rightarrow> do {
          now \<leftarrow> node_clock env;
          e \<leftarrow> attempt (nv_err env) (NMachineStatus (Namespace m) (m_name m) (fenced_status now m condReason message));
          State_Monad.return (map_option (\<lambda>e. ''clear runtime status on '' @ Namespace m @ ''/'' @ m_name m @ '': '' @ e) e)
        })
   }"

definition maxPerTick :: "NodeConfig \<Rightarrow> int" where
  "maxPerTick cfg = (if nc_MaxPerTick cfg > 0 then nc_MaxPerTick cfg else 10)"

definition attestation :: "Node \<Rightarrow> string" where
  "attestation n = TrimSpace (mget (meta_Annotations (node_Metadata n)) AnnotationNodeFenced)"

definition node_dead :: "NodeConfig \<Rightarrow> NodeEnv \<Rightarrow> Node \<Rightarrow> bool node_io" where
  \<comment> \<open>the gates of an attested node: its lease, then its readiness\<close>
  "node_dead cfg env n =
     (if nc_LeaseNamespace cfg = [] then State_Monad.return (\<not> nodeReady n)
      else do {
        a \<leftarrow> get_lease env (nc_LeaseNamespace cfg) (node_name n);
        now \<leftarrow> node_clock env;
        State_Monad.return (case a of
          LeaseNotFound \<Rightarrow> \<not> nodeReady n
        | LeaseErr _ \<Rightarrow> False
        | LeaseFound l \<Rightarrow> \<not> IsFresh l 0 now)
      })"

fun fencedNodes :: "NodeConfig \<Rightarrow> NodeEnv \<Rightarrow> Node list \<Rightarrow> smap node_io" where
  "fencedNodes cfg env [] = State_Monad.return []"
| "fencedNodes cfg env (n # nodes) =
     (if attestation n = [] then fencedNodes cfg env nodes
      else do {
        dead \<leftarrow> node_dead cfg env n;
        rest \<leftarrow> fencedNodes cfg env nodes;
        State_Monad.return (if dead then (node_name n, attestation n) # rest else rest)
      })"

definition cordonEvacuateTerminal :: "string \<Rightarrow> bool" where
  "cordonEvacuateTerminal phase = (phase \<in> {''Succeeded'', ''Failed'', ''Blocked'', ''Cancelled''})"

definition evac_inFlight :: "MachineMigration list \<Rightarrow> string \<Rightarrow> bool" where
  "evac_inFlight migrations key =
     list_ex (\<lambda>mig. \<not> cordonEvacuateTerminal (mm_phase mig) \<and> mm_ns mig @ ''/'' @ mig_MachineName (mm_Spec mig) = key) migrations"

fun evacuate_loop ::
  "NodeConfig \<Rightarrow> NodeEnv \<Rightarrow> smap \<Rightarrow> MachineMigration list \<Rightarrow> BudgetState list \<Rightarrow> int \<Rightarrow> Machine list \<Rightarrow> unit node_io" where
  \<comment> \<open>the loop over the Machines: the budgets as spent so far and how many were fenced\<close>
  "evacuate_loop cfg env dead migrations states fenced [] = State_Monad.return ()"
| "evacuate_loop cfg env dead migrations states fenced (m # ms) =
     (case map_of (rev dead) (m_node m) of
        None \<Rightarrow> evacuate_loop cfg env dead migrations states fenced ms
      | Some why \<Rightarrow>
          if m_deleted m \<or> \<not> currently_unreachable m \<or> evac_inFlight migrations (m_key m)
             \<or> \<not> AnnotationTrue (mach_Metadata m) AnnotationEvacuate
          then evacuate_loop cfg env dead migrations states fenced ms
          else if fenced \<ge> maxPerTick cfg then State_Monad.return ()
          else (case AdmitDisruption states m of (blocker, states) \<Rightarrow>
            if blocker \<noteq> [] then evacuate_loop cfg env dead migrations states fenced ms
            else do {
              e \<leftarrow> Fence env m ''StaleEvacuation'' (''stale-evacuation: node '' @ Quote (m_node m) @ '' attested dead: '' @ why);
              evacuate_loop cfg env dead migrations states (if e = None then fenced + 1 else fenced) ms
            }))"

definition load_states :: "NodeEnv \<Rightarrow> Machine list \<Rightarrow> MachineMigration list \<Rightarrow> BudgetState list option node_io" where
  \<comment> \<open>the budgets of a tick, None when it has to stop\<close>
  "load_states env machines migrations = do {
     a \<leftarrow> ask (nv_budgets env) NListBudgets;
     State_Monad.return (case a of
       ListFailed _ \<Rightarrow> None
     | KindNotFound \<Rightarrow> (case LoadBudgetStates [] machines migrations of Inl _ \<Rightarrow> None | Inr s \<Rightarrow> Some s)
     | Listed budgets \<Rightarrow> (case LoadBudgetStates budgets machines migrations of Inl _ \<Rightarrow> None | Inr s \<Rightarrow> Some s))
   }"

definition reconcileStaleEvacuation ::
  "NodeConfig \<Rightarrow> NodeEnv \<Rightarrow> Machine list \<Rightarrow> Node list \<Rightarrow> MachineMigration list \<Rightarrow> unit node_io" where
  "reconcileStaleEvacuation cfg env machines nodes migrations =
     (if \<not> nc_StaleEnabled cfg then State_Monad.return ()
      else do {
        dead \<leftarrow> fencedNodes cfg env nodes;
        (if dead = [] then State_Monad.return ()
         else do {
           s \<leftarrow> load_states env machines migrations;
           (case s of None \<Rightarrow> State_Monad.return () | Some states \<Rightarrow> evacuate_loop cfg env dead migrations states 0 machines)
         })
      })"

section \<open>Cordons\<close>

definition minRetryInterval :: "NodeConfig \<Rightarrow> int" where
  "minRetryInterval cfg = (if nc_MinRetryInterval cfg > 0 then nc_MinRetryInterval cfg else 2 * Minute)"

definition cordonEvacuateMigrationName :: "NodeEnv \<Rightarrow> string \<Rightarrow> string \<Rightarrow> time \<Rightarrow> string" where
  "cordonEvacuateMigrationName env node machine t = ''cordon-evacuate-'' @ node @ ''-'' @ machine @ ''-'' @ nv_compact env t"

definition patchCordonEvacuateAttempt :: "NodeEnv \<Rightarrow> Machine \<Rightarrow> time \<Rightarrow> unit node_io" where
  "patchCordonEvacuateAttempt env m t = do {
     _ \<leftarrow> attempt (nv_err env) (NAnnotate (Namespace m) (m_name m) AnnotationCordonEvacuateAttemptedAt (nv_format env t));
     State_Monad.return ()
   }"

definition attempted_lately :: "NodeConfig \<Rightarrow> NodeEnv \<Rightarrow> time \<Rightarrow> Machine \<Rightarrow> bool" where
  "attempted_lately cfg env now m = (case map_of (m_annotations m) AnnotationCordonEvacuateAttemptedAt of
     None \<Rightarrow> False
   | Some s \<Rightarrow> (case nv_parse env s of None \<Rightarrow> False | Some t \<Rightarrow> time_Sub now t < minRetryInterval cfg))"

definition cordon_migration :: "NodeConfig \<Rightarrow> NodeEnv \<Rightarrow> Machine \<Rightarrow> time \<Rightarrow> MachineMigration" where
  "cordon_migration cfg env m now = MachineMigration0\<lparr>
     mm_Metadata := ObjectMeta0\<lparr>meta_Name := cordonEvacuateMigrationName env (m_node m) (m_name m) now, meta_Namespace := Namespace m\<rparr>,
     mm_Spec := (mm_Spec MachineMigration0)\<lparr>mig_MachineName := m_name m, mig_Strategy := nc_CordonStrategy cfg\<rparr>\<rparr>"

fun cordon_loop ::
  "NodeConfig \<Rightarrow> NodeEnv \<Rightarrow> Node list \<Rightarrow> MachineMigration list \<Rightarrow> time \<Rightarrow> BudgetState list \<Rightarrow> Machine list \<Rightarrow> unit node_io" where
  "cordon_loop cfg env nodes migrations now states [] = State_Monad.return ()"
| "cordon_loop cfg env nodes migrations now states (m # ms) =
     (if m_deleted m \<or> \<not> list_ex (\<lambda>n. node_Unschedulable n \<and> node_name n = m_node m) nodes \<or> evac_inFlight migrations (m_key m)
         \<or> attempted_lately cfg env now m
      then cordon_loop cfg env nodes migrations now states ms
      else (case AdmitDisruption states m of (blocker, states) \<Rightarrow>
        if blocker \<noteq> [] then do {
          _ \<leftarrow> patchCordonEvacuateAttempt env m now;
          cordon_loop cfg env nodes migrations now states ms
        }
        else do {
          e \<leftarrow> attempt (nv_err env) (NCreateMigration (Namespace m) (cordon_migration cfg env m now));
          _ \<leftarrow> (case e of Some _ \<Rightarrow> State_Monad.return () | None \<Rightarrow> patchCordonEvacuateAttempt env m now);
          cordon_loop cfg env nodes migrations now states ms
        }))"

definition reconcileCordonEvacuation ::
  "NodeConfig \<Rightarrow> NodeEnv \<Rightarrow> Machine list \<Rightarrow> Node list \<Rightarrow> MachineMigration list \<Rightarrow> unit node_io" where
  "reconcileCordonEvacuation cfg env machines nodes migrations =
     (if \<not> nc_CordonEnabled cfg \<or> \<not> list_ex node_Unschedulable nodes then State_Monad.return ()
      else do {
        s \<leftarrow> load_states env machines migrations;
        (case s of
           None \<Rightarrow> State_Monad.return ()
         | Some states \<Rightarrow> do {
             now \<leftarrow> node_clock env;
             cordon_loop cfg env nodes migrations now states machines
           })
      })"


section \<open>What an evacuation does\<close>

definition lease_stale :: "NodeConfig \<Rightarrow> NodeEnv \<Rightarrow> string \<Rightarrow> bool" where
  \<comment> \<open>at some point of the tick the Lease of the node was read and stale\<close>
  "lease_stale cfg env name \<longleftrightarrow> nc_LeaseNamespace cfg \<noteq> []
     \<and> (\<exists>h h' l. nv_lease env h (LeaseName name) = LeaseFound l \<and> \<not> IsFresh l 0 (nv_now env h'))"

definition attested_dead :: "NodeConfig \<Rightarrow> NodeEnv \<Rightarrow> Node list \<Rightarrow> string \<Rightarrow> bool" where
  "attested_dead cfg env nodes name \<longleftrightarrow>
     (\<exists>n \<in> set nodes. node_name n = name \<and> attestation n \<noteq> [] \<and> (\<not> nodeReady n \<or> lease_stale cfg env name))"

definition evacuable :: "MachineMigration list \<Rightarrow> Machine \<Rightarrow> bool" where
  "evacuable migrations m \<longleftrightarrow> \<not> m_deleted m \<and> currently_unreachable m \<and> \<not> evac_inFlight migrations (m_key m)
     \<and> AnnotationTrue (mach_Metadata m) AnnotationEvacuate"

fun cleared :: "NodeCall list \<Rightarrow> (string \<times> string) list" where
  \<comment> \<open>the Machines whose node name was emptied, in order\<close>
  "cleared [] = []"
| "cleared (NClearNode ns name fs # cs) = (ns, name) # cleared cs"
| "cleared (_ # cs) = cleared cs"

fun fences :: "NodeEnv \<Rightarrow> NodeCall list \<Rightarrow> NodeCall list \<Rightarrow> int" where
  \<comment> \<open>how many of the calls after \<open>h\<close> complete a fencing\<close>
  "fences env h [] = 0"
| "fences env h (c # cs) = (case c of NMachineStatus _ _ _ \<Rightarrow> if nv_err env h c = None then 1 else 0 | _ \<Rightarrow> 0) + fences env (h @ [c]) cs"

lemma cleared_append [simp]: "cleared (xs @ ys) = cleared xs @ cleared ys"
  by (induction xs rule: cleared.induct) auto

lemma fences_append: "fences env h (xs @ ys) = fences env h xs + fences env (h @ xs) ys"
  by (induction xs arbitrary: h) (auto split: NodeCall.split)

lemma Fence_run:
  "\<exists>e cs. run_state (Fence env m r msg) h = (e, h @ cs) \<and> cleared cs = [(Namespace m, m_name m)]
     \<and> fences env h cs = (if e = None then 1 else 0)"
proof -
  let ?fs = "if HasFinalizerList (meta_Finalizers (mach_Metadata m)) RuntimeFinalizer
        then Some (RemoveFinalizer (meta_Finalizers (mach_Metadata m)) RuntimeFinalizer) else None"
  let ?c = "NClearNode (Namespace m) (m_name m) ?fs"
  show ?thesis
  proof (cases "nv_err env h ?c")
    case None
    let ?st = "NMachineStatus (Namespace m) (m_name m) (fenced_status (nv_now env (h @ [?c])) m r msg)"
    show ?thesis using None
      by (intro exI [of _ "map_option (\<lambda>e. ''clear runtime status on '' @ Namespace m @ ''/'' @ m_name m @ '': '' @ e) (nv_err env (h @ [?c]) ?st)"]
          exI [of _ "[?c, ?st]"])
        (simp add: Fence_def State_Monad.bind_def State_Monad.return_def attempt_def ask_def node_clock_def)
  next
    case (Some e)
    then show ?thesis
      by (intro exI [of _ "Some (''clear spec.nodeName on '' @ Namespace m @ ''/'' @ m_name m @ '': '' @ e)"] exI [of _ "[?c]"])
        (simp add: Fence_def State_Monad.bind_def State_Monad.return_def attempt_def ask_def)
  qed
qed

definition evac_result ::
  "NodeConfig \<Rightarrow> NodeEnv \<Rightarrow> smap \<Rightarrow> MachineMigration list \<Rightarrow> BudgetState list \<Rightarrow> int \<Rightarrow> Machine list \<Rightarrow> NodeCall list \<Rightarrow> NodeCall list \<Rightarrow> bool" where
  "evac_result cfg env dead migrations states fenced ms h cs \<longleftrightarrow>
     (\<exists>as ms' states'. cleared cs = map (\<lambda>m. (Namespace m, m_name m)) as \<and> admit_run AdmitDisruption states ms' = (as, states')
        \<and> (\<forall>m \<in> set as. m \<in> set ms \<and> evacuable migrations m \<and> map_of (rev dead) (m_node m) \<noteq> None)
        \<and> fenced + fences env h cs \<le> max fenced (maxPerTick cfg))"

lemma evac_result_more:
  assumes "evac_result cfg env dead migrations states fenced ms h cs"
  shows "evac_result cfg env dead migrations states fenced (m # ms) h cs"
proof -
  obtain as ms' states' where as: "cleared cs = map (\<lambda>m. (Namespace m, m_name m)) as" "admit_run AdmitDisruption states ms' = (as, states')"
    "\<forall>m \<in> set as. m \<in> set ms \<and> evacuable migrations m \<and> map_of (rev dead) (m_node m) \<noteq> None"
    "fenced + fences env h cs \<le> max fenced (maxPerTick cfg)" using assms unfolding evac_result_def by blast
  have "\<forall>x \<in> set as. x \<in> set (m # ms) \<and> evacuable migrations x \<and> map_of (rev dead) (m_node x) \<noteq> None" using as(3) by simp
  then show ?thesis unfolding evac_result_def using as(1,2,4) by blast
qed

lemma evacuate_loop_run:
  "\<exists>cs. run_state (evacuate_loop cfg env dead migrations states fenced ms) h = ((), h @ cs) \<and> evac_result cfg env dead migrations states fenced ms h cs"
proof (induction ms arbitrary: states fenced h)
  case Nil
  have "evac_result cfg env dead migrations states fenced [] h []"
    unfolding evac_result_def by (intro exI [of _ "[]"] exI [of _ states]) simp
  then show ?case by (simp add: State_Monad.return_def)
next
  case (Cons m ms)
  have skip: ?case if "evacuate_loop cfg env dead migrations states fenced (m # ms) = evacuate_loop cfg env dead migrations states fenced ms"
  proof -
    obtain cs where "run_state (evacuate_loop cfg env dead migrations states fenced ms) h = ((), h @ cs)"
      "evac_result cfg env dead migrations states fenced ms h cs" using Cons by blast
    then show ?thesis unfolding that using evac_result_more by blast
  qed
  show ?case
  proof (cases "evacuable migrations m \<and> map_of (rev dead) (m_node m) \<noteq> None")
    case False
    then show ?thesis by (intro skip) (auto simp: evacuable_def split: option.splits)
  next
    case ok: True
    then obtain why where why: "map_of (rev dead) (m_node m) = Some why" by blast
    obtain b states1 where adm: "AdmitDisruption states m = (b, states1)" by (rule prod.exhaust)
    show ?thesis
    proof (cases "fenced \<ge> maxPerTick cfg")
      case True
      have "evac_result cfg env dead migrations states fenced (m # ms) h []"
        unfolding evac_result_def by (intro exI [of _ "[]"] exI [of _ states]) simp
      moreover have "evacuate_loop cfg env dead migrations states fenced (m # ms) = State_Monad.return ()"
        using ok True why by (simp add: evacuable_def)
      ultimately show ?thesis by (simp add: State_Monad.return_def)
    next
      case room: False
      show ?thesis
      proof (cases "b = []")
        case False
        then have "states1 = states" using adm by (auto simp: AdmitDisruption_def Let_def split: if_splits)
        then show ?thesis using ok why room adm False by (intro skip) (simp add: evacuable_def)
      next
        case True
        let ?msg = "''stale-evacuation: node '' @ Quote (m_node m) @ '' attested dead: '' @ why"
        obtain e cs1 where f: "run_state (Fence env m ''StaleEvacuation'' ?msg) h = (e, h @ cs1)"
          "cleared cs1 = [(Namespace m, m_name m)]" "fences env h cs1 = (if e = None then 1 else 0)"
          using Fence_run by blast
        let ?n = "if e = None then fenced + 1 else fenced"
        obtain cs2 where r: "run_state (evacuate_loop cfg env dead migrations states1 ?n ms) (h @ cs1) = ((), (h @ cs1) @ cs2)"
          and res: "evac_result cfg env dead migrations states1 ?n ms (h @ cs1) cs2" using Cons by blast
        obtain as ms' states' where as: "cleared cs2 = map (\<lambda>m. (Namespace m, m_name m)) as" "admit_run AdmitDisruption states1 ms' = (as, states')"
          "\<forall>m \<in> set as. m \<in> set ms \<and> evacuable migrations m \<and> map_of (rev dead) (m_node m) \<noteq> None"
          "?n + fences env (h @ cs1) cs2 \<le> max ?n (maxPerTick cfg)" using res unfolding evac_result_def by blast
        have "admit_run AdmitDisruption states (m # ms') = (m # as, states')" using adm True as(2) by simp
        moreover have "fenced + fences env h (cs1 @ cs2) \<le> max fenced (maxPerTick cfg)"
          using as(4) f(3) room by (auto simp: fences_append max_def split: if_splits)
        ultimately have "evac_result cfg env dead migrations states fenced (m # ms) h (cs1 @ cs2)"
          unfolding evac_result_def using as(1,3) f(2) ok
          by (intro exI [of _ "m # as"] exI [of _ "m # ms'"] exI [of _ states']) auto
        moreover have "run_state (evacuate_loop cfg env dead migrations states fenced (m # ms)) h = ((), h @ (cs1 @ cs2))"
          using ok why room adm True f(1) r by (simp add: evacuable_def State_Monad.bind_def)
        ultimately show ?thesis by blast
      qed
    qed
  qed
qed

definition quiet_calls :: "NodeCall list \<Rightarrow> bool" where
  "quiet_calls cs \<longleftrightarrow> (\<forall>c \<in> set cs. (\<exists>ns n. c = NGetLease ns n) \<or> c = NListBudgets)"

lemma quiet_calls_none: "quiet_calls cs \<Longrightarrow> cleared cs = [] \<and> fences env h cs = 0"
  by (induction cs arbitrary: h) (auto simp: quiet_calls_def)

lemma node_dead_run:
  "\<exists>d cs. run_state (node_dead cfg env n) h = (d, h @ cs) \<and> quiet_calls cs
     \<and> (d \<longrightarrow> \<not> nodeReady n \<or> lease_stale cfg env (node_name n))"
proof (cases "nc_LeaseNamespace cfg = []")
  case False
  let ?c = "NGetLease (nc_LeaseNamespace cfg) (LeaseName (node_name n))"
  let ?d = "case nv_lease env h (LeaseName (node_name n)) of LeaseNotFound \<Rightarrow> \<not> nodeReady n | LeaseErr _ \<Rightarrow> False
      | LeaseFound l \<Rightarrow> \<not> IsFresh l 0 (nv_now env (h @ [?c]))"
  have "run_state (node_dead cfg env n) h = (?d, h @ [?c])"
    using False by (simp add: node_dead_def get_lease_def State_Monad.bind_def State_Monad.return_def ask_def node_clock_def)
  moreover have "?d \<longrightarrow> \<not> nodeReady n \<or> lease_stale cfg env (node_name n)"
    using False by (auto simp: lease_stale_def split: LeaseAnswer.split)
  moreover have "quiet_calls [?c]" by (simp add: quiet_calls_def)
  ultimately show ?thesis by blast
qed (simp add: node_dead_def State_Monad.return_def quiet_calls_def)

lemma fencedNodes_run:
  "\<exists>dead cs. run_state (fencedNodes cfg env nodes) h = (dead, h @ cs) \<and> quiet_calls cs
     \<and> (\<forall>name \<in> fst ` set dead. attested_dead cfg env nodes name)"
proof (induction nodes arbitrary: h)
  case Nil
  then show ?case by (simp add: State_Monad.return_def quiet_calls_def)
next
  case (Cons n nodes)
  have more: "attested_dead cfg env nodes name \<Longrightarrow> attested_dead cfg env (n # nodes) name" for name
    by (auto simp: attested_dead_def)
  show ?case
  proof (cases "attestation n = []")
    case True
    obtain dead cs where "run_state (fencedNodes cfg env nodes) h = (dead, h @ cs)" "quiet_calls cs"
      "\<forall>name \<in> fst ` set dead. attested_dead cfg env nodes name" using Cons by blast
    then show ?thesis using True more by auto
  next
    case False
    obtain d cs1 where d: "run_state (node_dead cfg env n) h = (d, h @ cs1)" "quiet_calls cs1"
      "d \<longrightarrow> \<not> nodeReady n \<or> lease_stale cfg env (node_name n)" using node_dead_run by blast
    obtain dead cs2 where r: "run_state (fencedNodes cfg env nodes) (h @ cs1) = (dead, (h @ cs1) @ cs2)" "quiet_calls cs2"
      "\<forall>name \<in> fst ` set dead. attested_dead cfg env nodes name" using Cons by blast
    have "d \<Longrightarrow> attested_dead cfg env (n # nodes) (node_name n)" using d(3) False by (auto simp: attested_dead_def)
    then have "\<forall>name \<in> fst ` set (if d then (node_name n, attestation n) # dead else dead). attested_dead cfg env (n # nodes) name"
      using r(3) more by auto
    moreover have "run_state (fencedNodes cfg env (n # nodes)) h = ((if d then (node_name n, attestation n) # dead else dead), h @ (cs1 @ cs2))"
      using False d(1) r(1) by (simp add: State_Monad.bind_def State_Monad.return_def)
    moreover have "quiet_calls (cs1 @ cs2)" using d(2) r(2) by (auto simp: quiet_calls_def)
    ultimately show ?thesis by blast
  qed
qed

section \<open>Properties\<close>

definition budgets_respected :: "NodeEnv \<Rightarrow> Machine list \<Rightarrow> MachineMigration list \<Rightarrow> Machine list \<Rightarrow> bool" where
  \<comment> \<open>taking \<open>as\<close> away leaves each budget the healthy Machines it asks for, when the budgets are what the server lists\<close>
  "budgets_respected env machines migrations as \<longleftrightarrow>
     (\<forall>budgets b. (\<forall>h. nv_budgets env h = Listed budgets) \<longrightarrow> b \<in> set budgets \<longrightarrow> filter (budget_matches b) as \<noteq> [] \<longrightarrow>
        (\<exists>desired. DesiredHealthy b (int (length (filter (budget_matches b) machines))) = Ok desired
          \<and> desired \<le> int (length (filter (is_healthy migrations) (filter (budget_matches b) machines))) - int (length (filter (budget_matches b) as))))"

lemma load_states_run:
  "\<exists>s. run_state (load_states env machines migrations) h = (s, h @ [NListBudgets])
     \<and> (\<forall>states ms as states'. s = Some states \<longrightarrow> admit_run AdmitDisruption states ms = (as, states') \<longrightarrow> budgets_respected env machines migrations as)"
proof -
  define s where "s = (case nv_budgets env h of ListFailed _ \<Rightarrow> None
     | KindNotFound \<Rightarrow> (case LoadBudgetStates [] machines migrations of Inl _ \<Rightarrow> None | Inr s \<Rightarrow> Some s)
     | Listed budgets \<Rightarrow> (case LoadBudgetStates budgets machines migrations of Inl _ \<Rightarrow> None | Inr s \<Rightarrow> Some s))"
  have load: "run_state (load_states env machines migrations) h = (s, h @ [NListBudgets])"
    by (simp add: load_states_def s_def State_Monad.bind_def State_Monad.return_def ask_def)
  have "budgets_respected env machines migrations as" if s: "s = Some states" and run: "admit_run AdmitDisruption states ms = (as, states')" for states ms as states'
    unfolding budgets_respected_def
  proof (intro allI impI)
    fix budgets b
    assume b: "\<forall>h. nv_budgets env h = Listed budgets" "b \<in> set budgets" "filter (budget_matches b) as \<noteq> []"
    have "LoadBudgetStates budgets machines migrations = Ok states" using s b(1) by (simp add: s_def split: sum.splits)
    from disruption_budget_kept [OF this run b(2)] b(3)
    show "\<exists>desired. DesiredHealthy b (int (length (filter (budget_matches b) machines))) = Ok desired
          \<and> desired \<le> int (length (filter (is_healthy migrations) (filter (budget_matches b) machines))) - int (length (filter (budget_matches b) as))"
      by blast
  qed
  with load show ?thesis by blast
qed

lemma dead_attested:
  assumes "\<forall>name \<in> fst ` set dead. attested_dead cfg env nodes name" "map_of (rev dead) name \<noteq> None"
  shows "attested_dead cfg env nodes name"
proof -
  obtain why where "map_of (rev dead) name = Some why" using assms(2) by blast
  then have "(name, why) \<in> set dead" by (auto dest: map_of_SomeD)
  then have "name \<in> fst ` set dead" by force
  then show ?thesis using assms(1) by blast
qed

text \<open>
  C12. A Machine is taken off its node automatically only behind every gate. Whatever calls fail, each
  Machine whose node name the controller empties is on a node of the listing that carries an
  attestation and is not Ready or has a stale Lease; it is marked unreachable, has no migration in
  flight, opted in and is not being deleted; together they leave every disruption budget its healthy
  Machines; and no more are completely fenced in a tick than the limit.
\<close>

theorem stale_evacuation_gated:
  assumes "run_state (reconcileStaleEvacuation cfg env machines nodes migrations) [] = ((), calls)"
  shows "\<exists>as. cleared calls = map (\<lambda>m. (Namespace m, m_name m)) as
    \<and> (\<forall>m \<in> set as. nc_StaleEnabled cfg \<and> m \<in> set machines \<and> evacuable migrations m \<and> attested_dead cfg env nodes (m_node m))
    \<and> budgets_respected env machines migrations as \<and> fences env [] calls \<le> maxPerTick cfg"
proof -
  have cap: "0 \<le> maxPerTick cfg" by (simp add: maxPerTick_def)
  have none: ?thesis if "quiet_calls calls" using quiet_calls_none [OF that] cap
    by (intro exI [of _ "[]"]) (simp add: budgets_respected_def)
  show ?thesis
  proof (cases "nc_StaleEnabled cfg")
    case False
    then have "calls = []" using assms by (simp add: reconcileStaleEvacuation_def State_Monad.return_def)
    then show ?thesis by (intro none) (simp add: quiet_calls_def)
  next
    case on: True
    obtain dead cs1 where d: "run_state (fencedNodes cfg env nodes) [] = (dead, cs1)" "quiet_calls cs1"
      "\<forall>name \<in> fst ` set dead. attested_dead cfg env nodes name" using fencedNodes_run [of cfg env nodes "[]"] by auto
    let ?h = "cs1 @ [NListBudgets]"
    obtain s where load: "run_state (load_states env machines migrations) cs1 = (s, ?h)"
      and kept: "\<And>states ms as states'. s = Some states \<Longrightarrow> admit_run AdmitDisruption states ms = (as, states') \<Longrightarrow> budgets_respected env machines migrations as"
      using load_states_run by blast
    have quiet2: "quiet_calls ?h" using d(2) by (auto simp: quiet_calls_def)
    show ?thesis
    proof (cases "dead = [] \<or> s = None")
      case True
      then have "calls = cs1 \<or> calls = ?h"
        using assms on d(1) load by (auto simp: reconcileStaleEvacuation_def State_Monad.bind_def State_Monad.return_def split: if_splits)
      then show ?thesis using none d(2) quiet2 by metis
    next
      case False
      then obtain states where states: "s = Some states" by blast
      obtain cs2 where ev: "run_state (evacuate_loop cfg env dead migrations states 0 machines) ?h = ((), ?h @ cs2)"
        and res: "evac_result cfg env dead migrations states 0 machines ?h cs2" using evacuate_loop_run by blast
      have calls: "calls = ?h @ cs2"
        using assms on d(1) load False states ev by (simp add: reconcileStaleEvacuation_def State_Monad.bind_def)
      obtain as ms' states' where as: "cleared cs2 = map (\<lambda>m. (Namespace m, m_name m)) as" "admit_run AdmitDisruption states ms' = (as, states')"
        "\<forall>m \<in> set as. m \<in> set machines \<and> evacuable migrations m \<and> map_of (rev dead) (m_node m) \<noteq> None"
        "fences env ?h cs2 \<le> maxPerTick cfg" using res cap unfolding evac_result_def by auto
      have "cleared calls = map (\<lambda>m. (Namespace m, m_name m)) as" "fences env [] calls \<le> maxPerTick cfg"
        using as(1,4) quiet_calls_none [OF quiet2] unfolding calls by (simp_all add: fences_append del: append_assoc)
      moreover have "\<forall>m \<in> set as. nc_StaleEnabled cfg \<and> m \<in> set machines \<and> evacuable migrations m \<and> attested_dead cfg env nodes (m_node m)"
        using as(3) dead_attested [OF d(3)] on by simp
      ultimately show ?thesis using kept [OF states as(2)] by (intro exI [of _ as]) simp
    qed
  qed
qed

definition lost_machine :: "string \<Rightarrow> Machine" where
  \<comment> \<open>a Machine of node-1, marked unreachable and opted in\<close>
  "lost_machine name = Machine0\<lparr>
     mach_Metadata := ObjectMeta0\<lparr>meta_Name := name, meta_Annotations := [(AnnotationEvacuate, ''true'')]\<rparr>,
     mach_Spec := MachineSpec0\<lparr>spec_NodeName := ''node-1''\<rparr>,
     mach_Status := MachineStatus0\<lparr>st_Phase := ''Running'',
       st_Conditions := [\<lparr>cond_Type = ConditionNodeUnreachable, cond_Status = ''True'', cond_Reason = [], cond_Message = [], cond_LastTransitionTime = 0\<rparr>]\<rparr>\<rparr>"

definition dead_node :: Node where
  "dead_node = Node0\<lparr>node_Metadata := ObjectMeta0\<lparr>meta_Name := ''node-1'', meta_Annotations := [(AnnotationNodeFenced, ''burnt'')]\<rparr>\<rparr>"

definition evac_env :: "err option \<Rightarrow> NodeEnv" where
  \<comment> \<open>a server with no budgets whose answer to a status patch is given\<close>
  "evac_env e = \<lparr>nv_err = (\<lambda>h c. case c of NMachineStatus _ _ _ \<Rightarrow> e | _ \<Rightarrow> None), nv_lease = (\<lambda>h n. LeaseNotFound),
     nv_budgets = (\<lambda>h. Listed []), nv_now = (\<lambda>h. 5), nv_parse = (\<lambda>s. None), nv_format = (\<lambda>t. []), nv_compact = (\<lambda>t. [])\<rparr>"

definition evac_config :: NodeConfig where
  "evac_config = \<lparr>nc_LeaseNamespace = [], nc_StaleEnabled = True, nc_MaxPerTick = 1, nc_CordonEnabled = False, nc_CordonStrategy = [], nc_MinRetryInterval = 0\<rparr>"

lemma lost_machine_sel [simp]:
  "m_name (lost_machine name) = name" "Namespace (lost_machine name) = ''default''" "m_node (lost_machine name) = ''node-1''"
  "meta_DeletionTimestamp (mach_Metadata (lost_machine name)) = None" "currently_unreachable (lost_machine name)"
  "AnnotationTrue (mach_Metadata (lost_machine name)) AnnotationEvacuate"
  by (simp_all add: lost_machine_def Namespace_def meta_ns_def DefaultNamespace_def ObjectMeta0_def MachineSpec0_def currently_unreachable_def
      AnnotationTrue_def mget_def)

lemma evac_env_sel [simp]:
  "nv_err (evac_env e) h (NMachineStatus a b c) = e" "nv_err (evac_env e) h (NClearNode a b d) = None" "nv_budgets (evac_env e) h = Listed []"
  by (simp_all add: evac_env_def)

lemma evac_config_sel [simp]:
  "nc_LeaseNamespace evac_config = []" "nc_StaleEnabled evac_config" "maxPerTick evac_config = 1"
  by (simp_all add: evac_config_def maxPerTick_def)

lemma dead_node_gates [simp]: "attestation dead_node = ''burnt''" "\<not> nodeReady dead_node" "node_name dead_node = ''node-1''"
  by (simp_all add: dead_node_def attestation_def nodeReady_def Node0_def ObjectMeta0_def mget_def TrimSpace_def is_space_def)

lemma fencedNodes_example: "run_state (fencedNodes evac_config (evac_env e) [dead_node]) h = ([(''node-1'', ''burnt'')], h)"
  by (simp add: node_dead_def State_Monad.bind_def State_Monad.return_def)

lemma load_states_example: "run_state (load_states (evac_env e) ms []) h = (Some [], h @ [NListBudgets])"
  by (simp add: load_states_def State_Monad.bind_def State_Monad.return_def ask_def)

theorem stale_evacuation_gated_witness:
  "\<exists>calls as. cleared calls = map (\<lambda>m. (Namespace m, m_name m)) as \<and> cleared calls = [(''default'', ''a'')]
    \<and> (\<forall>m \<in> set as. attested_dead evac_config (evac_env None) [dead_node] (m_node m)) \<and> fences (evac_env None) [] calls = 1"
proof -
  define m where "m = lost_machine ''a''"
  let ?run = "run_state (reconcileStaleEvacuation evac_config (evac_env None) [m, lost_machine ''b''] [dead_node] []) []"
  have admit: "AdmitDisruption [] m = ([], [])" by (simp add: AdmitDisruption_def)
  obtain e cs where f: "run_state (Fence (evac_env None) m ''StaleEvacuation'' (''stale-evacuation: node '' @ Quote ''node-1'' @ '' attested dead: '' @ ''burnt'')) [NListBudgets] = (e, [NListBudgets] @ cs)"
    "cleared cs = [(Namespace m, m_name m)]" "fences (evac_env None) [NListBudgets] cs = (if e = None then 1 else 0)" using Fence_run by blast
  have "e = None" using f(1) by (auto simp: Fence_def State_Monad.bind_def State_Monad.return_def attempt_def ask_def node_clock_def)
  have "?run = ((), NListBudgets # cs)"
    using f(1) admit \<open>e = None\<close>
    by (simp add: reconcileStaleEvacuation_def State_Monad.bind_def State_Monad.return_def fencedNodes_example load_states_example evac_inFlight_def m_def del: fencedNodes.simps)
  from stale_evacuation_gated [OF this]
  obtain as where "cleared (NListBudgets # cs) = map (\<lambda>m. (Namespace m, m_name m)) as"
    "\<forall>m \<in> set as. attested_dead evac_config (evac_env None) [dead_node] (m_node m)" by blast
  moreover have "cleared (NListBudgets # cs) = [(''default'', ''a'')]" using f(2) by (simp add: m_def)
  moreover have "fences (evac_env None) [] (NListBudgets # cs) = 1" using f(3) \<open>e = None\<close> by simp
  ultimately show ?thesis by blast
qed

lemma evacuate_loop_overrun:
  assumes "\<And>h ns name st. nv_err env h (NMachineStatus ns name st) \<noteq> None" "fenced < maxPerTick cfg"
  shows "\<exists>cs. run_state (evacuate_loop cfg env dead migrations [] fenced ms) h = ((), h @ cs)
    \<and> cleared cs = map (\<lambda>m. (Namespace m, m_name m)) (filter (\<lambda>m. evacuable migrations m \<and> map_of (rev dead) (m_node m) \<noteq> None) ms)"
proof (induction ms arbitrary: h)
  case Nil
  then show ?case by (simp add: State_Monad.return_def)
next
  case (Cons m ms)
  show ?case
  proof (cases "evacuable migrations m \<and> map_of (rev dead) (m_node m) \<noteq> None")
    case False
    have skip: "evacuate_loop cfg env dead migrations [] fenced (m # ms) = evacuate_loop cfg env dead migrations [] fenced ms"
      using False by (auto simp: evacuable_def split: option.splits)
    show ?thesis unfolding skip using False Cons [of h] by auto
  next
    case ok: True
    then obtain why where why: "map_of (rev dead) (m_node m) = Some why" by blast
    let ?msg = "''stale-evacuation: node '' @ Quote (m_node m) @ '' attested dead: '' @ why"
    obtain e cs1 where f: "run_state (Fence env m ''StaleEvacuation'' ?msg) h = (e, h @ cs1)" "cleared cs1 = [(Namespace m, m_name m)]"
      using Fence_run by blast
    have "e \<noteq> None" using f(1) assms(1) by (auto simp: Fence_def State_Monad.bind_def State_Monad.return_def attempt_def ask_def node_clock_def split: option.splits)
    then obtain x where x: "e = Some x" by blast
    obtain cs2 where r: "run_state (evacuate_loop cfg env dead migrations [] fenced ms) (h @ cs1) = ((), (h @ cs1) @ cs2)"
      "cleared cs2 = map (\<lambda>m. (Namespace m, m_name m)) (filter (\<lambda>m. evacuable migrations m \<and> map_of (rev dead) (m_node m) \<noteq> None) ms)"
      using Cons by blast
    have "run_state (evacuate_loop cfg env dead migrations [] fenced (m # ms)) h = ((), h @ (cs1 @ cs2))"
      using ok why assms(2) f(1) r(1) x by (simp add: evacuable_def State_Monad.bind_def AdmitDisruption_def)
    then show ?thesis using f(2) r(2) ok by (intro exI [of _ "cs1 @ cs2"]) simp
  qed
qed

text \<open>
  The limit of a tick counts only the fencings that complete. When the status patch of a fencing
  fails after the Machine was taken off its node, the Machine is not counted: with no budgets and a
  server that refuses every status patch, one tick takes every Machine that passes the gates off its
  node, whatever \<open>MaxPerTick\<close> is.
\<close>

theorem evacuation_limit_overrun:
  assumes "nc_StaleEnabled cfg" "\<And>h. nv_budgets env h = Listed []"
    and "\<And>h ns name st. nv_err env h (NMachineStatus ns name st) \<noteq> None"
    and "run_state (fencedNodes cfg env nodes) [] = (dead, h)"
  shows "\<exists>calls. run_state (reconcileStaleEvacuation cfg env machines nodes migrations) [] = ((), calls)
    \<and> cleared calls = map (\<lambda>m. (Namespace m, m_name m)) (filter (\<lambda>m. evacuable migrations m \<and> map_of (rev dead) (m_node m) \<noteq> None) machines)"
proof (cases "dead = []")
  case False
  have "0 < maxPerTick cfg" by (simp add: maxPerTick_def)
  from evacuate_loop_overrun [OF assms(3) this]
  obtain cs where run: "run_state (evacuate_loop cfg env dead migrations [] 0 machines) (h @ [NListBudgets]) = ((), (h @ [NListBudgets]) @ cs)"
    "cleared cs = map (\<lambda>m. (Namespace m, m_name m)) (filter (\<lambda>m. evacuable migrations m \<and> map_of (rev dead) (m_node m) \<noteq> None) machines)" by blast
  have "quiet_calls h" using fencedNodes_run [of cfg env nodes "[]"] assms(4) by auto
  then have "cleared h = []" by (simp add: quiet_calls_none)
  have "run_state (load_states env machines migrations) h = (Some [], h @ [NListBudgets])"
    using assms(2) by (simp add: load_states_def State_Monad.bind_def State_Monad.return_def ask_def)
  then have "run_state (reconcileStaleEvacuation cfg env machines nodes migrations) [] = ((), (h @ [NListBudgets]) @ cs)"
    using assms(1,4) False run(1) by (simp add: reconcileStaleEvacuation_def State_Monad.bind_def)
  then show ?thesis using run(2) \<open>cleared h = []\<close> by (intro exI [of _ "(h @ [NListBudgets]) @ cs"]) simp
next
  case True
  have "quiet_calls h" using fencedNodes_run [of cfg env nodes "[]"] assms(4) by auto
  then show ?thesis using True assms(1,4) by (simp add: reconcileStaleEvacuation_def State_Monad.bind_def State_Monad.return_def quiet_calls_none)
qed

theorem evacuation_limit_overrun_witness:
  "maxPerTick evac_config = 1 \<and> (\<exists>calls. run_state (reconcileStaleEvacuation evac_config (evac_env (Some ''refused'')) [lost_machine ''a'', lost_machine ''b''] [dead_node] []) [] = ((), calls)
     \<and> cleared calls = [(''default'', ''a''), (''default'', ''b'')])"
  using evacuation_limit_overrun [of evac_config "evac_env (Some ''refused'')" "[dead_node]" "[(''node-1'', ''burnt'')]" "[]" "[lost_machine ''a'', lost_machine ''b'']" "[]"]
  by (simp add: fencedNodes_example evacuable_def evac_inFlight_def del: fencedNodes.simps)

end
