(* ===== verification/Machine_Snapshot.thy ===== *)
theory Machine_Snapshot
  imports Snapshot_Schedule Go_Hash Kube_Error
begin

text \<open>
  Snapshots of Machines: the controller (\<open>internal/controller/snapshot.go\<close>, \<open>atlas_snapshot.go\<close>), the
  node's half of the guest freeze (\<open>internal/agent/quiesce.go\<close>) and the references both read
  (\<open>internal/model/quiesce.go\<close>). CSI and the Atlas storage service answer through the environment; so
  do the text of instants and the JSON of an annotation.
\<close>

section \<open>Names and references\<close>

definition FinalizerSnapshotQuiesce :: string where "FinalizerSnapshotQuiesce = ''kairon.zyvor.dev/snapshot-quiesce''"
definition FinalizerAtlasSnapshots :: string where "FinalizerAtlasSnapshots = ''kairon.zyvor.dev/atlas-snapshots''"
definition AnnotationQuiesceRequest :: string where "AnnotationQuiesceRequest = ''kairon.zyvor.dev/quiesce-request''"
definition AnnotationQuiesceStatus :: string where "AnnotationQuiesceStatus = ''kairon.zyvor.dev/quiesce-status''"
definition quiesceFreezeTimeout :: int where "quiesceFreezeTimeout = 30 * Second"

record VolumeSnapshotStatus =
  vss_ReadyToUse :: "bool option"
  vss_Error :: "string option option"  \<comment> \<open>the error, and its message\<close>
  vss_RestoreSize :: "string option"

definition dns_char :: "char \<Rightarrow> bool" where
  "dns_char c = (let n = (of_char c :: nat) in (97 \<le> n \<and> n \<le> 122) \<or> (48 \<le> n \<and> n \<le> 57) \<or> c = CHR ''-'')"

fun dns_clean :: "bool \<Rightarrow> string \<Rightarrow> string" where
  \<comment> \<open>\<open>nonDNS.ReplaceAllString(_, "-")\<close>: a run of other bytes becomes one dash; the flag is set within a run\<close>
  "dns_clean run [] = []"
| "dns_clean run (c # s) = (if dns_char c then c # dns_clean False s else if run then dns_clean True s else CHR ''-'' # dns_clean True s)"

definition trim_dashes :: "string \<Rightarrow> string" where  \<comment> \<open>\<open>strings.TrimRight(_, "-")\<close>\<close>
  "trim_dashes s = rev (dropWhile (\<lambda>c. c = CHR ''-'') (rev s))"

definition snapshotVolumeName :: "string \<Rightarrow> string \<Rightarrow> string" where
  "snapshotVolumeName snapshot volume =
     (let name = trim_dashes (dropWhile (\<lambda>c. c = CHR ''-'') (dns_clean False (ToLower (snapshot @ ''-'' @ volume))));
          name = (if length name > 63 then trim_dashes (take 63 name) else name) in
      if name = [] then ''kairon-snapshot'' else name)"

definition AtlasVolumeName :: "string \<Rightarrow> string \<Rightarrow> string \<Rightarrow> string" where
  "AtlasVolumeName ns machine volume =
     (let readable = trim_dashes (dropWhile (\<lambda>c. c = CHR ''-'') (dns_clean False (ToLower (machine @ ''-'' @ volume))));
          readable = (if length readable > 52 then trim_dashes (take 52 readable) else readable) in
      readable @ ''-'' @ take 10 (hex (Sum256 (ns @ ''/'' @ machine @ ''/'' @ volume))))"

abbreviation snap_ns :: "MachineSnapshot \<Rightarrow> string" where "snap_ns s \<equiv> meta_ns (snap_Metadata s)"
abbreviation snap_phase :: "MachineSnapshot \<Rightarrow> string" where "snap_phase s \<equiv> snap_Phase (snap_Status s)"
abbreviation snap_finalizers :: "MachineSnapshot \<Rightarrow> string list" where "snap_finalizers s \<equiv> meta_Finalizers (snap_Metadata s)"

section \<open>Calls\<close>

datatype SnapCall =
    SFinalizers string string "string list"
  | SStatus string string MachineSnapshotStatus
  | SRequest string string string  \<comment> \<open>sets the annotation that asks for a freeze\<close>
  | SClearRequest string string
  | SGetVolume string string
  | SCreateVolume string string smap string "string option"
  | SAtlasSnapshot string string
  | SAtlasJob string
  | SAtlasDelete string

datatype AtlasErr = AtlasNotFound err | AtlasConflict err | AtlasOther err

fun atlas_text :: "AtlasErr \<Rightarrow> err" where
  "atlas_text (AtlasNotFound e) = e"
| "atlas_text (AtlasConflict e) = e"
| "atlas_text (AtlasOther e) = e"

datatype AtlasJobState = JobSucceeded | JobFailed | JobRunning

record AtlasJob =
  aj_ID :: string
  aj_State :: AtlasJobState
  aj_Error :: "string option"
  aj_SnapshotID :: string  \<comment> \<open>of the resource in its result; empty when there is none\<close>
  aj_Terminal :: bool

record AtlasEnv =
  av_snapshot :: "SnapCall list \<Rightarrow> string \<Rightarrow> AtlasErr + AtlasJob"
  av_job :: "SnapCall list \<Rightarrow> string \<Rightarrow> AtlasErr + AtlasJob"
  av_delete :: "SnapCall list \<Rightarrow> string \<Rightarrow> AtlasErr option"
  av_state :: "Machine \<Rightarrow> string \<Rightarrow> string \<times> string"
    \<comment> \<open>phase and volume id of \<open>AtlasVolumeStates(machine)[volume]\<close>, decoded from the JSON of an annotation\<close>

record SnapEnv =
  sv_err :: "SnapCall list \<Rightarrow> SnapCall \<Rightarrow> KubeErr option"
  sv_volume :: "SnapCall list \<Rightarrow> string \<Rightarrow> KubeErr + VolumeSnapshotStatus"
  sv_created :: "SnapCall list \<Rightarrow> string \<Rightarrow> KubeErr + VolumeSnapshotStatus"
  sv_atlas :: "AtlasEnv option"  \<comment> \<open>None when Atlas is not configured\<close>
  sv_now :: "SnapCall list \<Rightarrow> time"
  sv_parse :: "string \<Rightarrow> time option"  \<comment> \<open>\<open>time.Parse(time.RFC3339, _)\<close>\<close>
  sv_format :: "time \<Rightarrow> string"  \<comment> \<open>\<open>UTC().Format(time.RFC3339)\<close>\<close>

type_synonym 'a snap_io = "(SnapCall, 'a) io"

definition snap_clock :: "SnapEnv \<Rightarrow> time snap_io" where
  "snap_clock env = State (\<lambda>h. (sv_now env h, h))"

definition snap_try :: "SnapEnv \<Rightarrow> SnapCall \<Rightarrow> err option snap_io" where
  \<comment> \<open>a call whose error the caller passes on as text\<close>
  "snap_try env c = do { e \<leftarrow> attempt (sv_err env) c; State_Monad.return (map_option err_text e) }"

definition FormatQuiesceRef :: "(time \<Rightarrow> string) \<Rightarrow> string \<Rightarrow> time \<Rightarrow> string" where
  "FormatQuiesceRef format name t = name @ ''@'' @ format t"

definition ParseQuiesceRef :: "(string \<Rightarrow> time option) \<Rightarrow> string \<Rightarrow> (string \<times> time) option" where
  "ParseQuiesceRef parse v = (case Cut v (CHR ''@'') of
     None \<Rightarrow> None
   | Some (name, ts) \<Rightarrow> (case parse ts of None \<Rightarrow> None | Some t \<Rightarrow> Some (name, t)))"

abbreviation quiesce_request :: "(string \<Rightarrow> time option) \<Rightarrow> Machine \<Rightarrow> (string \<times> time) option" where
  "quiesce_request parse m \<equiv> ParseQuiesceRef parse (mget (m_annotations m) AnnotationQuiesceRequest)"
abbreviation quiesce_status :: "(string \<Rightarrow> time option) \<Rightarrow> Machine \<Rightarrow> (string \<times> time) option" where
  "quiesce_status parse m \<equiv> ParseQuiesceRef parse (mget (m_annotations m) AnnotationQuiesceStatus)"

section \<open>Volumes\<close>

fun pick_volumes :: "Machine \<Rightarrow> MachineVolume list \<Rightarrow> string list \<Rightarrow> MachineVolume list res" where
  "pick_volumes m vols [] = Ok []"
| "pick_volumes m vols (name # names) = (case find (\<lambda>v. vol_Name v = name) vols of
     None \<Rightarrow> Err (''spec.volumeNames: machine '' @ m_name m @ '' has no volume '' @ Quote name)
   | Some v \<Rightarrow> (case pick_volumes m vols names of Inl e \<Rightarrow> Err e | Inr vs \<Rightarrow> Ok (v # vs)))"

definition snapshotVolumes :: "MachineSnapshot \<Rightarrow> Machine \<Rightarrow> MachineVolume list res" where
  "snapshotVolumes snapshot m =
     (let vols = spec_Volumes (mach_Spec m); names = snap_VolumeNames (snap_Spec snapshot) in
      if names = [] then Ok vols else pick_volumes m vols names)"

definition atlas_used :: "SnapEnv \<Rightarrow> MachineVolume \<Rightarrow> AtlasEnv option" where
  "atlas_used env v = (if vol_Atlas v = None then None else sv_atlas env)"

definition ensureAtlasSnapshotFinalizer :: "SnapEnv \<Rightarrow> MachineSnapshot \<Rightarrow> MachineVolume list \<Rightarrow> err option snap_io" where
  "ensureAtlasSnapshotFinalizer env snapshot vols =
     (if \<not> list_ex (\<lambda>v. atlas_used env v \<noteq> None) vols \<or> HasFinalizerList (snap_finalizers snapshot) FinalizerAtlasSnapshots
      then State_Monad.return None
      else do {
        e \<leftarrow> snap_try env (SFinalizers (snap_ns snapshot) (snap_name snapshot) (snap_finalizers snapshot @ [FinalizerAtlasSnapshots]));
        State_Monad.return (map_option (\<lambda>e. ''add atlas finalizer to snapshot '' @ snap_ns snapshot @ ''/'' @ snap_name snapshot @ '': '' @ e) e)
      })"

definition atlas_ref :: "MachineSnapshot \<Rightarrow> string \<Rightarrow> VolumeSnapshotReference" where
  \<comment> \<open>what is known of the Atlas snapshot of a volume: the last reference to it with a job\<close>
  "atlas_ref snapshot volume = foldl (\<lambda>ref prev. if vsr_VolumeName prev = volume \<and> vsr_AtlasJobID prev \<noteq> [] then prev else ref)
     \<lparr>vsr_VolumeName = volume, vsr_VolumeSnapshotName = AtlasVolumeName (snap_ns snapshot) (''snap-'' @ snap_name snapshot) volume,
       vsr_ReadyToUse = False, vsr_AtlasSnapshotID = [], vsr_AtlasJobID = []\<rparr> (snap_VolumeSnapshots (snap_Status snapshot))"

definition stepAtlasSnapshot ::
  "AtlasEnv \<Rightarrow> MachineSnapshot \<Rightarrow> Machine \<Rightarrow> MachineVolume \<Rightarrow> (VolumeSnapshotReference \<times> bool \<times> err option) snap_io" where
  "stepAtlasSnapshot atl snapshot m v =
     (let ref = atlas_ref snapshot (vol_Name v) in
      if vsr_ReadyToUse ref then State_Monad.return (ref, False, None)
      else if vsr_AtlasJobID ref = [] then
        (case av_state atl m (vol_Name v) of (phase, volumeID) \<Rightarrow>
           if phase \<noteq> ''Ready'' \<or> volumeID = [] then
             State_Monad.return (ref, False, Some (''atlas volume '' @ Quote (vol_Name v) @ '' is not Ready (phase '' @ Quote phase @ '')''))
           else do {
             a \<leftarrow> ask (\<lambda>h. av_snapshot atl h volumeID) (SAtlasSnapshot volumeID (vsr_VolumeSnapshotName ref));
             State_Monad.return (case a of
               Inl e \<Rightarrow> (ref, False, Some (''atlas snapshot of volume '' @ Quote (vol_Name v) @ '': '' @ atlas_text e))
             | Inr job \<Rightarrow> (ref\<lparr>vsr_AtlasJobID := aj_ID job, vsr_AtlasSnapshotID := aj_SnapshotID job,
                 vsr_ReadyToUse := (aj_State job = JobSucceeded \<and> aj_SnapshotID job \<noteq> [])\<rparr>, True, None))
           })
      else do {
        a \<leftarrow> ask (\<lambda>h. av_job atl h (vsr_AtlasJobID ref)) (SAtlasJob (vsr_AtlasJobID ref));
        State_Monad.return (case a of
          Inl e \<Rightarrow> (ref, False, Some (''get atlas job '' @ vsr_AtlasJobID ref @ '': '' @ atlas_text e))
        | Inr job \<Rightarrow>
            if aj_State job = JobSucceeded then
              (let ref = (if vsr_AtlasSnapshotID ref = [] then ref\<lparr>vsr_AtlasSnapshotID := aj_SnapshotID job\<rparr> else ref) in
               if vsr_AtlasSnapshotID ref = [] then
                 (ref, False, Some (''atlas snapshot job '' @ aj_ID job @ '' succeeded without a snapshot id''))
               else (ref\<lparr>vsr_ReadyToUse := True\<rparr>, False, None))
            else if aj_State job = JobFailed then
              (ref, False, Some (''atlas snapshot job '' @ aj_ID job @ '' for volume '' @ Quote (vol_Name v) @ '': ''
                 @ (case aj_Error job of None \<Rightarrow> ''failed'' | Some e \<Rightarrow> e)))
            else (ref, False, None))
      })"

definition failSnapshot :: "SnapEnv \<Rightarrow> MachineSnapshot \<Rightarrow> Machine \<Rightarrow> VolumeSnapshotReference list \<Rightarrow> err \<Rightarrow> err option snap_io" where
  "failSnapshot env snapshot m refs cause = do {
     e \<leftarrow> (if snap_phase snapshot = ''Freezing'' then snap_try env (SClearRequest (Namespace m) (m_name m)) else State_Monad.return None);
     (case e of
        Some e \<Rightarrow> State_Monad.return (Some (''thaw machine '' @ Namespace m @ ''/'' @ m_name m @ '' after failed snapshot: '' @ e))
      | None \<Rightarrow> snap_try env (SStatus (snap_ns snapshot) (snap_name snapshot)
          ((snap_Status snapshot)\<lparr>snap_VolumeSnapshots := refs, snap_Phase := ''Failed'', snap_ReadyToUse := False, snap_Message := cause\<rparr>)))
   }"

definition volume_ref :: "MachineSnapshot \<Rightarrow> MachineVolume \<Rightarrow> VolumeSnapshotStatus \<Rightarrow> VolumeSnapshotReference" where
  "volume_ref snapshot v st = \<lparr>vsr_VolumeName = vol_Name v, vsr_VolumeSnapshotName = snapshotVolumeName (snap_name snapshot) (vol_Name v),
     vsr_ReadyToUse = (vss_ReadyToUse st = Some True), vsr_AtlasSnapshotID = [], vsr_AtlasJobID = []\<rparr>"

definition stepVolumeSnapshot ::
  "SnapEnv \<Rightarrow> MachineSnapshot \<Rightarrow> Machine \<Rightarrow> MachineVolume \<Rightarrow> (err + VolumeSnapshotReference \<times> bool) snap_io" where
  \<comment> \<open>the CSI snapshot of one volume: its reference and whether it was created, or the error of the step\<close>
  "stepVolumeSnapshot env snapshot m v =
     (if TrimSpace (vol_Name v) = [] \<or> TrimSpace (vol_ClaimName v) = [] then
        State_Monad.return (Inl ''machine volume requires name and claimName'')
      else let ns = snap_ns snapshot; name = snapshotVolumeName (snap_name snapshot) (vol_Name v); className = snap_VolumeSnapshotClassName (snap_Spec snapshot) in do {
        a \<leftarrow> ask (\<lambda>h. sv_volume env h name) (SGetVolume ns name);
        r \<leftarrow> (case a of
          Inr st \<Rightarrow> State_Monad.return (Inr (st, False))
        | Inl e \<Rightarrow>
            if \<not> IsNotFound e then State_Monad.return (Inl (err_text e))
            else do {
              a \<leftarrow> ask (\<lambda>h. sv_created env h name) (SCreateVolume ns name
                [(''kairon.zyvor.dev/machine'', m_name m), (''kairon.zyvor.dev/snapshot'', snap_name snapshot)] (vol_ClaimName v)
                (if className = [] then None else Some className));
              State_Monad.return (case a of Inl e \<Rightarrow> Inl (err_text e) | Inr st \<Rightarrow> Inr (st, True))
            });
        State_Monad.return (case r of
          Inl e \<Rightarrow> Inl e
        | Inr (st, made) \<Rightarrow> (case vss_Error st of
            Some (Some msg) \<Rightarrow> if msg \<noteq> [] then Inl (''VolumeSnapshot '' @ name @ '' failed: '' @ msg) else Inr (volume_ref snapshot v st, made)
          | _ \<Rightarrow> Inr (volume_ref snapshot v st, made)))
      })"

fun snapshot_volumes_loop ::
  "SnapEnv \<Rightarrow> MachineSnapshot \<Rightarrow> Machine \<Rightarrow> VolumeSnapshotReference list \<Rightarrow> bool \<Rightarrow> bool \<Rightarrow> MachineVolume list
     \<Rightarrow> (err option + VolumeSnapshotReference list \<times> bool \<times> bool) snap_io" where
  \<comment> \<open>the loop over the volumes: an early return with its error, or the references, whether all are ready and whether one was created\<close>
  "snapshot_volumes_loop env snapshot m refs allReady made [] = State_Monad.return (Inr (refs, allReady, made))"
| "snapshot_volumes_loop env snapshot m refs allReady made (v # vs) = (case atlas_used env v of
     Some atl \<Rightarrow> do {
       (ref, new, e) \<leftarrow> stepAtlasSnapshot atl snapshot m v;
       (case e of
          Some e \<Rightarrow> do { r \<leftarrow> failSnapshot env snapshot m (refs @ [ref]) e; State_Monad.return (Inl r) }
        | None \<Rightarrow> snapshot_volumes_loop env snapshot m (refs @ [ref]) (allReady \<and> vsr_ReadyToUse ref) (made \<or> new) vs)
     }
   | None \<Rightarrow> do {
       r \<leftarrow> stepVolumeSnapshot env snapshot m v;
       (case r of
          Inl e \<Rightarrow> State_Monad.return (Inl (Some e))
        | Inr (ref, new) \<Rightarrow> snapshot_volumes_loop env snapshot m (refs @ [ref]) (allReady \<and> vsr_ReadyToUse ref) (made \<or> new) vs)
     })"

section \<open>Freezing and thawing the guest\<close>

definition requestGuestFreeze :: "SnapEnv \<Rightarrow> MachineSnapshot \<Rightarrow> Machine \<Rightarrow> err option snap_io" where
  "requestGuestFreeze env snapshot m =
     (let ns = snap_ns snapshot; name = snap_name snapshot in do {
        e \<leftarrow> (if HasFinalizerList (snap_finalizers snapshot) FinalizerSnapshotQuiesce then State_Monad.return None
          else snap_try env (SFinalizers ns name (snap_finalizers snapshot @ [FinalizerSnapshotQuiesce])));
        (case e of
           Some e \<Rightarrow> State_Monad.return (Some (''add quiesce finalizer to snapshot '' @ ns @ ''/'' @ name @ '': '' @ e))
         | None \<Rightarrow> do {
             now \<leftarrow> snap_clock env;
             e \<leftarrow> snap_try env (SRequest (Namespace m) (m_name m) (FormatQuiesceRef (sv_format env) name now));
             (case e of
                Some e \<Rightarrow> State_Monad.return (Some (''request guest quiesce on machine '' @ Namespace m @ ''/'' @ m_name m @ '': '' @ e))
              | None \<Rightarrow> snap_try env (SStatus ns name ((snap_Status snapshot)\<lparr>snap_Phase := ''Freezing'',
                  snap_Message := ''requested a guest filesystem freeze for an application-consistent snapshot''\<rparr>)))
           })
      })"

definition requestGuestThaw :: "SnapEnv \<Rightarrow> MachineSnapshot \<Rightarrow> Machine \<Rightarrow> VolumeSnapshotReference list \<Rightarrow> err option snap_io" where
  "requestGuestThaw env snapshot m refs = do {
     e \<leftarrow> snap_try env (SClearRequest (Namespace m) (m_name m));
     (case e of
        Some e \<Rightarrow> State_Monad.return (Some (''request guest thaw on machine '' @ Namespace m @ ''/'' @ m_name m @ '': '' @ e))
      | None \<Rightarrow> snap_try env (SStatus (snap_ns snapshot) (snap_name snapshot) ((snap_Status snapshot)\<lparr>snap_VolumeSnapshots := refs,
          snap_Phase := ''Thawing'', snap_Message := ''VolumeSnapshots requested; waiting for the guest filesystem to thaw''\<rparr>)))
   }"

definition volumes_status :: "MachineSnapshot \<Rightarrow> VolumeSnapshotReference list \<Rightarrow> bool \<Rightarrow> bool \<Rightarrow> MachineSnapshotStatus" where
  \<comment> \<open>the status after a pass over the volumes; a pass that created one and is not done leaves \<open>ReadyToUse\<close> as it was\<close>
  "volumes_status snapshot refs allReady made =
     (let st = (snap_Status snapshot)\<lparr>snap_VolumeSnapshots := refs\<rparr> in
      if made \<and> \<not> allReady then st\<lparr>snap_Phase := ''Pending'', snap_Message := ''waiting for volume snapshots''\<rparr>
      else if allReady then st\<lparr>snap_ReadyToUse := True, snap_Phase := ''Succeeded'', snap_Message := ''all volume snapshots are ready to use''\<rparr>
      else st\<lparr>snap_ReadyToUse := False, snap_Phase := ''Pending'', snap_Message := ''waiting for volume snapshots''\<rparr>)"

definition reconcileVolumeSnapshots :: "SnapEnv \<Rightarrow> MachineSnapshot \<Rightarrow> Machine \<Rightarrow> MachineVolume list \<Rightarrow> err option snap_io" where
  \<comment> \<open>the volumes are those the snapshot selects of the Machine\<close>
  "reconcileVolumeSnapshots env snapshot m vols = do {
     e \<leftarrow> ensureAtlasSnapshotFinalizer env snapshot vols;
     (case e of
        Some e \<Rightarrow> State_Monad.return (Some e)
      | None \<Rightarrow> do {
          r \<leftarrow> snapshot_volumes_loop env snapshot m [] True False vols;
          (case r of
             Inl e \<Rightarrow> State_Monad.return e
           | Inr (refs, allReady, made) \<Rightarrow>
               if made \<and> ga_Enabled (spec_GuestAgent (mach_Spec m)) \<and> snap_phase snapshot = ''Freezing'' then requestGuestThaw env snapshot m refs
               else snap_try env (SStatus (snap_ns snapshot) (snap_name snapshot) (volumes_status snapshot refs allReady made)))
        })
   }"

definition awaitGuestFreeze :: "SnapEnv \<Rightarrow> MachineSnapshot \<Rightarrow> Machine \<Rightarrow> MachineVolume list \<Rightarrow> err option snap_io" where
  "awaitGuestFreeze env snapshot m vols =
     (let name = snap_name snapshot in
      (case quiesce_request (sv_parse env) m of
         None \<Rightarrow> requestGuestFreeze env snapshot m
       | Some (requested, requestedAt) \<Rightarrow>
           if requested \<noteq> name then requestGuestFreeze env snapshot m
           else if (case quiesce_status (sv_parse env) m of None \<Rightarrow> name = [] | Some (confirmed, _) \<Rightarrow> confirmed = name)
           then reconcileVolumeSnapshots env snapshot m vols
           else do {
             now \<leftarrow> snap_clock env;
             (if time_Sub now requestedAt < quiesceFreezeTimeout then State_Monad.return None
              else do {
                e \<leftarrow> snap_try env (SClearRequest (Namespace m) (m_name m));
                (case e of
                   Some e \<Rightarrow> State_Monad.return (Some (''clear timed-out guest quiesce request on machine '' @ Namespace m @ ''/'' @ m_name m @ '': '' @ e))
                 | None \<Rightarrow> do {
                     e \<leftarrow> snap_try env (SStatus (snap_ns snapshot) name ((snap_Status snapshot)\<lparr>
                       snap_Message := ''guest quiesce freeze did not confirm within 30s; proceeding with a crash-consistent snapshot''\<rparr>));
                     (case e of Some e \<Rightarrow> State_Monad.return (Some e) | None \<Rightarrow> reconcileVolumeSnapshots env snapshot m vols)
                   })
              })
           }))"

definition awaitGuestThaw :: "SnapEnv \<Rightarrow> MachineSnapshot \<Rightarrow> Machine \<Rightarrow> MachineVolume list \<Rightarrow> err option snap_io" where
  "awaitGuestThaw env snapshot m vols =
     (if quiesce_status (sv_parse env) m \<noteq> None then State_Monad.return None else reconcileVolumeSnapshots env snapshot m vols)"

section \<open>Deletion\<close>

fun release_atlas_loop :: "AtlasEnv \<Rightarrow> VolumeSnapshotReference list \<Rightarrow> (err + bool) snap_io" where
  \<comment> \<open>False when a job still runs and the release has to wait\<close>
  "release_atlas_loop atl [] = State_Monad.return (Inr True)"
| "release_atlas_loop atl (ref # refs) = do {
     r \<leftarrow> (if vsr_AtlasSnapshotID ref = [] \<and> vsr_AtlasJobID ref \<noteq> [] then do {
         a \<leftarrow> ask (\<lambda>h. av_job atl h (vsr_AtlasJobID ref)) (SAtlasJob (vsr_AtlasJobID ref));
         State_Monad.return (case a of
           Inl (AtlasNotFound _) \<Rightarrow> Inr (Some [])
         | Inl e \<Rightarrow> Inl (''get atlas job '' @ vsr_AtlasJobID ref @ '': '' @ atlas_text e)
         | Inr job \<Rightarrow> Inr (if aj_Terminal job then Some (aj_SnapshotID job) else None))
       }
       else State_Monad.return (Inr (Some (vsr_AtlasSnapshotID ref))));
     (case r of
        Inl e \<Rightarrow> State_Monad.return (Inl e)
      | Inr None \<Rightarrow> State_Monad.return (Inr False)
      | Inr (Some sid) \<Rightarrow>
          if sid = [] then release_atlas_loop atl refs
          else do {
            e \<leftarrow> ask (\<lambda>h. av_delete atl h sid) (SAtlasDelete sid);
            (case e of
               Some (AtlasOther e) \<Rightarrow> State_Monad.return (Inl (''delete atlas snapshot '' @ sid @ '': '' @ e))
             | _ \<Rightarrow> release_atlas_loop atl refs)
          })
   }"

definition releaseAtlasSnapshots :: "SnapEnv \<Rightarrow> MachineSnapshot \<Rightarrow> (err + string list) snap_io" where
  \<comment> \<open>the finalizers the snapshot has afterwards\<close>
  "releaseAtlasSnapshots env snapshot = (case sv_atlas env of
     None \<Rightarrow> State_Monad.return (Inl (''snapshot '' @ snap_ns snapshot @ ''/'' @ snap_name snapshot @ '' has Atlas snapshots but Atlas is not configured''))
   | Some atl \<Rightarrow> do {
       r \<leftarrow> release_atlas_loop atl (snap_VolumeSnapshots (snap_Status snapshot));
       (case r of
          Inl e \<Rightarrow> State_Monad.return (Inl e)
        | Inr False \<Rightarrow> State_Monad.return (Inr (snap_finalizers snapshot))
        | Inr True \<Rightarrow> (let finals = RemoveFinalizer (snap_finalizers snapshot) FinalizerAtlasSnapshots in do {
            e \<leftarrow> snap_try env (SFinalizers (snap_ns snapshot) (snap_name snapshot) finals);
            State_Monad.return (case e of Some e \<Rightarrow> Inl e | None \<Rightarrow> Inr finals)
          }))
     })"

definition thaw_before_deletion :: "SnapEnv \<Rightarrow> MachineSnapshot \<Rightarrow> Machine option \<Rightarrow> string list \<Rightarrow> err option snap_io" where
  "thaw_before_deletion env snapshot m finals =
     (let ns = snap_ns snapshot; name = snap_name snapshot;
          finish = snap_try env (SFinalizers ns name (RemoveFinalizer finals FinalizerSnapshotQuiesce)) in
      (case m of
         None \<Rightarrow> finish
       | Some m \<Rightarrow>
           if (case quiesce_request (sv_parse env) m of None \<Rightarrow> False | Some (requested, _) \<Rightarrow> requested = name) then do {
             e \<leftarrow> snap_try env (SClearRequest (Namespace m) (m_name m));
             State_Monad.return (map_option (\<lambda>e. ''request guest thaw before deleting snapshot '' @ ns @ ''/'' @ name @ '': '' @ e) e)
           }
           else if (case quiesce_status (sv_parse env) m of None \<Rightarrow> False | Some (confirmed, _) \<Rightarrow> confirmed = name) then State_Monad.return None
           else finish))"

definition reconcileSnapshotDeletion :: "SnapEnv \<Rightarrow> MachineSnapshot \<Rightarrow> (string \<Rightarrow> Machine option) \<Rightarrow> err option snap_io" where
  "reconcileSnapshotDeletion env snapshot machines = do {
     r \<leftarrow> (if HasFinalizerList (snap_finalizers snapshot) FinalizerAtlasSnapshots then releaseAtlasSnapshots env snapshot
       else State_Monad.return (Inr (snap_finalizers snapshot)));
     (case r of
        Inl e \<Rightarrow> State_Monad.return (Some e)
      | Inr finals \<Rightarrow>
          if \<not> HasFinalizerList finals FinalizerSnapshotQuiesce then State_Monad.return None
          else thaw_before_deletion env snapshot (machines (snap_ns snapshot @ ''/'' @ snap_MachineName (snap_Spec snapshot))) finals)
   }"

section \<open>A tick\<close>

definition reconcileSnapshot :: "SnapEnv \<Rightarrow> MachineSnapshot \<Rightarrow> (string \<Rightarrow> Machine option) \<Rightarrow> err option snap_io" where
  "reconcileSnapshot env snapshot machines =
     (let name = snap_MachineName (snap_Spec snapshot); phase = snap_phase snapshot in
      if meta_DeletionTimestamp (snap_Metadata snapshot) \<noteq> None then reconcileSnapshotDeletion env snapshot machines
      else if phase = ''Succeeded'' \<or> phase = ''Failed'' then State_Monad.return None
      else if TrimSpace name = [] then State_Monad.return (Some ''spec.machineName is required'')
      else (case machines (snap_ns snapshot @ ''/'' @ name) of
        None \<Rightarrow> State_Monad.return (Some (''machine '' @ snap_ns snapshot @ ''/'' @ name @ '' not found''))
      | Some m \<Rightarrow>
          if spec_Volumes (mach_Spec m) = [] then State_Monad.return (Some ''machine has no PVC-backed spec.volumes to snapshot'')
          else (case snapshotVolumes snapshot m of
            Inl e \<Rightarrow> State_Monad.return (Some e)
          | Inr vols \<Rightarrow>
              if ga_Enabled (spec_GuestAgent (mach_Spec m)) \<and> phase = [] then requestGuestFreeze env snapshot m
              else if ga_Enabled (spec_GuestAgent (mach_Spec m)) \<and> phase = ''Freezing'' then awaitGuestFreeze env snapshot m vols
              else if ga_Enabled (spec_GuestAgent (mach_Spec m)) \<and> phase = ''Thawing'' then awaitGuestThaw env snapshot m vols
              else reconcileVolumeSnapshots env snapshot m vols)))"

fun snapshot_tick :: "SnapEnv \<Rightarrow> (string \<Rightarrow> Machine option) \<Rightarrow> MachineSnapshot list \<Rightarrow> unit snap_io" where
  \<comment> \<open>the loop of \<open>Reconcile\<close> over the snapshots: an error becomes phase Failed\<close>
  "snapshot_tick env machines [] = State_Monad.return ()"
| "snapshot_tick env machines (snapshot # snapshots) = do {
     e \<leftarrow> reconcileSnapshot env snapshot machines;
     _ \<leftarrow> (case e of
       None \<Rightarrow> State_Monad.return None
     | Some e \<Rightarrow> snap_try env (SStatus (snap_ns snapshot) (snap_name snapshot)
         ((snap_Status snapshot)\<lparr>snap_Phase := ''Failed'', snap_ReadyToUse := False, snap_Message := e\<rparr>)));
     snapshot_tick env machines snapshots
   }"

section \<open>The node\<close>

datatype QuiesceCall = QFreeze string | QConfirm string string string | QThaw string | QClearStatus string string

record QuiesceEnv =
  qv_err :: "QuiesceCall list \<Rightarrow> QuiesceCall \<Rightarrow> err option"
  qv_parse :: "string \<Rightarrow> time option"

definition reconcileGuestQuiesce :: "QuiesceEnv \<Rightarrow> Machine \<Rightarrow> string \<Rightarrow> (QuiesceCall, unit) io" where
  \<comment> \<open>for the running virtual machine with this id\<close>
  "reconcileGuestQuiesce env m rid =
     (if \<not> ga_Enabled (spec_GuestAgent (mach_Spec m)) then State_Monad.return ()
      else (case (quiesce_request (qv_parse env) m, quiesce_status (qv_parse env) m) of
        (Some (requestName, _), status) \<Rightarrow>
          if (case status of None \<Rightarrow> True | Some (statusName, _) \<Rightarrow> statusName \<noteq> requestName) then do {
            e \<leftarrow> attempt (qv_err env) (QFreeze rid);
            (case e of
               Some _ \<Rightarrow> State_Monad.return ()
             | None \<Rightarrow> do {
                 _ \<leftarrow> attempt (qv_err env) (QConfirm (Namespace m) (m_name m) (mget (m_annotations m) AnnotationQuiesceRequest));
                 State_Monad.return ()
               })
          }
          else State_Monad.return ()
      | (None, Some _) \<Rightarrow> do {
          e \<leftarrow> attempt (qv_err env) (QThaw rid);
          (case e of
             Some _ \<Rightarrow> State_Monad.return ()
           | None \<Rightarrow> do {
               _ \<leftarrow> attempt (qv_err env) (QClearStatus (Namespace m) (m_name m));
               State_Monad.return ()
             })
        }
      | (None, None) \<Rightarrow> State_Monad.return ()))"

section \<open>What a snapshot calls\<close>

lemma snap_try_calls [call_intros]: "ok c \<Longrightarrow> only_calls ok (snap_try env c)"
  by (simp add: snap_try_def call_intros)

lemma snap_clock_bind [call_intros]:
  assumes "\<And>h. only_calls ok (f (sv_now env h))"
  shows "only_calls ok (State_Monad.bind (snap_clock env) f)"
  using assms by (simp add: only_calls_def State_Monad.bind_def snap_clock_def)

definition names :: "string \<Rightarrow> (string \<times> time) option \<Rightarrow> bool" where
  \<comment> \<open>the annotation refers to this snapshot\<close>
  "names n ref \<longleftrightarrow> (\<exists>t. ref = Some (n, t))"

fun drops_quiesce :: "SnapCall \<Rightarrow> bool" where
  "drops_quiesce (SFinalizers ns n fs) = (FinalizerSnapshotQuiesce \<notin> set fs)"
| "drops_quiesce _ = False"

fun takes_snapshot :: "SnapCall \<Rightarrow> bool" where
  \<comment> \<open>asks for the snapshot of a volume\<close>
  "takes_snapshot (SCreateVolume _ _ _ _ _) = True"
| "takes_snapshot (SAtlasSnapshot _ _) = True"
| "takes_snapshot _ = False"

lemma stepAtlas_calls: "(\<And>c. \<not> drops_quiesce c \<Longrightarrow> ok c) \<Longrightarrow> only_calls ok (stepAtlasSnapshot atl s m v)"
  unfolding stepAtlasSnapshot_def Let_def by (auto intro!: call_intros split: prod.split)

lemma stepVolume_calls: "(\<And>c. \<not> drops_quiesce c \<Longrightarrow> ok c) \<Longrightarrow> only_calls ok (stepVolumeSnapshot env s m v)"
  unfolding stepVolumeSnapshot_def Let_def by (auto intro!: call_intros split: sum.split)

lemma failSnapshot_calls: "(\<And>c. \<not> drops_quiesce c \<Longrightarrow> ok c) \<Longrightarrow> only_calls ok (failSnapshot env s m refs e)"
  unfolding failSnapshot_def by (auto intro!: call_intros split: option.split)

lemma snapshot_volumes_calls: "(\<And>c. \<not> drops_quiesce c \<Longrightarrow> ok c) \<Longrightarrow> only_calls ok (snapshot_volumes_loop env s m refs r k vs)"
proof (induction vs arbitrary: refs r k)
  case (Cons v vs)
  note quiet = stepAtlas_calls [OF Cons.prems] stepVolume_calls [OF Cons.prems] failSnapshot_calls [OF Cons.prems]
  show ?case using Cons.IH [OF Cons.prems] quiet
    by (auto intro!: call_intros split: option.split sum.split prod.split)
qed (simp add: call_intros)

lemma requestGuestFreeze_calls:
  assumes "\<And>c. \<not> drops_quiesce c \<Longrightarrow> \<not> takes_snapshot c \<Longrightarrow> ok c"
  shows "only_calls ok (requestGuestFreeze env s m)"
  unfolding requestGuestFreeze_def Let_def using assms by (auto intro!: call_intros split: option.split)

lemma requestGuestThaw_calls:
  assumes "\<And>c. \<not> drops_quiesce c \<Longrightarrow> \<not> takes_snapshot c \<Longrightarrow> ok c"
  shows "only_calls ok (requestGuestThaw env s m refs)"
  unfolding requestGuestThaw_def using assms by (auto intro!: call_intros split: option.split)

lemma reconcileVolumeSnapshots_calls:
  assumes "\<And>c. \<not> drops_quiesce c \<Longrightarrow> ok c" "FinalizerSnapshotQuiesce \<in> set (snap_finalizers s)"
  shows "only_calls ok (reconcileVolumeSnapshots env s m vols)"
proof -
  have "only_calls ok (ensureAtlasSnapshotFinalizer env s vols)"
    using assms unfolding ensureAtlasSnapshotFinalizer_def by (auto intro!: call_intros)
  moreover have "only_calls ok (requestGuestThaw env s m refs)" for refs using assms(1) by (intro requestGuestThaw_calls)
  ultimately show ?thesis unfolding reconcileVolumeSnapshots_def
    using snapshot_volumes_calls [OF assms(1)] assms(1) by (auto intro!: call_intros split: option.split sum.split prod.split)
qed

lemma awaitGuestFreeze_calls:
  assumes "\<And>c. \<not> drops_quiesce c \<Longrightarrow> ok c" "FinalizerSnapshotQuiesce \<in> set (snap_finalizers s)"
  shows "only_calls ok (awaitGuestFreeze env s m vols)"
proof -
  have "only_calls ok (requestGuestFreeze env s m)" using assms(1) by (intro requestGuestFreeze_calls)
  then show ?thesis unfolding awaitGuestFreeze_def Let_def using reconcileVolumeSnapshots_calls [OF assms] assms(1)
    by (auto intro!: call_intros split: option.split prod.split)
qed

lemma release_atlas_loop_calls: "(\<And>c. \<not> drops_quiesce c \<Longrightarrow> ok c) \<Longrightarrow> only_calls ok (release_atlas_loop atl refs)"
proof (induction refs)
  case (Cons ref refs)
  then show ?case
    by (auto intro!: call_intros split: sum.split option.split AtlasErr.split)
qed (simp add: call_intros)

definition holds_frozen :: "SnapEnv \<Rightarrow> MachineSnapshot \<Rightarrow> Machine option \<Rightarrow> bool" where
  \<comment> \<open>the annotations say that the guest may be frozen for this snapshot\<close>
  "holds_frozen env s m \<longleftrightarrow> (\<exists>x. m = Some x \<and> (names (snap_name s) (quiesce_request (sv_parse env) x) \<or> names (snap_name s) (quiesce_status (sv_parse env) x)))"

lemma names_case: "(case ref of None \<Rightarrow> False | Some (n', _) \<Rightarrow> n' = n) \<longleftrightarrow> names n ref"
  by (auto simp: names_def split: option.split)

lemma thaw_before_deletion_calls:
  assumes "\<And>c. \<not> drops_quiesce c \<or> \<not> holds_frozen env s m \<Longrightarrow> ok c"
  shows "only_calls ok (thaw_before_deletion env s m finals)"
proof (cases m)
  case None
  then show ?thesis using assms by (auto simp: thaw_before_deletion_def holds_frozen_def intro!: call_intros)
next
  case (Some x)
  show ?thesis
  proof (cases "holds_frozen env s m")
    case True
    then have "names (snap_name s) (quiesce_request (sv_parse env) x) \<or> names (snap_name s) (quiesce_status (sv_parse env) x)"
      using Some by (simp add: holds_frozen_def)
    then show ?thesis using Some assms unfolding thaw_before_deletion_def Let_def
      by (auto simp: names_case intro!: call_intros)
  next
    case False
    then show ?thesis using Some assms unfolding thaw_before_deletion_def Let_def
      by (auto intro!: call_intros)
  qed
qed

lemma RemoveFinalizer_other: "f \<in> set fs \<Longrightarrow> f \<noteq> g \<Longrightarrow> f \<in> set (RemoveFinalizer fs g)"
  by (simp add: RemoveFinalizer_def)

lemma quiesce_not_atlas [simp]: "FinalizerSnapshotQuiesce \<noteq> FinalizerAtlasSnapshots"
  by (simp add: FinalizerSnapshotQuiesce_def FinalizerAtlasSnapshots_def)

lemma releaseAtlasSnapshots_calls:
  assumes "\<And>c. \<not> drops_quiesce c \<Longrightarrow> ok c" "FinalizerSnapshotQuiesce \<in> set (snap_finalizers s)"
  shows "only_calls ok (releaseAtlasSnapshots env s)"
  unfolding releaseAtlasSnapshots_def Let_def
  using release_atlas_loop_calls [of ok] assms RemoveFinalizer_other [OF assms(2) quiesce_not_atlas]
  by (auto intro!: call_intros split: option.split sum.split bool.split)

lemma reconcileSnapshotDeletion_calls:
  assumes "FinalizerSnapshotQuiesce \<in> set (snap_finalizers s)"
    and "\<And>c. \<not> drops_quiesce c \<or> \<not> holds_frozen env s (machines (snap_ns s @ ''/'' @ snap_MachineName (snap_Spec s))) \<Longrightarrow> ok c"
  shows "only_calls ok (reconcileSnapshotDeletion env s machines)"
proof -
  have "only_calls ok (releaseAtlasSnapshots env s)" using assms by (intro releaseAtlasSnapshots_calls) auto
  moreover have "only_calls ok (thaw_before_deletion env s (machines (snap_ns s @ ''/'' @ snap_MachineName (snap_Spec s))) finals)" for finals
    using assms(2) by (intro thaw_before_deletion_calls) auto
  ultimately show ?thesis unfolding reconcileSnapshotDeletion_def by (auto intro!: call_intros split: sum.split)
qed

section \<open>Properties\<close>

text \<open>
  C27. A snapshot that may hold a guest frozen cannot disappear. Whatever calls fail, the finalizer that
  guards the freeze is taken off only a snapshot being deleted, and only when its Machine is gone
  or neither the request nor the confirmation on the Machine refers to the snapshot.
\<close>

theorem quiesce_finalizer_safe:
  assumes "run_state (reconcileSnapshot env s machines) [] = (e, calls)"
    and "FinalizerSnapshotQuiesce \<in> set (snap_finalizers s)" "SFinalizers ns n fs \<in> set calls" "FinalizerSnapshotQuiesce \<notin> set fs"
  shows "meta_DeletionTimestamp (snap_Metadata s) \<noteq> None \<and> \<not> holds_frozen env s (machines (snap_ns s @ ''/'' @ snap_MachineName (snap_Spec s)))"
proof -
  define gone where "gone \<longleftrightarrow> meta_DeletionTimestamp (snap_Metadata s) \<noteq> None \<and> \<not> holds_frozen env s (machines (snap_ns s @ ''/'' @ snap_MachineName (snap_Spec s)))"
  let ?ok = "\<lambda>c. drops_quiesce c \<longrightarrow> gone"
  have "only_calls ?ok (reconcileSnapshot env s machines)"
  proof (cases "meta_DeletionTimestamp (snap_Metadata s) \<noteq> None")
    case True
    then have "only_calls ?ok (reconcileSnapshotDeletion env s machines)"
      using assms(2) by (intro reconcileSnapshotDeletion_calls) (auto simp: gone_def)
    then show ?thesis using True by (simp add: reconcileSnapshot_def)
  next
    case False
    have quiet: "\<And>c. \<not> drops_quiesce c \<Longrightarrow> ?ok c" by simp
    have "only_calls ?ok (requestGuestFreeze env s m)" "only_calls ?ok (awaitGuestFreeze env s m vols)"
      "only_calls ?ok (reconcileVolumeSnapshots env s m vols)" for m vols
      using requestGuestFreeze_calls [of ?ok] awaitGuestFreeze_calls [OF quiet assms(2)] reconcileVolumeSnapshots_calls [OF quiet assms(2)] by auto
    then show ?thesis using False unfolding reconcileSnapshot_def awaitGuestThaw_def Let_def
      by (auto intro!: call_intros split: option.split sum.split)
  qed
  from only_calls_run [OF this assms(1)] have "\<forall>c \<in> set calls. ?ok c" unfolding list_all_iff append_Nil by blast
  then have "?ok (SFinalizers ns n fs)" using assms(3) by blast
  then show ?thesis using assms(4) by (simp add: gone_def)
qed

text \<open>
  C26. Application-consistent snapshots are taken of a frozen guest. For a Machine with a guest agent, a
  snapshot in one of the phases of the freeze asks for the snapshot of a volume only when its own request stands
  on the Machine and the node confirmed it or it is older than the timeout, or when the guest was
  thawed again.
\<close>

theorem snapshot_taken_frozen:
  assumes "run_state (reconcileSnapshot env s machines) [] = (e, calls)"
    and "machines (snap_ns s @ ''/'' @ snap_MachineName (snap_Spec s)) = Some m" "ga_Enabled (spec_GuestAgent (mach_Spec m))"
    and "snap_phase s \<in> {[], ''Freezing'', ''Thawing''}" "snap_name s \<noteq> []" "meta_DeletionTimestamp (snap_Metadata s) = None"
    and "c \<in> set calls" "takes_snapshot c"
  shows "(snap_phase s = ''Freezing'' \<and> (\<exists>t. quiesce_request (sv_parse env) m = Some (snap_name s, t)
      \<and> (names (snap_name s) (quiesce_status (sv_parse env) m) \<or> (\<exists>h. quiesceFreezeTimeout \<le> time_Sub (sv_now env h) t))))
    \<or> (snap_phase s = ''Thawing'' \<and> quiesce_status (sv_parse env) m = None)"
proof (rule ccontr)
  assume no: "\<not> ?thesis"
  let ?ok = "\<lambda>c. \<not> takes_snapshot c"
  have freeze: "only_calls ?ok (requestGuestFreeze env s m)" by (rule requestGuestFreeze_calls)
  have "only_calls ?ok (reconcileSnapshot env s machines)"
  proof (cases "snap_phase s = ''Freezing''")
    case phase: True
    have "only_calls ?ok (awaitGuestFreeze env s m vols)" for vols
    proof (cases "quiesce_request (sv_parse env) m")
      case None
      then show ?thesis using freeze by (simp add: awaitGuestFreeze_def)
    next
      case (Some rt)
      obtain r t where rt: "rt = (r, t)" by (rule prod.exhaust)
      show ?thesis
      proof (cases "r = snap_name s")
        case True
        have "\<not> names (snap_name s) (quiesce_status (sv_parse env) m)" "\<And>h. time_Sub (sv_now env h) t < quiesceFreezeTimeout"
          using no phase Some rt True by (auto simp: not_le [symmetric])
        then show ?thesis using Some rt True assms(5) unfolding awaitGuestFreeze_def Let_def
          by (auto simp: names_def intro!: call_intros split: option.split)
      next
        case False
        then show ?thesis using Some rt freeze by (simp add: awaitGuestFreeze_def)
      qed
    qed
    then show ?thesis using phase assms(2,3,6) unfolding reconcileSnapshot_def Let_def
      by (auto intro!: call_intros split: sum.split)
  next
    case False
    then show ?thesis using no freeze assms(2,3,4,6) unfolding reconcileSnapshot_def awaitGuestThaw_def Let_def
      by (auto intro!: call_intros split: sum.split)
  qed
  from only_calls_run [OF this assms(1)] show False using assms(7,8) by (auto simp: list_all_iff)
qed

section \<open>The controller and the node together\<close>

text \<open>
  One Machine with a guest agent and one snapshot of it. A step is a tick of the controller on the
  snapshot or of the node on the Machine; the calls that succeed change the two objects and the guest.
\<close>

record QuiesceWorld =
  qw_frozen :: bool
  qw_machine :: Machine
  qw_snap :: MachineSnapshot

definition set_annotation :: "string \<Rightarrow> string \<Rightarrow> Machine \<Rightarrow> Machine" where
  "set_annotation k v m = m\<lparr>mach_Metadata := (mach_Metadata m)\<lparr>meta_Annotations := mput (m_annotations m) k v\<rparr>\<rparr>"

definition drop_annotation :: "string \<Rightarrow> Machine \<Rightarrow> Machine" where
  "drop_annotation k m = m\<lparr>mach_Metadata := (mach_Metadata m)\<lparr>meta_Annotations := filter (\<lambda>(k', _). k' \<noteq> k) (m_annotations m)\<rparr>\<rparr>"

fun snap_effect :: "SnapCall \<Rightarrow> QuiesceWorld \<Rightarrow> QuiesceWorld" where
  "snap_effect (SRequest _ _ r) w = w\<lparr>qw_machine := set_annotation AnnotationQuiesceRequest r (qw_machine w)\<rparr>"
| "snap_effect (SClearRequest _ _) w = w\<lparr>qw_machine := drop_annotation AnnotationQuiesceRequest (qw_machine w)\<rparr>"
| "snap_effect (SStatus _ _ st) w = w\<lparr>qw_snap := (qw_snap w)\<lparr>snap_Status := st\<rparr>\<rparr>"
| "snap_effect (SFinalizers _ _ fs) w = w\<lparr>qw_snap := (qw_snap w)\<lparr>snap_Metadata := (snap_Metadata (qw_snap w))\<lparr>meta_Finalizers := fs\<rparr>\<rparr>\<rparr>"
| "snap_effect _ w = w"

fun snap_effects :: "SnapEnv \<Rightarrow> SnapCall list \<Rightarrow> SnapCall list \<Rightarrow> QuiesceWorld \<Rightarrow> QuiesceWorld" where
  "snap_effects env h [] w = w"
| "snap_effects env h (c # cs) w = snap_effects env (h @ [c]) cs (if sv_err env h c = None then snap_effect c w else w)"

fun quiesce_effect :: "QuiesceCall \<Rightarrow> QuiesceWorld \<Rightarrow> QuiesceWorld" where
  "quiesce_effect (QFreeze _) w = w\<lparr>qw_frozen := True\<rparr>"
| "quiesce_effect (QThaw _) w = w\<lparr>qw_frozen := False\<rparr>"
| "quiesce_effect (QConfirm _ _ r) w = w\<lparr>qw_machine := set_annotation AnnotationQuiesceStatus r (qw_machine w)\<rparr>"
| "quiesce_effect (QClearStatus _ _) w = w\<lparr>qw_machine := drop_annotation AnnotationQuiesceStatus (qw_machine w)\<rparr>"

fun quiesce_effects :: "QuiesceEnv \<Rightarrow> QuiesceCall list \<Rightarrow> QuiesceCall list \<Rightarrow> QuiesceWorld \<Rightarrow> QuiesceWorld" where
  "quiesce_effects env h [] w = w"
| "quiesce_effects env h (c # cs) w = quiesce_effects env (h @ [c]) cs (if qv_err env h c = None then quiesce_effect c w else w)"

definition only_machine :: "Machine \<Rightarrow> string \<Rightarrow> Machine option" where
  "only_machine m k = (if k = m_key m then Some m else None)"

inductive quiesce_step ::
  "(QuiesceEnv \<Rightarrow> bool) \<Rightarrow> (string \<Rightarrow> time option) \<Rightarrow> (time \<Rightarrow> string) \<Rightarrow> QuiesceWorld \<Rightarrow> QuiesceWorld \<Rightarrow> bool" for good parse format where
  \<comment> \<open>the answers the node may get are those of a good environment\<close>
  controller: "sv_parse env = parse \<Longrightarrow> sv_format env = format
    \<Longrightarrow> run_state (snapshot_tick env (only_machine (qw_machine w)) [qw_snap w]) [] = ((), calls)
    \<Longrightarrow> quiesce_step good parse format w (snap_effects env [] calls w)"
| node: "good env \<Longrightarrow> qv_parse env = parse \<Longrightarrow> run_state (reconcileGuestQuiesce env (qw_machine w) rid) [] = ((), calls)
    \<Longrightarrow> quiesce_step good parse format w (quiesce_effects env [] calls w)"

lemma set_annotation_sel [simp]:
  "mget (m_annotations (set_annotation k v m)) k' = (if k' = k then v else mget (m_annotations m) k')"
  "m_name (set_annotation k v m) = m_name m" "Namespace (set_annotation k v m) = Namespace m" "m_key (set_annotation k v m) = m_key m"
  "mach_Spec (set_annotation k v m) = mach_Spec m"
  by (simp_all add: set_annotation_def mget_def Namespace_def m_key_def meta_ns_def)

lemma quiesce_annotations_differ [simp]: "AnnotationQuiesceStatus \<noteq> AnnotationQuiesceRequest" "AnnotationQuiesceRequest \<noteq> AnnotationQuiesceStatus"
  by (simp_all add: AnnotationQuiesceStatus_def AnnotationQuiesceRequest_def)

lemma ParseQuiesceRef_Format: "CHR ''@'' \<notin> set name \<Longrightarrow> parse (format t) = Some u \<Longrightarrow> ParseQuiesceRef parse (FormatQuiesceRef format name t) = Some (name, u)"
  by (simp add: ParseQuiesceRef_def FormatQuiesceRef_def Cut_append)

section \<open>A guest that stays frozen\<close>

definition abandoned :: "(string \<Rightarrow> time option) \<Rightarrow> QuiesceWorld \<Rightarrow> bool" where
  \<comment> \<open>the snapshot failed, and the request and the confirmation for it stand on the Machine of a frozen guest\<close>
  "abandoned parse w \<longleftrightarrow> qw_frozen w \<and> snap_phase (qw_snap w) = ''Failed'' \<and> meta_DeletionTimestamp (snap_Metadata (qw_snap w)) = None
     \<and> (\<exists>n t u. quiesce_request parse (qw_machine w) = Some (n, t) \<and> quiesce_status parse (qw_machine w) = Some (n, u))"

lemma abandoned_step: "quiesce_step good parse format w w' \<Longrightarrow> abandoned parse w \<Longrightarrow> w' = w"
proof (induction rule: quiesce_step.induct)
  case (controller env w calls)
  have "run_state (snapshot_tick env (only_machine (qw_machine w)) [qw_snap w]) [] = ((), [])"
    using controller(4) by (simp add: abandoned_def reconcileSnapshot_def State_Monad.bind_def State_Monad.return_def)
  then show ?case using controller(3) by simp
next
  case (node env w rid calls)
  obtain n t u where "quiesce_request parse (qw_machine w) = Some (n, t)" "quiesce_status parse (qw_machine w) = Some (n, u)"
    using node(4) by (auto simp: abandoned_def)
  then have "run_state (reconcileGuestQuiesce env (qw_machine w) rid) [] = ((), [])"
    using node(2) by (simp add: reconcileGuestQuiesce_def State_Monad.return_def)
  then show ?case using node(3) by simp
qed

lemma abandoned_forever: "(quiesce_step good parse format)\<^sup>*\<^sup>* w w' \<Longrightarrow> abandoned parse w \<Longrightarrow> w' = w"
  by (induction rule: rtranclp_induct) (auto dest: abandoned_step)

definition faulty_storage :: "(string \<Rightarrow> time option) \<Rightarrow> (time \<Rightarrow> string) \<Rightarrow> SnapEnv" where
  \<comment> \<open>a server that does what it is asked but fails to read VolumeSnapshots\<close>
  "faulty_storage parse format = \<lparr>sv_err = (\<lambda>h c. None), sv_volume = (\<lambda>h n. Inl (OtherErr ''timeout'')), sv_created = (\<lambda>h n. Inl (OtherErr ''timeout'')),
     sv_atlas = None, sv_now = (\<lambda>h. 0), sv_parse = parse, sv_format = format\<rparr>"

definition willing_node :: "(string \<Rightarrow> time option) \<Rightarrow> QuiesceEnv" where
  "willing_node parse = \<lparr>qv_err = (\<lambda>h c. None), qv_parse = parse\<rparr>"

definition fresh_snapshot :: "Machine \<Rightarrow> MachineSnapshot \<Rightarrow> bool" where
  \<comment> \<open>a new snapshot of all volumes of a Machine with a guest agent\<close>
  "fresh_snapshot m s \<longleftrightarrow> m_key m = snap_ns s @ ''/'' @ snap_MachineName (snap_Spec s) \<and> TrimSpace (snap_MachineName (snap_Spec s)) \<noteq> []
     \<and> ga_Enabled (spec_GuestAgent (mach_Spec m)) \<and> snap_VolumeNames (snap_Spec s) = [] \<and> snap_phase s = [] \<and> snap_finalizers s = []
     \<and> meta_DeletionTimestamp (snap_Metadata s) = None \<and> mget (m_annotations m) AnnotationQuiesceStatus = []
     \<and> CHR ''@'' \<notin> set (snap_name s)
     \<and> (\<exists>v vs. spec_Volumes (mach_Spec m) = v # vs \<and> TrimSpace (vol_Name v) \<noteq> [] \<and> TrimSpace (vol_ClaimName v) \<noteq> [])"

definition asked :: "(time \<Rightarrow> string) \<Rightarrow> QuiesceWorld \<Rightarrow> QuiesceWorld" where
  \<comment> \<open>after the first tick of the controller\<close>
  "asked format w = (let s = qw_snap w in
     w\<lparr>qw_machine := set_annotation AnnotationQuiesceRequest (FormatQuiesceRef format (snap_name s) 0) (qw_machine w),
       qw_snap := s\<lparr>snap_Metadata := (snap_Metadata s)\<lparr>meta_Finalizers := [FinalizerSnapshotQuiesce]\<rparr>,
         snap_Status := (snap_Status s)\<lparr>snap_Phase := ''Freezing'', snap_Message := ''requested a guest filesystem freeze for an application-consistent snapshot''\<rparr>\<rparr>\<rparr>)"

lemma asked_step:
  assumes "fresh_snapshot (qw_machine w) (qw_snap w)"
  shows "quiesce_step good parse format w (asked format w)"
proof -
  let ?env = "faulty_storage parse format" and ?s = "qw_snap w" and ?m = "qw_machine w"
  let ?calls = "[SFinalizers (snap_ns ?s) (snap_name ?s) [FinalizerSnapshotQuiesce],
     SRequest (Namespace ?m) (m_name ?m) (FormatQuiesceRef format (snap_name ?s) 0),
     SStatus (snap_ns ?s) (snap_name ?s) ((snap_Status ?s)\<lparr>snap_Phase := ''Freezing'', snap_Message := ''requested a guest filesystem freeze for an application-consistent snapshot''\<rparr>)]"
  have "run_state (requestGuestFreeze ?env ?s ?m) [] = (None, ?calls)"
    using assms by (simp add: fresh_snapshot_def requestGuestFreeze_def Let_def faulty_storage_def HasFinalizerList_def snap_try_def snap_clock_def
        attempt_def ask_def State_Monad.bind_def State_Monad.return_def)
  then have "run_state (snapshot_tick ?env (only_machine ?m) [?s]) [] = ((), ?calls)"
    using assms by (auto simp: fresh_snapshot_def reconcileSnapshot_def snapshotVolumes_def only_machine_def State_Monad.bind_def State_Monad.return_def)
  then have "quiesce_step good parse format w (snap_effects ?env [] ?calls w)"
    by (intro quiesce_step.controller) (simp_all add: faulty_storage_def)
  then show ?thesis by (simp add: asked_def faulty_storage_def Let_def)
qed

definition confirmed :: "QuiesceWorld \<Rightarrow> QuiesceWorld" where
  \<comment> \<open>after the node froze the guest\<close>
  "confirmed w = w\<lparr>qw_frozen := True, qw_machine := set_annotation AnnotationQuiesceStatus (mget (m_annotations (qw_machine w)) AnnotationQuiesceRequest) (qw_machine w)\<rparr>"

lemma confirmed_step:
  assumes "ga_Enabled (spec_GuestAgent (mach_Spec (qw_machine w)))" "quiesce_request parse (qw_machine w) = Some r" "quiesce_status parse (qw_machine w) = None"
    and "good (willing_node parse)"
  shows "quiesce_step good parse format w (confirmed w)"
proof -
  let ?m = "qw_machine w" and ?calls = "[QFreeze [], QConfirm (Namespace (qw_machine w)) (m_name (qw_machine w)) (mget (m_annotations (qw_machine w)) AnnotationQuiesceRequest)]"
  have "run_state (reconcileGuestQuiesce (willing_node parse) ?m []) [] = ((), ?calls)"
    using assms by (cases r) (simp add: reconcileGuestQuiesce_def willing_node_def attempt_def ask_def State_Monad.bind_def State_Monad.return_def)
  then have "quiesce_step good parse format w (quiesce_effects (willing_node parse) [] ?calls w)"
    using assms(4) by (intro quiesce_step.node) (simp_all add: willing_node_def)
  then show ?thesis by (simp add: confirmed_def willing_node_def)
qed

lemma failed_step:
  assumes "m_key (qw_machine w) = snap_ns (qw_snap w) @ ''/'' @ snap_MachineName (snap_Spec (qw_snap w))" "TrimSpace (snap_MachineName (snap_Spec (qw_snap w))) \<noteq> []"
    and "ga_Enabled (spec_GuestAgent (mach_Spec (qw_machine w)))" "snap_VolumeNames (snap_Spec (qw_snap w)) = []" "snap_phase (qw_snap w) = ''Freezing''"
    and "meta_DeletionTimestamp (snap_Metadata (qw_snap w)) = None"
    and "spec_Volumes (mach_Spec (qw_machine w)) = v # vs" "TrimSpace (vol_Name v) \<noteq> []" "TrimSpace (vol_ClaimName v) \<noteq> []"
    and "quiesce_request parse (qw_machine w) = Some (snap_name (qw_snap w), t)" "quiesce_status parse (qw_machine w) = Some (snap_name (qw_snap w), u)"
  shows "quiesce_step good parse format w (w\<lparr>qw_snap := (qw_snap w)\<lparr>snap_Status := (snap_Status (qw_snap w))\<lparr>snap_Phase := ''Failed'', snap_ReadyToUse := False, snap_Message := ''timeout''\<rparr>\<rparr>\<rparr>)"
proof -
  let ?env = "faulty_storage parse format" and ?s = "qw_snap w" and ?m = "qw_machine w"
  let ?get = "SGetVolume (snap_ns ?s) (snapshotVolumeName (snap_name ?s) (vol_Name v))"
  let ?failed = "(snap_Status ?s)\<lparr>snap_Phase := ''Failed'', snap_ReadyToUse := False, snap_Message := ''timeout''\<rparr>"
  have "run_state (stepVolumeSnapshot ?env ?s ?m v) [] = (Inl ''timeout'', [?get])"
    using assms(8,9) by (simp add: stepVolumeSnapshot_def faulty_storage_def ask_def State_Monad.bind_def State_Monad.return_def)
  then have "run_state (snapshot_volumes_loop ?env ?s ?m [] True False (v # vs)) [] = (Inl (Some ''timeout''), [?get])"
    by (simp add: atlas_used_def faulty_storage_def State_Monad.bind_def State_Monad.return_def)
  moreover have "run_state (ensureAtlasSnapshotFinalizer ?env ?s (v # vs)) [] = (None, [])"
  proof -
    have "atlas_used ?env x = None" for x by (simp add: atlas_used_def faulty_storage_def)
    then show ?thesis by (simp add: ensureAtlasSnapshotFinalizer_def State_Monad.return_def list_ex_iff)
  qed
  ultimately have "run_state (reconcileVolumeSnapshots ?env ?s ?m (v # vs)) [] = (Some ''timeout'', [?get])"
    by (simp add: reconcileVolumeSnapshots_def State_Monad.bind_def State_Monad.return_def del: snapshot_volumes_loop.simps)
  then have "run_state (awaitGuestFreeze ?env ?s ?m (v # vs)) [] = (Some ''timeout'', [?get])"
    using assms(10,11) by (simp add: awaitGuestFreeze_def faulty_storage_def)
  then have "run_state (reconcileSnapshot ?env ?s (only_machine ?m)) [] = (Some ''timeout'', [?get])"
    using assms(1-7) by (simp add: reconcileSnapshot_def only_machine_def snapshotVolumes_def)
  then have "run_state (snapshot_tick ?env (only_machine ?m) [?s]) [] = ((), [?get, SStatus (snap_ns ?s) (snap_name ?s) ?failed])"
    by (simp add: State_Monad.bind_def State_Monad.return_def snap_try_def attempt_def ask_def faulty_storage_def)
  then have "quiesce_step good parse format w (snap_effects ?env [] [?get, SStatus (snap_ns ?s) (snap_name ?s) ?failed] w)"
    by (intro quiesce_step.controller) (simp_all add: faulty_storage_def)
  then show ?thesis by (simp add: faulty_storage_def)
qed


text \<open>
  C36. A failed snapshot can leave the guest frozen for good. When reading a VolumeSnapshot fails while the
  guest is frozen, the controller marks the snapshot Failed and never clears its request; from then on
  neither the controller nor the node does anything more, and the guest stays frozen until someone
  deletes the snapshot.
\<close>

theorem failed_snapshot_leaves_guest_frozen:
  assumes "fresh_snapshot (qw_machine w) (qw_snap w)" "\<And>t. \<exists>u. parse (format t) = Some u"
  shows "\<exists>w1. (quiesce_step (\<lambda>_. True) parse format)\<^sup>*\<^sup>* w w1 \<and> snap_phase (qw_snap w1) = ''Failed''
    \<and> (\<forall>w2. (quiesce_step (\<lambda>_. True) parse format)\<^sup>*\<^sup>* w1 w2 \<longrightarrow> qw_frozen w2 \<and> w2 = w1)"
proof -
  let ?s = "qw_snap w" and ?m = "qw_machine w"
  let ?w1 = "asked format w" and ?w2 = "confirmed (asked format w)"
  obtain u where u: "parse (format 0) = Some u" using assms(2) by blast
  have req: "quiesce_request parse (qw_machine ?w1) = Some (snap_name ?s, u)" "quiesce_status parse (qw_machine ?w1) = None"
    using assms(1) ParseQuiesceRef_Format [of "snap_name ?s" parse format 0 u] u
    by (simp_all add: fresh_snapshot_def asked_def Let_def) (simp add: ParseQuiesceRef_def)
  have 1: "quiesce_step (\<lambda>_. True) parse format w ?w1" using assms(1) by (rule asked_step)
  have 2: "quiesce_step (\<lambda>_. True) parse format ?w1 ?w2"
    using req assms(1) by (intro confirmed_step) (auto simp: fresh_snapshot_def asked_def Let_def)
  have machine: "quiesce_request parse (qw_machine ?w2) = Some (snap_name ?s, u)" "quiesce_status parse (qw_machine ?w2) = Some (snap_name ?s, u)"
    using req(1) by (simp_all add: confirmed_def)
  have snap: "qw_snap ?w2 = qw_snap ?w1" "snap_name (qw_snap ?w1) = snap_name ?s" "snap_ns (qw_snap ?w1) = snap_ns ?s" "snap_Spec (qw_snap ?w1) = snap_Spec ?s"
    "snap_phase (qw_snap ?w1) = ''Freezing''" "meta_DeletionTimestamp (snap_Metadata (qw_snap ?w1)) = meta_DeletionTimestamp (snap_Metadata ?s)"
    by (simp_all add: asked_def confirmed_def Let_def meta_ns_def)
  have mach: "m_key (qw_machine ?w2) = m_key ?m" "mach_Spec (qw_machine ?w2) = mach_Spec ?m" by (simp_all add: asked_def confirmed_def Let_def)
  obtain v vs where v: "spec_Volumes (mach_Spec ?m) = v # vs" "TrimSpace (vol_Name v) \<noteq> []" "TrimSpace (vol_ClaimName v) \<noteq> []"
    using assms(1) by (auto simp: fresh_snapshot_def)
  define w3 where "w3 = ?w2\<lparr>qw_snap := (qw_snap ?w2)\<lparr>snap_Status := (snap_Status (qw_snap ?w2))\<lparr>snap_Phase := ''Failed'', snap_ReadyToUse := False, snap_Message := ''timeout''\<rparr>\<rparr>\<rparr>"
  have 3: "quiesce_step (\<lambda>_. True) parse format ?w2 w3" unfolding w3_def
    using assms(1) machine snap mach v by (intro failed_step [of _ v vs _ u u]) (simp_all add: fresh_snapshot_def)
  have gone: "abandoned parse w3"
    using machine snap assms(1) by (simp add: abandoned_def w3_def fresh_snapshot_def) (simp add: confirmed_def)
  have "(quiesce_step (\<lambda>_. True) parse format)\<^sup>*\<^sup>* w w3" using 1 2 3 by (meson r_into_rtranclp rtranclp_trans)
  moreover have "snap_phase (qw_snap w3) = ''Failed''" using gone by (simp add: abandoned_def)
  moreover have "qw_frozen w4 \<and> w4 = w3" if "(quiesce_step (\<lambda>_. True) parse format)\<^sup>*\<^sup>* w3 w4" for w4
    using abandoned_forever [OF that gone] gone by (simp add: abandoned_def)
  ultimately show ?thesis by blast
qed

section \<open>A frozen guest is marked\<close>

definition confirms :: "QuiesceEnv \<Rightarrow> bool" where
  \<comment> \<open>the patch that records a freeze does not fail\<close>
  "confirms env \<longleftrightarrow> (\<forall>h ns n r. qv_err env h (QConfirm ns n r) = None)"

lemma map_of_drop: "map_of (filter (\<lambda>(x, _). x \<noteq> k) xs) k' = (if k' = k then None else map_of xs k')"
  by (induction xs) auto

lemma drop_annotation_sel [simp]:
  "mget (m_annotations (drop_annotation k m)) k' = (if k' = k then [] else mget (m_annotations m) k')"
  by (simp add: drop_annotation_def mget_def map_of_drop)

abbreviation status_text :: "QuiesceWorld \<Rightarrow> string" where
  "status_text w \<equiv> mget (m_annotations (qw_machine w)) AnnotationQuiesceStatus"

lemma snap_effect_status [simp]: "qw_frozen (snap_effect c w) = qw_frozen w" "status_text (snap_effect c w) = status_text w"
  by (cases c; simp)+

lemma snap_effects_status [simp]: "qw_frozen (snap_effects env h cs w) = qw_frozen w" "status_text (snap_effects env h cs w) = status_text w"
  by (induction cs arbitrary: h w) auto

lemma node_step_marked:
  assumes "confirms env" "qw_frozen w \<longrightarrow> quiesce_status (qv_parse env) (qw_machine w) \<noteq> None"
    and "run_state (reconcileGuestQuiesce env (qw_machine w) rid) [] = ((), calls)"
    and "qw_frozen (quiesce_effects env [] calls w)"
  shows "quiesce_status (qv_parse env) (qw_machine (quiesce_effects env [] calls w)) \<noteq> None"
proof -
  let ?m = "qw_machine w"
  let ?ask = "mget (m_annotations ?m) AnnotationQuiesceRequest"
  consider "calls = []" | (freeze) r where "quiesce_request (qv_parse env) ?m = Some r" "calls = [QFreeze rid] \<and> qv_err env [] (QFreeze rid) \<noteq> None
      \<or> calls = [QFreeze rid, QConfirm (Namespace ?m) (m_name ?m) ?ask] \<and> qv_err env [] (QFreeze rid) = None"
    | (thaw) "calls = [QThaw rid] \<and> qv_err env [] (QThaw rid) \<noteq> None \<or> calls = [QThaw rid, QClearStatus (Namespace ?m) (m_name ?m)] \<and> qv_err env [] (QThaw rid) = None"
    using assms(3) by (auto simp: reconcileGuestQuiesce_def attempt_def ask_def State_Monad.bind_def State_Monad.return_def split: if_splits option.splits)
  then show ?thesis
  proof cases
    case freeze
    have "qv_err env h (QConfirm (Namespace ?m) (m_name ?m) ?ask) = None" for h using assms(1) by (simp add: confirms_def)
    then show ?thesis using freeze assms(2,4) by auto
  qed (use assms(2,4) in \<open>auto split: if_splits\<close>)
qed

text \<open>
  C13. A frozen guest always carries the confirmation that makes the node thaw it. As long as the patches
  that record a freeze succeed, in every state the controller and the node reach from an unfrozen guest,
  with any other calls failing, the Machine of a frozen guest has a confirmation; so one tick of the
  node after the request is cleared thaws it.
\<close>

theorem frozen_guest_marked:
  assumes "(quiesce_step confirms parse format)\<^sup>*\<^sup>* w w'" "\<not> qw_frozen w" "ga_Enabled (spec_GuestAgent (mach_Spec (qw_machine w')))"
  shows "(qw_frozen w' \<longrightarrow> quiesce_status parse (qw_machine w') \<noteq> None)
    \<and> (qw_frozen w' \<and> quiesce_request parse (qw_machine w') = None \<longrightarrow> (\<exists>w''. quiesce_step confirms parse format w' w'' \<and> \<not> qw_frozen w''))"
proof -
  have marked: "qw_frozen w' \<longrightarrow> quiesce_status parse (qw_machine w') \<noteq> None" using assms(1)
  proof (induction rule: rtranclp_induct)
    case base
    then show ?case using assms(2) by simp
  next
    case (step y z)
    from step(2) show ?case
    proof cases
      case (controller env calls)
      then show ?thesis using step(3) by simp
    next
      case (node env rid calls)
      then show ?thesis using node_step_marked [of env y rid calls] step(3) by auto
    qed
  qed
  moreover have "\<exists>w''. quiesce_step confirms parse format w' w'' \<and> \<not> qw_frozen w''"
    if frozen: "qw_frozen w'" and cleared: "quiesce_request parse (qw_machine w') = None"
  proof -
    let ?calls = "[QThaw [], QClearStatus (Namespace (qw_machine w')) (m_name (qw_machine w'))]"
    obtain st where "quiesce_status parse (qw_machine w') = Some st" using marked frozen by blast
    then have "run_state (reconcileGuestQuiesce (willing_node parse) (qw_machine w') []) [] = ((), ?calls)"
      using cleared assms(3) by (cases st) (simp add: reconcileGuestQuiesce_def willing_node_def attempt_def ask_def State_Monad.bind_def State_Monad.return_def)
    then have "quiesce_step confirms parse format w' (quiesce_effects (willing_node parse) [] ?calls w')"
      by (intro quiesce_step.node) (simp_all add: willing_node_def confirms_def)
    then show ?thesis by (intro exI conjI) (assumption, simp add: willing_node_def)
  qed
  ultimately show ?thesis by blast
qed

section \<open>Names of volume snapshots\<close>

lemma dns_clean_id: "list_all dns_char s \<Longrightarrow> dns_clean r (s @ t) = s @ dns_clean (r \<and> s = []) t"
  by (induction s arbitrary: r) auto

lemma lower_dns: "dns_char c \<Longrightarrow> lower_char c = c"
  by (auto simp: dns_char_def lower_char_def Let_def)

lemma trim_dashes_keep: "x \<noteq> [] \<Longrightarrow> last x \<noteq> CHR ''-'' \<Longrightarrow> trim_dashes (y @ x) = y @ x"
  by (cases x rule: rev_cases) (simp_all add: trim_dashes_def)

text \<open>
  Under a long name a snapshot covers one volume only. When the name of a snapshot has 63 characters or more, all
  volumes of the Machine get the same VolumeSnapshot name, so the pass over the second volume finds the
  snapshot of the first and takes it for its own.
\<close>

theorem long_name_shares_volume_snapshot:
  assumes "length s \<ge> 63" "list_all dns_char s" "hd s \<noteq> CHR ''-''" "list_all dns_char v" "list_all dns_char v'" "v \<noteq> []" "v' \<noteq> []"
    and "last v \<noteq> CHR ''-''" "last v' \<noteq> CHR ''-''"
  shows "snapshotVolumeName s v = snapshotVolumeName s v'"
proof -
  have name: "snapshotVolumeName s x = (let n = trim_dashes (take 63 s) in if n = [] then ''kairon-snapshot'' else n)"
    if "list_all dns_char x" "x \<noteq> []" "last x \<noteq> CHR ''-''" for x
  proof -
    have all: "list_all dns_char (s @ ''-'' @ x)" using assms(2) that(1) by (simp add: dns_char_def)
    then have "ToLower (s @ ''-'' @ x) = s @ ''-'' @ x" unfolding ToLower_def by (auto intro!: map_idI simp: list_all_iff lower_dns)
    then have "dns_clean False (ToLower (s @ ''-'' @ x)) = s @ ''-'' @ x" using dns_clean_id [OF all, of False "[]"] by simp
    moreover have "s \<noteq> []" using assms(1) by auto
    then have "dropWhile (\<lambda>c. c = CHR ''-'') (s @ ''-'' @ x) = s @ ''-'' @ x" using assms(3) by (cases s) simp_all
    moreover have "trim_dashes (s @ ''-'' @ x) = s @ ''-'' @ x"
      using trim_dashes_keep [OF that(2,3), of "s @ ''-''"] by simp
    ultimately show ?thesis using assms(1) by (simp add: snapshotVolumeName_def Let_def)
  qed
  show ?thesis using name [OF assms(4,6,8)] name [OF assms(5,7,9)] by simp
qed

section \<open>Examples\<close>

abbreviation parse0 :: "string \<Rightarrow> time option" where "parse0 \<equiv> \<lambda>s. Some 0"
abbreviation format0 :: "time \<Rightarrow> string" where "format0 \<equiv> \<lambda>t. ''t''"

definition db_machine :: "smap \<Rightarrow> Machine" where
  \<comment> \<open>a Machine with a guest agent, one volume and these annotations\<close>
  "db_machine ann = Machine0\<lparr>mach_Metadata := ObjectMeta0\<lparr>meta_Name := ''db'', meta_Annotations := ann\<rparr>,
     mach_Spec := MachineSpec0\<lparr>spec_GuestAgent := \<lparr>ga_Enabled = True, ga_Console = False\<rparr>,
       spec_Volumes := [\<lparr>vol_Name = ''data'', vol_ClaimName = ''pvc'', vol_GuestPath = [], vol_ReadOnly = False, vol_Atlas = None\<rparr>]\<rparr>\<rparr>"

definition db_snapshot :: "string list \<Rightarrow> time option \<Rightarrow> string \<Rightarrow> MachineSnapshot" where
  "db_snapshot finals deleted phase = \<lparr>snap_Metadata = ObjectMeta0\<lparr>meta_Name := ''s'', meta_Finalizers := finals, meta_DeletionTimestamp := deleted\<rparr>,
     snap_Spec = \<lparr>snap_MachineName = ''db'', snap_VolumeSnapshotClassName = [], snap_VolumeNames = []\<rparr>,
     snap_Status = MachineSnapshotStatus0\<lparr>snap_Phase := phase\<rparr>\<rparr>"

definition db_world :: QuiesceWorld where
  "db_world = \<lparr>qw_frozen = False, qw_machine = db_machine [], qw_snap = db_snapshot [] None []\<rparr>"

lemma db_machine_sel [simp]:
  "m_name (db_machine ann) = ''db''" "Namespace (db_machine ann) = ''default''" "m_key (db_machine ann) = ''default/db''" "m_annotations (db_machine ann) = ann"
  "ga_Enabled (spec_GuestAgent (mach_Spec (db_machine ann)))"
  "spec_Volumes (mach_Spec (db_machine ann)) = [\<lparr>vol_Name = ''data'', vol_ClaimName = ''pvc'', vol_GuestPath = [], vol_ReadOnly = False, vol_Atlas = None\<rparr>]"
  by (simp_all add: db_machine_def Namespace_def m_key_def meta_ns_def DefaultNamespace_def)

lemma db_snapshot_sel [simp]:
  "snap_name (db_snapshot f d p) = ''s''" "snap_ns (db_snapshot f d p) = ''default''" "snap_finalizers (db_snapshot f d p) = f"
  "meta_DeletionTimestamp (snap_Metadata (db_snapshot f d p)) = d" "snap_phase (db_snapshot f d p) = p"
  "snap_Spec (db_snapshot f d p) = \<lparr>snap_MachineName = ''db'', snap_VolumeSnapshotClassName = [], snap_VolumeNames = []\<rparr>"
  by (simp_all add: db_snapshot_def meta_ns_def DefaultNamespace_def)

lemma db_fresh: "fresh_snapshot (qw_machine db_world) (qw_snap db_world)"
  by (simp add: fresh_snapshot_def db_world_def mget_def TrimSpace_def is_space_def)

theorem quiesce_finalizer_safe_witness:
  "run_state (reconcileSnapshot (faulty_storage parse0 format0) (db_snapshot [FinalizerSnapshotQuiesce] (Some 1) ''Freezing'') (\<lambda>_. None)) []
     = (None, [SFinalizers ''default'' ''s'' []])
   \<and> \<not> holds_frozen (faulty_storage parse0 format0) (db_snapshot [FinalizerSnapshotQuiesce] (Some 1) ''Freezing'') None"
proof -
  let ?s = "db_snapshot [FinalizerSnapshotQuiesce] (Some 1) ''Freezing''" and ?env = "faulty_storage parse0 format0"
  have "FinalizerSnapshotQuiesce \<noteq> FinalizerAtlasSnapshots" by simp
  then have run: "run_state (reconcileSnapshot ?env ?s (\<lambda>_. None)) [] = (None, [SFinalizers ''default'' ''s'' []])"
    by (simp add: reconcileSnapshot_def reconcileSnapshotDeletion_def thaw_before_deletion_def HasFinalizerList_def RemoveFinalizer_def
        snap_try_def attempt_def ask_def State_Monad.bind_def State_Monad.return_def) (simp add: faulty_storage_def)
  have "\<not> holds_frozen ?env ?s ((\<lambda>_. None) (snap_ns ?s @ ''/'' @ snap_MachineName (snap_Spec ?s)))"
    using quiesce_finalizer_safe [OF run, of "''default''" "''s''" "[]"] by simp
  with run show ?thesis by simp
qed

theorem failed_snapshot_leaves_guest_frozen_witness:
  "\<exists>w1. (quiesce_step (\<lambda>_. True) parse0 format0)\<^sup>*\<^sup>* db_world w1 \<and> snap_phase (qw_snap w1) = ''Failed''
    \<and> (\<forall>w2. (quiesce_step (\<lambda>_. True) parse0 format0)\<^sup>*\<^sup>* w1 w2 \<longrightarrow> qw_frozen w2 \<and> w2 = w1)"
  by (rule failed_snapshot_leaves_guest_frozen [OF db_fresh]) simp

theorem frozen_guest_marked_witness:
  "qw_frozen (confirmed (asked format0 db_world)) \<and> quiesce_status parse0 (qw_machine (confirmed (asked format0 db_world))) \<noteq> None"
proof -
  let ?w1 = "asked format0 db_world"
  have ann: "mget (m_annotations (qw_machine ?w1)) AnnotationQuiesceRequest = ''s@t''" "mget (m_annotations (qw_machine ?w1)) AnnotationQuiesceStatus = []"
    by (simp_all add: asked_def Let_def db_world_def FormatQuiesceRef_def) (simp add: mget_def)
  have 1: "quiesce_step confirms parse0 format0 db_world ?w1" by (rule asked_step [OF db_fresh])
  have "mach_Spec (qw_machine ?w1) = mach_Spec (qw_machine db_world)" by (simp add: asked_def Let_def)
  then have guest: "ga_Enabled (spec_GuestAgent (mach_Spec (qw_machine ?w1)))" by (simp add: db_world_def)
  have "quiesce_step confirms parse0 format0 ?w1 (confirmed ?w1)"
    by (rule confirmed_step [where r = "(''s'', 0)"]) (simp_all add: ann guest ParseQuiesceRef_def confirms_def willing_node_def)
  with 1 have "(quiesce_step confirms parse0 format0)\<^sup>*\<^sup>* db_world (confirmed ?w1)" by (meson r_into_rtranclp rtranclp_trans)
  moreover have "qw_frozen (confirmed ?w1)" "\<not> qw_frozen db_world" "ga_Enabled (spec_GuestAgent (mach_Spec (qw_machine (confirmed ?w1))))"
    using guest by (simp_all add: confirmed_def db_world_def)
  ultimately show ?thesis using frozen_guest_marked [of parse0 format0 db_world "confirmed ?w1"] by simp
qed


definition ready_storage :: SnapEnv where
  \<comment> \<open>storage without snapshots that makes a ready one when asked\<close>
  "ready_storage = (faulty_storage parse0 format0)\<lparr>
     sv_volume := (\<lambda>h n. Inl (ApiErr \<lparr>ae_Method = [], ae_Path = [], ae_StatusCode = 404, ae_Body = []\<rparr>)),
     sv_created := (\<lambda>h n. Inr \<lparr>vss_ReadyToUse = Some True, vss_Error = None, vss_RestoreSize = None\<rparr>)\<rparr>"

theorem snapshot_taken_frozen_witness:
  "\<exists>e calls c. run_state (reconcileSnapshot ready_storage (db_snapshot [] None ''Freezing'')
       (only_machine (db_machine [(AnnotationQuiesceRequest, ''s@t''), (AnnotationQuiesceStatus, ''s@t'')]))) [] = (e, calls)
     \<and> c \<in> set calls \<and> takes_snapshot c
     \<and> quiesce_request parse0 (db_machine [(AnnotationQuiesceRequest, ''s@t''), (AnnotationQuiesceStatus, ''s@t'')]) = Some (''s'', 0)"
proof -
  let ?m = "db_machine [(AnnotationQuiesceRequest, ''s@t''), (AnnotationQuiesceStatus, ''s@t'')]" and ?s = "db_snapshot [] None ''Freezing''"
  let ?name = "snapshotVolumeName ''s'' ''data''"
  let ?v = "\<lparr>vol_Name = ''data'', vol_ClaimName = ''pvc'', vol_GuestPath = [], vol_ReadOnly = False, vol_Atlas = None\<rparr>"
  let ?create = "SCreateVolume ''default'' ?name [(''kairon.zyvor.dev/machine'', ''db''), (''kairon.zyvor.dev/snapshot'', ''s'')] ''pvc'' None"
  have refs: "quiesce_request parse0 ?m = Some (''s'', 0)" "quiesce_status parse0 ?m = Some (''s'', 0)"
    by (simp_all add: ParseQuiesceRef_def mget_def)
  have "\<exists>ref. run_state (stepVolumeSnapshot ready_storage ?s ?m ?v) [] = (Inr (ref, True), [SGetVolume ''default'' ?name, ?create])"
    by (simp add: stepVolumeSnapshot_def Let_def ready_storage_def ask_def State_Monad.bind_def State_Monad.return_def TrimSpace_def is_space_def)
  then obtain ref where "run_state (stepVolumeSnapshot ready_storage ?s ?m ?v) [] = (Inr (ref, True), [SGetVolume ''default'' ?name, ?create])" by blast
  then have loop: "run_state (snapshot_volumes_loop ready_storage ?s ?m [] True False [?v]) [] = (Inr ([ref], vsr_ReadyToUse ref, True), [SGetVolume ''default'' ?name, ?create])"
    by (simp add: atlas_used_def State_Monad.bind_def State_Monad.return_def)
  have fin: "run_state (ensureAtlasSnapshotFinalizer ready_storage ?s [?v]) [] = (None, [])"
    by (simp add: ensureAtlasSnapshotFinalizer_def atlas_used_def State_Monad.return_def)
  obtain e cs where thaw: "run_state (requestGuestThaw ready_storage ?s ?m [ref]) [SGetVolume ''default'' ?name, ?create] = (e, [SGetVolume ''default'' ?name, ?create] @ cs)"
    using requestGuestThaw_calls [of "\<lambda>_. True" ready_storage ?s ?m "[ref]"] unfolding only_calls_def by blast
  have parse: "sv_parse ready_storage = parse0" by (simp add: ready_storage_def faulty_storage_def)
  have "run_state (reconcileVolumeSnapshots ready_storage ?s ?m [?v]) [] = (e, [SGetVolume ''default'' ?name, ?create] @ cs)"
    using loop fin thaw by (simp add: reconcileVolumeSnapshots_def State_Monad.bind_def del: snapshot_volumes_loop.simps)
  then have run: "run_state (reconcileSnapshot ready_storage ?s (only_machine ?m)) [] = (e, [SGetVolume ''default'' ?name, ?create] @ cs)"
    using refs by (simp add: reconcileSnapshot_def only_machine_def snapshotVolumes_def awaitGuestFreeze_def parse TrimSpace_def is_space_def)
  have "only_machine ?m (snap_ns ?s @ ''/'' @ snap_MachineName (snap_Spec ?s)) = Some ?m" by (simp add: only_machine_def)
  from snapshot_taken_frozen [OF run this, of ?create] have "\<exists>t. quiesce_request parse0 ?m = Some (''s'', t)" using parse by auto
  with refs(1) show ?thesis
    by (intro exI [of _ e] exI [of _ "[SGetVolume ''default'' ?name, ?create] @ cs"] exI [of _ ?create] conjI run) simp_all
qed

theorem long_name_shares_volume_snapshot_witness:
  "snapshotVolumeName (replicate 63 (CHR ''a'')) ''data'' = snapshotVolumeName (replicate 63 (CHR ''a'')) ''logs''"
  by (rule long_name_shares_volume_snapshot) (simp_all add: dns_char_def list_all_iff hd_replicate)

end
