(* ===== verification/Spec2Isabelle.thy ===== *)
theory Spec2Isabelle
  imports Scheduling_Loop Session_Race Leader_Election Snapshot_Schedule Live_Migration Machine_Pool Node_Fencing Machine_Snapshot
begin

text \<open>
  Kairon runs virtual machines on a Kubernetes cluster. A user writes a Machine object; the
  controller (\<open>internal/controller\<close>, one leader among several processes) picks its node, keeps
  quotas, disruption budgets and migration policies, and advances migrations, replica sets and
  snapshot schedules once per tick; the agent of each node (\<open>internal/agent\<close>) makes the node's
  virtual machines follow the objects through FluxVM, and moves a running one to another node
  with the help of a migration server (\<open>internal/migration\<close>) on the destination. They meet only
  in the API server, in the Leases they write there, and in the requests between agents.

  \<^bold>\<open>Conventions.\<close> A Go struct is a record with its fields in their order, a pointer an option, a
  slice a list, a string a list of bytes, a map an association list of distinct keys; an error
  is the left side of a sum. Integers whose wrap-around can matter keep their width
  (\<open>uint32\<close>, \<open>uint64\<close>, the \<open>int64\<close> of durations); the others are unbounded. An instant is a number of
  nanoseconds since year 1, and 0 is the zero \<open>time.Time\<close>. A tick in which only few calls can fail
  takes their answers as arguments; code that makes many calls is a computation in the state
  monad over the calls made so far, and what a call answers is a function of that history
  (\<open>Call_Log\<close>), so that a theorem about every such function covers every pattern of failures, of
  stale reads and of changes by others. Where processes run side by side, their steps are an
  inductive relation and the theorems are about every reachable state. Functions that read random bytes,
  encode JSON or print an instant take the result as an argument. Log lines and metrics are left out.

  \<^bold>\<open>Foundations.\<close>
  \<^item> \<open>Kairon_Prelude\<close>: strings, maps, results, the stable sort of \<open>sort.SliceStable\<close> with its laws, and
    the locale \<open>key_order\<close> of the orders the sources sort by.
  \<^item> \<open>Go_Strings\<close>, \<open>Go_Float\<close>, \<open>Go_Time\<close>, \<open>Go_Hash\<close>: what the sources use of \<open>strings\<close>, \<open>strconv\<close>, \<open>fmt\<close>,
    of \<open>float64\<close> with its rounding, of \<open>time.Duration\<close> and of \<open>crypto/sha256\<close>.
  \<^item> \<open>Call_Log\<close>: the state monad over calls, and which calls a computation may make or end in.
  \<^item> \<open>Machine_Types\<close>, \<open>Model_Types\<close>: the API objects of \<open>internal/model/types.go\<close>, \<open>network.go\<close> and
    \<open>conditions.go\<close>, whole, and the functions on them.
  \<^item> \<open>Quantity\<close>: \<open>quantity.go\<close>, \<open>cpupinning.go\<close> and \<open>ParseIntOrPercent\<close>. Whole quantities keep their value
    through \<open>float64\<close>; a percentage is the exact ceiling or one more; CPU lists round-trip.

  \<^bold>\<open>Scheduling.\<close>
  \<^item> \<open>Capacity\<close>, \<open>Scheduler\<close> (\<open>internal/scheduler\<close>): filters, spread limits, scores, \<open>Choose\<close> and the CPUs
    of pinned Machines. The chosen node passes every filter and has the greatest score; the spread
    filter keeps exactly the nodes within the skew; the CPUs handed out belong to nobody else.
  \<^item> \<open>Scheduling_Loop\<close> (\<open>Reconcile\<close> in \<open>controller.go\<close>): the loop of a tick. No tick assigns a node more than
    it declares; two pinned Machines of one tick do get the same CPUs.
  \<^item> \<open>Admission\<close>: the locale \<open>spend_tracker\<close>, the contract of trackers that refuse or spend, with what a
    sequence of requests can do. \<open>Quota\<close>, \<open>Disruption\<close> and \<open>Migration_Policy\<close> interpret it: limits
    hold over any sequence, budgets keep their healthy Machines, caps are kept.
  \<^item> \<open>Preempt\<close> (\<open>internal/preempt\<close>, \<open>controller/preempt.go\<close>): victims are legitimate, are halted once
    and within the budgets, and resume exactly when their preemptor lets go.

  \<^bold>\<open>Migration.\<close>
  \<^item> \<open>Migration_Controller\<close> (\<open>controller.go\<close>, \<open>preflight.go\<close>, \<open>labels.go\<close>): admission, targets and the
    phase machine of a migration, with its graph, its concurrency limits and when a Machine's
    node is changed.
  \<^item> \<open>Migration_Session\<close> (\<open>internal/migration/server.go\<close>, \<open>store.go\<close>, \<open>types.go\<close>): the destination's handlers
    and reaper over the file store. The store is the locale \<open>session_store\<close>, interpreted on
    \<open>FileStore\<close> with its failing disk; the life cycle of a session is proved in it.
  \<^item> \<open>Session_Race\<close>: the handlers interleaved on one session. The lock keeps commit and abort apart;
    the heartbeat, which takes none, can undo a commit.
  \<^item> \<open>Agent_Migration\<close> (\<open>agent.go\<close>, \<open>edge.go\<close>): the source side, from \<open>Prepare\<close> to \<open>Cutover\<close>, cancellation and
    recovery. The runtime of the source is deleted only on an operator's attestation.
  \<^item> \<open>Live_Migration\<close> (\<open>client.go\<close> and the composition): agent, network, servers and controller in any
    interleaving. The controller moves a Machine only when a destination has committed its
    session, and a destination that committed stays so; when calls succeed a migration reaches
    Succeeded; a lost status patch can end a committed one as Failed.

  \<^bold>\<open>Cluster life.\<close>
  \<^item> \<open>Lease\<close> (\<open>internal/nodeliveness\<close>), \<open>Leader_Election\<close> (\<open>internal/leaderelection\<close>): renewal and freshness; any
    number of electors interleaved on one Lease under optimistic concurrency, of which two never
    lead within a lease duration.
  \<^item> \<open>Snapshot_Schedule\<close>: \<open>nextSlot\<close> equals the least slot after an instant; a run is not repeated before
    the next slot; pruning keeps the newest ready snapshot.
  \<^item> \<open>Machine_Set\<close>: a tick refines an abstract rollout on two counters, which ends with exactly the
    desired replicas; availability is kept; only Machines of the set are touched.
  \<^item> \<open>Node_Fencing\<close>: the unreachable condition, cordons, and the fencing of Machines off dead nodes,
    which happens only behind every gate; its limit counts only completed fencings.

  \<^bold>\<open>Bounds and fuel.\<close> Loops over lists are structural recursion. \<open>nextSlot\<close> walks days with fuel, and is
  proved to have enough for every valid schedule. The rollout of a MachineSet is proved to
  end within a measure of its two counters. No other loop of the modelled code is unbounded:
  the outer loops of the processes are the steps of the inductive relations.

  \<^bold>\<open>Not modelled.\<close> The user interface and its HTTP API (\<open>internal/uiapi\<close>, \<open>web\<close>), the command line
  (\<open>internal/kaironctl\<close>), console proxy, metrics, tracing, TLS reloading and the \<open>main\<close> functions are
  transport, rendering and flags. \<open>internal/kube\<close> and \<open>internal/fluxvm\<close> are the clients whose calls the
  models log; their wire encoding is not modelled. Of the agent, the part that creates and
  converges one virtual machine, storage, devices and guest networking drives FluxVM, the kernel
  and CSI drivers, whose behaviour the repository does not contain. The remaining controllers
  (restores, backups, images, pools, fleets) and the agent plane are listed in the manifest.
\<close>

end
